(* ===== verification/Prelude.thy ===== *)
theory Prelude
  imports Main "HOL-Library.Multiset" "HOL-Library.Word" "HOL-Library.Monad_Syntax"
begin

text \<open>
  Shared vocabulary of the development: Go's \<^verbatim>\<open>int64\<close> with its wrap-around written out, sums over
  Go maps and over the order store, stable sorting of a list that is sorted but for its last
  element, decimal printing as done by \<^verbatim>\<open>%d\<close>, and the lemma collections the components extend.
\<close>

named_theorems const_defs \<open>definitions of the string constants of the code\<close>
named_theorems int64_intro \<open>facts that establish the int64 range\<close>

section \<open>Machine integers\<close>

text \<open>
  A Go \<^verbatim>\<open>int64\<close> is an \<^typ>\<open>int\<close> in the range below; every arithmetic operation of the source is
  followed by \<open>i64\<close>, which is two's complement wrap-around. A \<^verbatim>\<open>uint64\<close> is a 64-bit word.
\<close>

type_synonym u64 = "64 word"

definition int64 :: "int \<Rightarrow> bool" where
  "int64 x \<longleftrightarrow> - (2 ^ 63) \<le> x \<and> x < 2 ^ 63"

definition i64 :: "int \<Rightarrow> int" where
  "i64 x = (x + 2 ^ 63) mod 2 ^ 64 - 2 ^ 63"

lemma i64_id [simp]: "int64 x \<Longrightarrow> i64 x = x"
  by (simp add: int64_def i64_def)

lemma int64_i64 [simp, int64_intro]: "int64 (i64 x)"
  by (simp add: int64_def i64_def)

lemma i64_le: "- (2 ^ 63) \<le> x \<Longrightarrow> i64 x \<le> x"
  unfolding i64_def using zmod_le_nonneg_dividend [of "x + 2 ^ 63" "2 ^ 64"] by simp

lemma int64_between [int64_intro]: "int64 a \<Longrightarrow> int64 b \<Longrightarrow> a \<le> x \<Longrightarrow> x \<le> b \<Longrightarrow> int64 x"
  by (simp add: int64_def)

lemma int64_nonneg: "0 \<le> x \<Longrightarrow> x < 2 ^ 63 \<Longrightarrow> int64 x"
  by (simp add: int64_def)

lemma int64_diff_nonneg [int64_intro]: "0 \<le> a \<Longrightarrow> 0 \<le> b \<Longrightarrow> int64 a \<Longrightarrow> int64 b \<Longrightarrow> int64 (a - b)"
  by (simp add: int64_def)

section \<open>Sums over maps and over the store\<close>

text \<open>The total of a measure over the values of a Go map, and how one assignment changes it.\<close>

definition msum :: "('v \<Rightarrow> int) \<Rightarrow> ('k \<rightharpoonup> 'v) \<Rightarrow> int" where
  "msum f m = (\<Sum>k\<in>dom m. f (the (m k)))"

definition at_key :: "('v \<Rightarrow> int) \<Rightarrow> ('k \<rightharpoonup> 'v) \<Rightarrow> 'k \<Rightarrow> int" where
  "at_key f m k = (case m k of None \<Rightarrow> 0 | Some v \<Rightarrow> f v)"

lemma at_key_simps [simp]:
  "m k = None \<Longrightarrow> at_key f m k = 0"
  "m k = Some v \<Longrightarrow> at_key f m k = f v"
  "at_key f (m(k \<mapsto> v)) k' = (if k' = k then f v else at_key f m k')"
  by (simp_all add: at_key_def)

lemma msum_empty [simp]: "msum f Map.empty = 0"
  by (simp add: msum_def)

lemma msum_upd [simp]:
  assumes "finite (dom m)"
  shows "msum f (m(k \<mapsto> v)) = msum f m - at_key f m k + f v"
proof -
  have rest: "(\<Sum>j\<in>dom m - {k}. f (the ((m(k \<mapsto> v)) j))) = (\<Sum>j\<in>dom m - {k}. f (the (m j)))"
    by (rule sum.cong) auto
  have "msum f (m(k \<mapsto> v)) = f v + (\<Sum>j\<in>dom m - {k}. f (the (m j)))"
    using assms by (simp add: msum_def sum.insert_remove rest del: fun_upd_apply) simp
  moreover have "msum f m = at_key f m k + (\<Sum>j\<in>dom m - {k}. f (the (m j)))"
  proof (cases "m k")
    case None
    then have "dom m - {k} = dom m" by auto
    with None show ?thesis by (simp add: msum_def)
  next
    case (Some a)
    then have "k \<in> dom m" by auto
    with assms Some show ?thesis by (simp add: msum_def sum.remove [of "dom m" k])
  qed
  ultimately show ?thesis by simp
qed

lemma msum_over:
  assumes "finite D" and "dom m \<subseteq> D"
  shows "msum f m = (\<Sum>k\<in>D. at_key f m k)"
proof -
  have "(\<Sum>k\<in>dom m. at_key f m k) = (\<Sum>k\<in>D. at_key f m k)"
    by (rule sum.mono_neutral_left) (use assms in \<open>auto simp: at_key_def split: option.split\<close>)
  moreover have "msum f m = (\<Sum>k\<in>dom m. at_key f m k)"
    unfolding msum_def by (rule sum.cong) (auto simp: at_key_def)
  ultimately show ?thesis by simp
qed

text \<open>Moving an amount from one key to another keeps the total.\<close>

lemma msum_transfer:
  assumes "finite (dom m')" and "dom m \<subseteq> dom m'" and "a \<in> dom m'" and "b \<in> dom m'"
    and "\<And>k. at_key f m' k = at_key f m k + (if k = a then c else 0) + (if k = b then - c else 0)"
  shows "msum f m' = msum f m"
  using assms by (simp add: msum_over [of "dom m'"] sum.distrib sum.delta)

lemma at_key_le_msum:
  assumes "finite (dom m)" and "\<And>j v. m j = Some v \<Longrightarrow> 0 \<le> f v"
  shows "at_key f m k \<le> msum f m"
proof (cases "m k")
  case None
  have "0 \<le> msum f m"
    unfolding msum_def using assms(2) by (auto intro!: sum_nonneg)
  with None show ?thesis by simp
next
  case (Some v)
  then have "k \<in> dom m" by auto
  moreover have "\<And>j. j \<in> dom m - {k} \<Longrightarrow> 0 \<le> f (the (m j))"
    using assms(2) by auto
  ultimately have "f (the (m k)) \<le> msum f m"
    unfolding msum_def using assms by (intro member_le_sum) auto
  with Some show ?thesis by simp
qed

lemma two_keys_le_msum:
  assumes fin: "finite (dom m)" and pos: "\<And>j v. m j = Some v \<Longrightarrow> 0 \<le> f v" and "k \<noteq> l"
  shows "at_key f m k + at_key f m l \<le> msum f m"
proof (cases "m k")
  case None
  then show ?thesis using at_key_le_msum [of m f l] fin pos by simp
next
  case (Some v)
  let ?m = "m(k := None)"
  have eq: "m = ?m(k \<mapsto> v)" using Some by auto
  have "msum f m = msum f ?m + f v"
    using msum_upd [of ?m f k v] fin unfolding eq [symmetric] by simp
  moreover have "at_key f ?m l \<le> msum f ?m"
    by (rule at_key_le_msum) (use fin pos in \<open>auto split: if_splits\<close>)
  ultimately show ?thesis using Some \<open>k \<noteq> l\<close> by (simp add: at_key_def)
qed

text \<open>One assignment through a pointer changes a sum over the store at that pointer only.\<close>

lemma sum_store_upd:
  fixes f :: "'a \<Rightarrow> int" and n :: nat
  assumes "p < n"
  shows "(\<Sum>q<n. f ((h(p := x)) q)) = (\<Sum>q<n. f (h q)) - f (h p) + f x"
proof -
  have "(\<Sum>q\<in>{..<n} - {p}. f ((h(p := x)) q)) = (\<Sum>q\<in>{..<n} - {p}. f (h q))"
    by (rule sum.cong) auto
  then show ?thesis
    using assms by (simp add: sum.remove [of "{..<n}" p] del: fun_upd_apply) simp
qed

lemma sum_store_new:
  fixes f :: "'a \<Rightarrow> int"
  shows "(\<Sum>q<Suc n. f ((h(n := x)) q)) = (\<Sum>q<n. f (h q)) + f x"
proof -
  have "(\<Sum>q<n. f ((h(n := x)) q)) = (\<Sum>q<n. f (h q))"
    by (rule sum.cong) auto
  then show ?thesis by simp
qed

lemma sum_store_member:
  fixes f :: "'a \<Rightarrow> int" and n :: nat
  assumes "p < n" and "\<And>q. q < n \<Longrightarrow> 0 \<le> f (h q)"
  shows "f (h p) \<le> (\<Sum>q<n. f (h q))"
  by (rule member_le_sum) (use assms in auto)

section \<open>Stable sorting\<close>

text \<open>
  \<^verbatim>\<open>sort.SliceStable\<close> is HOL's stable \<^const>\<open>sort_key\<close>. Appending one element to a sorted list and
  sorting stably inserts it behind every element whose key is not larger.
\<close>

lemma sort_key_snoc:
  fixes f :: "'a \<Rightarrow> 'b::linorder"
  assumes "sorted (map f xs)"
  shows "sort_key f (xs @ [x]) =
    takeWhile (\<lambda>y. f y \<le> f x) xs @ x # dropWhile (\<lambda>y. f y \<le> f x) xs"
    (is "_ = ?ys")
proof (rule properties_for_sort_key)
  show "mset ?ys = mset (xs @ [x])"
    by simp (metis mset_append takeWhile_dropWhile_id)
  have above: "f x < f y" if "y \<in> set (dropWhile (\<lambda>y. f y \<le> f x) xs)" for y
    using that assms
  proof (induction xs)
    case (Cons z zs)
    show ?case
    proof (cases "f z \<le> f x")
      case True
      with Cons show ?thesis by simp
    next
      case False
      with Cons.prems have "y = z \<or> f z \<le> f y" by auto
      with False show ?thesis by auto
    qed
  qed simp
  show "filter (\<lambda>y. f k = f y) ?ys = filter (\<lambda>y. f k = f y) (xs @ [x])" for k
  proof (cases "f k = f x")
    case True
    then have "filter (\<lambda>y. f k = f y) (dropWhile (\<lambda>y. f y \<le> f x) xs) = []"
      by (auto simp: filter_empty_conv dest!: above)
    moreover have "filter (\<lambda>y. f k = f y) xs =
        filter (\<lambda>y. f k = f y) (takeWhile (\<lambda>y. f y \<le> f x) xs)
        @ filter (\<lambda>y. f k = f y) (dropWhile (\<lambda>y. f y \<le> f x) xs)"
      by (metis filter_append takeWhile_dropWhile_id)
    ultimately show ?thesis using True by simp
  next
    case False
    have "filter (\<lambda>y. f k = f y) xs =
        filter (\<lambda>y. f k = f y) (takeWhile (\<lambda>y. f y \<le> f x) xs)
        @ filter (\<lambda>y. f k = f y) (dropWhile (\<lambda>y. f y \<le> f x) xs)"
      by (metis filter_append takeWhile_dropWhile_id)
    with False show ?thesis by simp
  qed
  have "sorted (map f (takeWhile (\<lambda>y. f y \<le> f x) xs))"
    using assms by (metis sorted_append map_append takeWhile_dropWhile_id)
  moreover have "sorted (map f (dropWhile (\<lambda>y. f y \<le> f x) xs))"
    using assms by (metis sorted_append map_append takeWhile_dropWhile_id)
  ultimately show "sorted (map f ?ys)"
    using above by (force simp: sorted_append dest: set_takeWhileD intro: less_imp_le)
qed

lemma sorted_map_remove_nth:
  fixes f :: "'a \<Rightarrow> 'b::linorder"
  assumes "sorted (map f xs)"
  shows "sorted (map f (take i xs @ drop (Suc i) xs))"
proof (cases "i < length xs")
  case True
  then have "xs = take i xs @ xs ! i # drop (Suc i) xs"
    by (rule id_take_nth_drop)
  with assms have "sorted (map f (take i xs @ xs ! i # drop (Suc i) xs))"
    by simp
  then show ?thesis
    unfolding map_append list.map sorted_append by simp
next
  case False
  with assms show ?thesis by simp
qed

lemma sorted_map_dropWhile:
  fixes f :: "'a \<Rightarrow> 'b::linorder"
  assumes "sorted (map f xs)"
  shows "sorted (map f (dropWhile P xs))"
proof -
  have "sorted (map f (takeWhile P xs @ dropWhile P xs))"
    using assms by simp
  then show ?thesis
    unfolding map_append sorted_append by blast
qed

section \<open>Decimal printing\<close>

text \<open>\<^verbatim>\<open>fmt.Sprintf("%d", n)\<close> for a non-negative \<^verbatim>\<open>n\<close>; negative numbers carry a minus sign.\<close>

fun digits :: "nat \<Rightarrow> string" where
  "digits n = (if n < 10 then [char_of (48 + n)]
     else digits (n div 10) @ [char_of (48 + n mod 10)])"

declare digits.simps [simp del]

definition sprint_d :: "int \<Rightarrow> string" where
  "sprint_d n = (if n < 0 then CHR ''-'' # digits (nat (- n)) else digits (nat n))"

lemma digits_nonempty [simp]: "digits n \<noteq> []"
  by (subst digits.simps) simp

lemma char_of_inj_small: "m < 256 \<Longrightarrow> n < 256 \<Longrightarrow> char_of m = char_of (n :: nat) \<Longrightarrow> m = n"
  by (metis of_char_of mod_less)

lemma digits_inject [simp]: "digits m = digits n \<longleftrightarrow> m = n"
proof
  show "digits m = digits n \<Longrightarrow> m = n"
  proof (induction m arbitrary: n rule: digits.induct)
    case (1 m)
    show ?case
    proof (cases "m < 10")
      case True
      have "n < 10"
      proof (rule ccontr)
        assume "\<not> n < 10"
        with True "1.prems" show False
          using digits_nonempty [of "n div 10"]
          by (auto simp: digits.simps [of m] digits.simps [of n] simp del: digits_nonempty)
      qed
      with True "1.prems" show ?thesis
        by (auto simp: digits.simps [of m] digits.simps [of n] dest!: char_of_inj_small)
    next
      case False
      have "\<not> n < 10"
      proof
        assume "n < 10"
        with False "1.prems" show False
          by (simp add: digits.simps [of m] digits.simps [of n])
      qed
      with False "1.prems" have "digits (m div 10) = digits (n div 10)"
        and "char_of (48 + m mod 10) = char_of (48 + n mod 10)"
        by (simp_all add: digits.simps [of m] digits.simps [of n])
      with False "1.IH" have "m div 10 = n div 10" and "m mod 10 = n mod 10"
        by (auto dest!: char_of_inj_small)
      then show ?thesis by (metis div_mult_mod_eq)
    qed
  qed
qed simp

lemma digits_chars: "c \<in> set (digits n) \<Longrightarrow> \<exists>d<10. c = char_of (48 + d :: nat)"
proof (induction n rule: digits.induct)
  case (1 n)
  show ?case
  proof (cases "n < 10")
    case True
    with "1.prems" show ?thesis by (auto simp: digits.simps [of n])
  next
    case False
    with "1.prems" consider "c \<in> set (digits (n div 10))" | "c = char_of (48 + n mod 10)"
      by (auto simp: digits.simps [of n])
    then show ?thesis
    proof cases
      case 1
      with False "1.IH" show ?thesis by blast
    next
      case 2
      moreover have "n mod 10 < 10" by simp
      ultimately show ?thesis by blast
    qed
  qed
qed

lemma digits_no_minus: "digits n \<noteq> CHR ''-'' # s"
proof
  assume "digits n = CHR ''-'' # s"
  then have "CHR ''-'' \<in> set (digits n)" by simp
  then obtain d :: nat where "d < 10" and "CHR ''-'' = char_of (48 + d)"
    using digits_chars by blast
  then have "of_char CHR ''-'' = (48 + d) mod 256" by simp
  with \<open>d < 10\<close> show False by simp
qed

lemma sprint_d_inject [simp]: "sprint_d m = sprint_d n \<longleftrightarrow> m = n"
  by (auto simp: sprint_d_def digits_no_minus digits_no_minus [symmetric])

end
