(* ===== verification/GoJSON.thy ===== *)
theory GoJSON
  imports Prelude
begin

text \<open>
  The part of Go's \<^verbatim>\<open>encoding/json\<close> the services use. A JSON text is modelled by its value tree; a
  text that is not well-formed JSON (or empty) is \<^const>\<open>None\<close> of type \<open>raw\<close>. \<open>JTime\<close> stands for the
  RFC 3339 string a \<^verbatim>\<open>time.Time\<close> marshals to, \<open>JFloat\<close> for a numeric literal that is no integer.

  Unmarshalling into a struct follows the library: an absent key and a \<^verbatim>\<open>null\<close> leave the zero
  value, the last occurrence of a key wins, a value of the wrong type or an integer out of range is
  an error, and \<^verbatim>\<open>null\<close> in place of the object is accepted and leaves every field zero. Keys are
  compared exactly (the library's fallback to case-insensitive keys is not modelled).
\<close>

datatype json =
    JNull
  | JBool bool
  | JNum int
  | JFloat string
  | JStr string
  | JTime int
  | JArr "json list"
  | JObj "(string \<times> json) list"

type_synonym raw = "json option"
type_synonym members = "(string \<times> json) list"

definition unmarshalObj :: "raw \<Rightarrow> members option" where
  "unmarshalObj r = (case r of
       Some (JObj fs) \<Rightarrow> Some fs
     | Some JNull \<Rightarrow> Some []
     | _ \<Rightarrow> None)"

text \<open>One struct field: fold over the members, keeping the last value stored under the key.\<close>

fun field :: "(json \<Rightarrow> 'a \<Rightarrow> 'a option) \<Rightarrow> string \<Rightarrow> members \<Rightarrow> 'a \<Rightarrow> 'a option" where
  "field dec k [] a = Some a"
| "field dec k ((k', v) # fs) a =
     (if k' = k then (case dec v a of None \<Rightarrow> None | Some b \<Rightarrow> field dec k fs b)
      else field dec k fs a)"

fun decStr :: "json \<Rightarrow> string \<Rightarrow> string option" where
  "decStr (JStr s) _ = Some s"
| "decStr JNull a = Some a"
| "decStr _ _ = None"

fun decInt :: "json \<Rightarrow> int \<Rightarrow> int option" where
  "decInt (JNum n) _ = (if int64 n then Some n else None)"
| "decInt JNull a = Some a"
| "decInt _ _ = None"

fun decUint :: "json \<Rightarrow> u64 \<Rightarrow> u64 option" where
  "decUint (JNum n) _ = (if 0 \<le> n \<and> n < 2 ^ 64 then Some (word_of_int n) else None)"
| "decUint JNull a = Some a"
| "decUint _ _ = None"

fun decTime :: "json \<Rightarrow> int \<Rightarrow> int option" where
  "decTime (JTime t) _ = Some t"
| "decTime JNull a = Some a"
| "decTime _ _ = None"

text \<open>A \<^verbatim>\<open>json.RawMessage\<close> field keeps the member's text, a literal \<^verbatim>\<open>null\<close> included.\<close>

fun decRaw :: "json \<Rightarrow> raw \<Rightarrow> raw option" where
  "decRaw v _ = Some (Some v)"

lemma unmarshalObj_simps [simp]:
  "unmarshalObj (Some (JObj fs)) = Some fs"
  "unmarshalObj (Some JNull) = Some []"
  "unmarshalObj None = None"
  by (simp_all add: unmarshalObj_def)

lemma field_absent: "k \<notin> fst ` set fs \<Longrightarrow> field dec k fs a = Some a"
  by (induction fs arbitrary: a) auto

lemma field_decInt_int64: "field decInt k fs a = Some n \<Longrightarrow> int64 a \<Longrightarrow> int64 n"
proof (induction fs arbitrary: a)
  case (Cons kv fs)
  obtain k' v where "kv = (k', v)" by fastforce
  with Cons show ?case by (cases v) (auto split: if_splits)
qed simp

end
