(* ===== verification/Types.thy ===== *)
theory Types
  imports GoJSON
begin

text \<open>
  The data model of \<^verbatim>\<open>internal/engine/types.go\<close>: constants, \<^verbatim>\<open>Balance\<close>, \<^verbatim>\<open>Position\<close>, \<^verbatim>\<open>Order\<close>,
  \<^verbatim>\<open>Trade\<close>, \<^verbatim>\<open>OrderBook\<close>, \<^verbatim>\<open>Market\<close> and the depth view, with the JSON form of orders and trades.
  A \<^verbatim>\<open>*Order\<close> is an address of the order store (\<open>ptr\<close>); the books and the order table share orders
  through it, as the pointers of the source do.
\<close>

section \<open>Constants\<close>

definition SideBuy :: string where [const_defs]: "SideBuy = ''BUY''"
definition SideSell :: string where [const_defs]: "SideSell = ''SELL''"
definition OutcomeYes :: string where [const_defs]: "OutcomeYes = ''YES''"
definition OutcomeNo :: string where [const_defs]: "OutcomeNo = ''NO''"
definition OrderTypeLimit :: string where [const_defs]: "OrderTypeLimit = ''LIMIT''"
definition OrderTypeMarket :: string where [const_defs]: "OrderTypeMarket = ''MARKET''"
definition StatusPending :: string where [const_defs]: "StatusPending = ''PENDING''"
definition StatusPartial :: string where [const_defs]: "StatusPartial = ''PARTIAL''"
definition StatusFilled :: string where [const_defs]: "StatusFilled = ''FILLED''"
definition StatusCanceled :: string where [const_defs]: "StatusCanceled = ''CANCELED''"
definition StatusRejected :: string where [const_defs]: "StatusRejected = ''REJECTED''"

definition PriceScale :: int where "PriceScale = 10000"
definition DefaultStartingBalance :: int where "DefaultStartingBalance = 100 * PriceScale"

lemma const_distinct [simp]:
  "SideBuy \<noteq> SideSell" "SideSell \<noteq> SideBuy"
  "OutcomeYes \<noteq> OutcomeNo" "OutcomeNo \<noteq> OutcomeYes"
  "OrderTypeLimit \<noteq> OrderTypeMarket" "OrderTypeMarket \<noteq> OrderTypeLimit"
  by (simp_all add: const_defs)

lemma status_distinct [simp]:
  "StatusPending \<noteq> StatusPartial" "StatusPartial \<noteq> StatusPending"
  "StatusPending \<noteq> StatusFilled" "StatusFilled \<noteq> StatusPending"
  "StatusPending \<noteq> StatusCanceled" "StatusCanceled \<noteq> StatusPending"
  "StatusPending \<noteq> StatusRejected" "StatusRejected \<noteq> StatusPending"
  "StatusPartial \<noteq> StatusFilled" "StatusFilled \<noteq> StatusPartial"
  "StatusPartial \<noteq> StatusCanceled" "StatusCanceled \<noteq> StatusPartial"
  "StatusPartial \<noteq> StatusRejected" "StatusRejected \<noteq> StatusPartial"
  "StatusFilled \<noteq> StatusCanceled" "StatusCanceled \<noteq> StatusFilled"
  "StatusFilled \<noteq> StatusRejected" "StatusRejected \<noteq> StatusFilled"
  "StatusCanceled \<noteq> StatusRejected" "StatusRejected \<noteq> StatusCanceled"
  by (simp_all add: const_defs)

section \<open>Structs\<close>

text \<open>\<^verbatim>\<open>Balance\<close> and \<^verbatim>\<open>Position\<close> have the same two fields and are one record type here.\<close>

record Balance =
  Available :: int
  Reserved :: int

type_synonym Position = Balance

record Order =
  ID :: string
  EventID :: string
  UserID :: string
  OrderType :: string
  Outcome :: string
  Side :: string
  Quantity :: int
  FilledQuantity :: int
  RemainingQuantity :: int
  Price :: int
  Status :: string
  LockedFunds :: int
  CreatedAt :: int

record Trade =
  tradeID :: string
  OrderID :: string
  MatchOrderID :: string
  tradeEventID :: string
  tradeOutcome :: string
  BuyerID :: string
  SellerID :: string
  TakerSide :: string
  tradeQuantity :: int
  tradePrice :: int
  tradeCreatedAt :: int

type_synonym ptr = nat

record OrderBook =
  Bids :: "ptr list"
  Asks :: "ptr list"

record Market =
  YES :: OrderBook
  NO :: OrderBook

definition NewMarket :: Market where
  "NewMarket = \<lparr>YES = \<lparr>Bids = [], Asks = []\<rparr>, NO = \<lparr>Bids = [], Asks = []\<rparr>\<rparr>"

definition Book :: "Market \<Rightarrow> string \<Rightarrow> OrderBook option" where
  "Book m outcome =
     (if outcome = OutcomeYes then Some (YES m)
      else if outcome = OutcomeNo then Some (NO m)
      else None)"

text \<open>Writing through the \<^verbatim>\<open>*OrderBook\<close> that \<^const>\<open>Book\<close> returned.\<close>

definition setBook :: "Market \<Rightarrow> string \<Rightarrow> OrderBook \<Rightarrow> Market" where
  "setBook m outcome b =
     (if outcome = OutcomeYes then m\<lparr>YES := b\<rparr>
      else if outcome = OutcomeNo then m\<lparr>NO := b\<rparr>
      else m)"

record OrderBookEntry =
  entryPrice :: int
  entryQuantity :: int
  entryTotal :: int
  entryOrderCount :: int

record DepthSide =
  depthBids :: "OrderBookEntry list"
  depthAsks :: "OrderBookEntry list"

record Depth =
  depthEventID :: string
  depthYes :: DepthSide
  depthNo :: DepthSide

lemma Book_setBook:
  "Book m oc = Some b \<Longrightarrow> Book (setBook m oc b') oc' = (if oc' = oc then Some b' else Book m oc')"
  by (auto simp: Book_def setBook_def split: if_splits)

lemma Book_Some_iff: "(\<exists>b. Book m oc = Some b) \<longleftrightarrow> oc \<in> {OutcomeYes, OutcomeNo}"
  by (auto simp: Book_def)

lemma Book_NewMarket [simp]: "Book NewMarket oc = Some b \<Longrightarrow> b = \<lparr>Bids = [], Asks = []\<rparr>"
  by (auto simp: Book_def NewMarket_def split: if_splits)

section \<open>JSON form\<close>

text \<open>\<^verbatim>\<open>LockedFunds\<close> carries the tag \<^verbatim>\<open>json:"-"\<close>: it is neither written nor read.\<close>

definition orderToJson :: "Order \<Rightarrow> json" where
  "orderToJson o' = JObj
    [(''id'', JStr (ID o')), (''eventId'', JStr (EventID o')), (''userId'', JStr (UserID o')),
     (''orderType'', JStr (OrderType o')), (''outcome'', JStr (Outcome o')), (''side'', JStr (Side o')),
     (''quantity'', JNum (Quantity o')), (''filledQuantity'', JNum (FilledQuantity o')),
     (''remainingQuantity'', JNum (RemainingQuantity o')), (''price'', JNum (Price o')),
     (''status'', JStr (Status o')), (''createdAt'', JTime (CreatedAt o'))]"

definition orderOfJson :: "raw \<Rightarrow> Order option" where
  "orderOfJson r = do {
     fs \<leftarrow> unmarshalObj r;
     i \<leftarrow> field decStr ''id'' fs []; ev \<leftarrow> field decStr ''eventId'' fs [];
     u \<leftarrow> field decStr ''userId'' fs []; ty \<leftarrow> field decStr ''orderType'' fs [];
     oc \<leftarrow> field decStr ''outcome'' fs []; sd \<leftarrow> field decStr ''side'' fs [];
     q \<leftarrow> field decInt ''quantity'' fs 0; fq \<leftarrow> field decInt ''filledQuantity'' fs 0;
     rq \<leftarrow> field decInt ''remainingQuantity'' fs 0; pr \<leftarrow> field decInt ''price'' fs 0;
     st \<leftarrow> field decStr ''status'' fs []; c \<leftarrow> field decTime ''createdAt'' fs 0;
     Some \<lparr>ID = i, EventID = ev, UserID = u, OrderType = ty, Outcome = oc, Side = sd,
           Quantity = q, FilledQuantity = fq, RemainingQuantity = rq, Price = pr,
           Status = st, LockedFunds = 0, CreatedAt = c\<rparr> }"

definition tradeToJson :: "Trade \<Rightarrow> json" where
  "tradeToJson t = JObj
    [(''id'', JStr (tradeID t)), (''orderId'', JStr (OrderID t)),
     (''matchOrderId'', JStr (MatchOrderID t)), (''eventId'', JStr (tradeEventID t)),
     (''outcome'', JStr (tradeOutcome t)), (''buyerId'', JStr (BuyerID t)),
     (''sellerId'', JStr (SellerID t)), (''takerSide'', JStr (TakerSide t)),
     (''quantity'', JNum (tradeQuantity t)), (''price'', JNum (tradePrice t)),
     (''createdAt'', JTime (tradeCreatedAt t))]"

definition tradeOfJson :: "raw \<Rightarrow> Trade option" where
  "tradeOfJson r = do {
     fs \<leftarrow> unmarshalObj r;
     i \<leftarrow> field decStr ''id'' fs []; oi \<leftarrow> field decStr ''orderId'' fs [];
     mi \<leftarrow> field decStr ''matchOrderId'' fs []; ev \<leftarrow> field decStr ''eventId'' fs [];
     oc \<leftarrow> field decStr ''outcome'' fs []; b \<leftarrow> field decStr ''buyerId'' fs [];
     s \<leftarrow> field decStr ''sellerId'' fs []; ts \<leftarrow> field decStr ''takerSide'' fs [];
     q \<leftarrow> field decInt ''quantity'' fs 0; pr \<leftarrow> field decInt ''price'' fs 0;
     c \<leftarrow> field decTime ''createdAt'' fs 0;
     Some \<lparr>tradeID = i, OrderID = oi, MatchOrderID = mi, tradeEventID = ev, tradeOutcome = oc,
           BuyerID = b, SellerID = s, TakerSide = ts, tradeQuantity = q, tradePrice = pr,
           tradeCreatedAt = c\<rparr> }"

lemma order_json_roundtrip:
  assumes "int64 (Quantity o')" "int64 (FilledQuantity o')" "int64 (RemainingQuantity o')"
    and "int64 (Price o')"
  shows "orderOfJson (Some (orderToJson o')) = Some (o'\<lparr>LockedFunds := 0\<rparr>)"
  using assms by (simp add: orderOfJson_def orderToJson_def)

lemma trade_json_roundtrip:
  assumes "int64 (tradeQuantity t)" "int64 (tradePrice t)"
  shows "tradeOfJson (Some (tradeToJson t)) = Some t"
  using assms by (simp add: tradeOfJson_def tradeToJson_def)

end
