(* ===== verification/Partition.thy ===== *)
theory Partition
  imports Prelude
begin

unbundle bit_operations_syntax

text \<open>
  \<^verbatim>\<open>internal/partition/router.go\<close>: which partition an event belongs to (FNV-1a of the event id,
  modulo the number of partitions) and the names of the streams, groups and keys of a partition.
\<close>

record Router =
  Partitions :: int
  StreamPrefix :: string

definition NewRouter :: "int \<Rightarrow> string \<Rightarrow> Router" where
  "NewRouter partitions streamPrefix =
     \<lparr>Partitions = (if partitions < 1 then 1 else partitions),
      StreamPrefix = (if streamPrefix = [] then ''commands'' else streamPrefix)\<rparr>"

text \<open>\<^verbatim>\<open>fnv.New64a\<close>: the offset basis, then xor with each byte and multiply by the prime.\<close>

definition hash64 :: "string \<Rightarrow> u64" where
  "hash64 s = foldl (\<lambda>h c. (h XOR word_of_nat (of_char c)) * 1099511628211)
     14695981039346656037 s"

definition Partition :: "Router \<Rightarrow> string \<Rightarrow> int" where
  "Partition r eventID = i64 (uint (hash64 eventID mod word_of_int (Partitions r)))"

definition Stream :: "Router \<Rightarrow> int \<Rightarrow> string" where
  "Stream r p = StreamPrefix r @ '':partition:'' @ sprint_d p"

definition StreamForEvent :: "Router \<Rightarrow> string \<Rightarrow> string" where
  "StreamForEvent r eventID = Stream r (Partition r eventID)"

definition Group :: "Router \<Rightarrow> int \<Rightarrow> string" where
  "Group r p = ''engines:p:'' @ sprint_d p"

definition SequenceKey :: "Router \<Rightarrow> int \<Rightarrow> string" where
  "SequenceKey r p = StreamPrefix r @ '':'' @ sprint_d p @ '':sequence''"

definition FencingKey :: "int \<Rightarrow> string" where
  "FencingKey p = ''engine:fencing:'' @ sprint_d p"

definition LeaseKey :: "int \<Rightarrow> string" where
  "LeaseKey p = ''engine:lease:'' @ sprint_d p"

text \<open>The loop \<^verbatim>\<open>for p := 0; p < r.Partitions; p++\<close> that appends to the result.\<close>

definition PartitionStreams :: "Router \<Rightarrow> string list" where
  "PartitionStreams r = map (\<lambda>p. Stream r (int p)) [0..<nat (Partitions r)]"

section \<open>Routing\<close>

lemma uint_mod_word_of_int:
  assumes "0 < n" and "n < 2 ^ 63"
  shows "uint (x mod word_of_int n :: u64) = uint x mod n"
proof -
  have "uint (word_of_int n :: u64) = n"
    using assms by (simp add: uint_word_of_int_eq take_bit_int_eq_self)
  then show ?thesis by (simp add: uint_mod)
qed

lemma Partition_eq:
  assumes "0 < Partitions r" and "Partitions r < 2 ^ 63"
  shows "Partition r ev = uint (hash64 ev) mod Partitions r"
proof -
  have "0 \<le> uint (hash64 ev) mod Partitions r" and "uint (hash64 ev) mod Partitions r < Partitions r"
    using assms by simp_all
  with assms have "int64 (uint (hash64 ev) mod Partitions r)"
    by (intro int64_nonneg) linarith+
  with assms show ?thesis
    by (simp add: Partition_def uint_mod_word_of_int)
qed

lemma Partition_range:
  assumes "0 < Partitions r" and "Partitions r < 2 ^ 63"
  shows "0 \<le> Partition r ev" and "Partition r ev < Partitions r"
  using assms by (simp_all add: Partition_eq)

lemma NewRouter_Partitions: "0 < Partitions (NewRouter n s)"
  by (simp add: NewRouter_def)

lemma Stream_inject [simp]: "Stream r p = Stream r q \<longleftrightarrow> p = q"
  by (simp add: Stream_def)

lemma Group_inject [simp]: "Group r p = Group r' q \<longleftrightarrow> p = q"
  by (simp add: Group_def)

lemma FencingKey_inject [simp]: "FencingKey p = FencingKey q \<longleftrightarrow> p = q"
  by (simp add: FencingKey_def)

lemma LeaseKey_inject [simp]: "LeaseKey p = LeaseKey q \<longleftrightarrow> p = q"
  by (simp add: LeaseKey_def)

lemma LeaseKey_FencingKey [simp]: "LeaseKey p \<noteq> FencingKey q"
  by (simp add: LeaseKey_def FencingKey_def)

lemma distinct_PartitionStreams: "distinct (PartitionStreams r)"
  by (simp add: PartitionStreams_def distinct_map inj_on_def)

lemma StreamForEvent_mem:
  assumes "0 < Partitions r" and "Partitions r < 2 ^ 63"
  shows "StreamForEvent r ev = PartitionStreams r ! nat (Partition r ev)"
    and "nat (Partition r ev) < length (PartitionStreams r)"
  using Partition_range [OF assms, of ev]
  by (simp_all add: StreamForEvent_def PartitionStreams_def)

end
