(* ===== verification/Events.thy ===== *)
theory Events
  imports GoJSON
begin

text \<open>
  \<^verbatim>\<open>internal/events/events.go\<close>: the envelope around every domain event, built by the engine and
  decoded by the DB worker and the WebSocket server. \<^verbatim>\<open>uuid.NewString\<close> and \<^verbatim>\<open>time.Now\<close> are
  arguments of \<open>NewEnvelope\<close>.
\<close>

definition EventStream :: string where [const_defs]: "EventStream = ''events:out''"
definition EventGroup :: string where [const_defs]: "EventGroup = ''db-workers''"
definition WSChannel :: string where [const_defs]: "WSChannel = ''ws:updates''"

definition EventTradeExecuted :: string where [const_defs]: "EventTradeExecuted = ''trade_executed''"
definition EventOrderCreated :: string where [const_defs]: "EventOrderCreated = ''order_created''"
definition EventOrderStatus :: string where [const_defs]: "EventOrderStatus = ''order_status''"
definition EventOrderCanceled :: string where [const_defs]: "EventOrderCanceled = ''order_canceled''"
definition EventDepthUpdated :: string where [const_defs]: "EventDepthUpdated = ''depth_updated''"

lemma event_types_distinct [simp]:
  "EventTradeExecuted \<noteq> EventOrderCreated" "EventOrderCreated \<noteq> EventTradeExecuted"
  "EventTradeExecuted \<noteq> EventOrderCanceled" "EventOrderCanceled \<noteq> EventTradeExecuted"
  "EventOrderCreated \<noteq> EventOrderCanceled" "EventOrderCanceled \<noteq> EventOrderCreated"
  "EventTradeExecuted \<noteq> EventDepthUpdated" "EventDepthUpdated \<noteq> EventTradeExecuted"
  by (simp_all add: const_defs)

record EventEnvelope =
  envID :: string
  envType :: string
  PartitionID :: int
  FencingToken :: u64
  Sequence :: u64
  envCreatedAt :: int
  envData :: raw

definition NewEnvelope :: "string \<Rightarrow> int \<Rightarrow> string \<Rightarrow> json \<Rightarrow> int \<Rightarrow> u64 \<Rightarrow> u64 \<Rightarrow> EventEnvelope" where
  "NewEnvelope uuid now typ data partitionID fencingToken seq =
     \<lparr>envID = uuid, envType = typ, PartitionID = partitionID, FencingToken = fencingToken,
      Sequence = seq, envCreatedAt = now, envData = Some data\<rparr>"

text \<open>A \<^verbatim>\<open>nil\<close> raw message marshals as \<^verbatim>\<open>null\<close>.\<close>

definition envelopeToJson :: "EventEnvelope \<Rightarrow> json" where
  "envelopeToJson env = JObj
    [(''id'', JStr (envID env)), (''type'', JStr (envType env)),
     (''partitionId'', JNum (PartitionID env)),
     (''fencingToken'', JNum (uint (FencingToken env))),
     (''sequence'', JNum (uint (Sequence env))), (''createdAt'', JTime (envCreatedAt env)),
     (''data'', case envData env of None \<Rightarrow> JNull | Some d \<Rightarrow> d)]"

definition envelopeOfJson :: "raw \<Rightarrow> EventEnvelope option" where
  "envelopeOfJson r = do {
     fs \<leftarrow> unmarshalObj r;
     i \<leftarrow> field decStr ''id'' fs []; ty \<leftarrow> field decStr ''type'' fs [];
     p \<leftarrow> field decInt ''partitionId'' fs 0; tok \<leftarrow> field decUint ''fencingToken'' fs 0;
     sq \<leftarrow> field decUint ''sequence'' fs 0; c \<leftarrow> field decTime ''createdAt'' fs 0;
     d \<leftarrow> field decRaw ''data'' fs None;
     Some \<lparr>envID = i, envType = ty, PartitionID = p, FencingToken = tok, Sequence = sq,
           envCreatedAt = c, envData = d\<rparr> }"

lemma uint_u64_bounds [simp]: "0 \<le> uint (x :: u64)" "uint (x :: u64) < 18446744073709551616"
  using uint_lt2p [of x] by simp_all

lemma envelope_json_roundtrip:
  assumes "int64 (PartitionID env)" and "envData env = Some d"
  shows "envelopeOfJson (Some (envelopeToJson env)) = Some env"
  using assms by (simp add: envelopeOfJson_def envelopeToJson_def)

end
