(* ===== verification/Engine_State.thy ===== *)
theory Engine_State
  imports Types Partition Events
begin

text \<open>
  The state of \<^verbatim>\<open>internal/engine/engine.go\<close>'s \<^verbatim>\<open>Engine\<close>, its construction and its setters.

  Pointers. \<^verbatim>\<open>e.orders\<close> and the books hold \<^verbatim>\<open>*Order\<close>; an order is mutated through either. The
  model keeps the orders in a store \<open>heap\<close> (addresses below \<open>nextPtr\<close> are allocated) and lets the
  table and the books hold addresses. \<^verbatim>\<open>*Balance\<close>, \<^verbatim>\<open>*Position\<close>, \<^verbatim>\<open>*Market\<close> and \<^verbatim>\<open>*OrderBook\<close>
  have one owner each, the map entry, and are stored in it.

  Environment. Google's UUIDs, the clock and the outcome of every file and Redis call are a
  parameter \<open>World\<close>, indexed by the number \<open>tick\<close> of such calls made so far; so is the order in
  which a \<^verbatim>\<open>range\<close> loop visits a Go map, which the language leaves open (\<open>RangeLevels\<close>,
  \<open>RangeOrders\<close>). What Redis accepted is recorded in call order: \<open>xadds\<close> (stream name, message)
  and \<open>publishes\<close> (channel, message).

  Mutexes. \<^verbatim>\<open>e.mu\<close> makes each locked section of a handler atomic; the sections are separate
  definitions, composed by the handlers in \<open>Engine\<close> and interleaved in \<open>Interleaving\<close>.
\<close>

record World =
  NewString :: "nat \<Rightarrow> string"
  Now :: "nat \<Rightarrow> int"
  WriteErr :: "nat \<Rightarrow> bool"
  SyncErr :: "nat \<Rightarrow> bool"
  TruncateErr :: "nat \<Rightarrow> bool"
  XAddErr :: "nat \<Rightarrow> bool"
  PublishErr :: "nat \<Rightarrow> bool"
  RangeLevels :: "(int \<times> int \<times> int) list \<Rightarrow> (int \<times> int \<times> int) list"
  RangeOrders :: "(string \<rightharpoonup> ptr) \<Rightarrow> string list"

text \<open>The Prometheus counters of \<^verbatim>\<open>metric.go\<close> (histograms and gauges are not modelled).\<close>

record Metrics =
  OrdersProcessed :: nat
  OrdersAccepted :: nat
  OrdersRejected :: nat
  OrdersCanceled :: nat
  OrdersFilled :: nat
  TradesExecuted :: nat

definition NewMetrics :: Metrics where
  "NewMetrics = \<lparr>OrdersProcessed = 0, OrdersAccepted = 0, OrdersRejected = 0,
     OrdersCanceled = 0, OrdersFilled = 0, TradesExecuted = 0\<rparr>"

record Engine =
  markets :: "string \<rightharpoonup> Market"
  orders :: "string \<rightharpoonup> ptr"
  heap :: "ptr \<Rightarrow> Order"
  nextPtr :: nat
  balances :: "string \<rightharpoonup> Balance"
  positions :: "string \<rightharpoonup> Position"
  redisManager :: bool
  metrics :: Metrics
  engineID :: string
  leaseTTL :: int
  leaseRenewInterval :: int
  router :: Router
  partitionSeq :: "u64 list"
  partitionToken :: "int \<rightharpoonup> u64"
  partitions :: "int set"
  replaying :: "int set"
  eventStream :: string
  wsChannel :: string
  outbox :: "raw list option"
  xadds :: "(string \<times> json) list"
  publishes :: "(string \<times> json) list"
  tick :: nat

definition nilOrder :: Order where
  "nilOrder = \<lparr>ID = [], EventID = [], UserID = [], OrderType = [], Outcome = [], Side = [],
     Quantity = 0, FilledQuantity = 0, RemainingQuantity = 0, Price = 0, Status = [],
     LockedFunds = 0, CreatedAt = 0\<rparr>"

definition defaultLeaseTTL :: int where "defaultLeaseTTL = 15000"
definition defaultLeaseRenewInterval :: int where "defaultLeaseRenewInterval = 5000"

text \<open>
  \<^verbatim>\<open>newEngine\<close> refuses a \<^verbatim>\<open>nil\<close> Redis manager and an outbox file that cannot be opened; \<open>file\<close> is
  the content found in the file, durations are in milliseconds.
\<close>

datatype init_error = RedisManagerRequired | CreateOutboxDir | CreateOutbox

definition newEngine :: "bool \<Rightarrow> bool \<Rightarrow> raw list option \<Rightarrow> init_error + Engine" where
  "newEngine rm mkdirOk file =
     (if \<not> rm then Inl RedisManagerRequired
      else if \<not> mkdirOk then Inl CreateOutboxDir
      else case file of
        None \<Rightarrow> Inl CreateOutbox
      | Some lines \<Rightarrow> Inr
          \<lparr>markets = Map.empty, orders = Map.empty, heap = (\<lambda>_. nilOrder), nextPtr = 0,
           balances = Map.empty, positions = Map.empty, redisManager = True,
           metrics = NewMetrics, engineID = ''engine-0'', leaseTTL = defaultLeaseTTL,
           leaseRenewInterval = defaultLeaseRenewInterval, router = NewRouter 1 ''commands'',
           partitionSeq = [0], partitionToken = Map.empty, partitions = {}, replaying = {},
           eventStream = EventStream, wsChannel = WSChannel, outbox = Some lines,
           xadds = [], publishes = [], tick = 0\<rparr>)"

definition SetStreamNames :: "Engine \<Rightarrow> string \<Rightarrow> string \<Rightarrow> Engine" where
  "SetStreamNames e es ws =
     (let e = (if es \<noteq> [] then e\<lparr>eventStream := es\<rparr> else e)
      in if ws \<noteq> [] then e\<lparr>wsChannel := ws\<rparr> else e)"

text \<open>\<^verbatim>\<open>copy(seq, e.partitionSeq)\<close> keeps the counters that fit and leaves the others zero.\<close>

definition SetRouter :: "Engine \<Rightarrow> Router option \<Rightarrow> Engine" where
  "SetRouter e r = (case r of
       None \<Rightarrow> e
     | Some r \<Rightarrow>
         let n = nat (Partitions r) in
         e\<lparr>partitionSeq := take n (partitionSeq e) @ replicate (n - length (partitionSeq e)) 0,
           router := r\<rparr>)"

definition SetLeaseSettings :: "Engine \<Rightarrow> string \<Rightarrow> int \<Rightarrow> int \<Rightarrow> Engine" where
  "SetLeaseSettings e eid ttl renew =
     (let e = (if eid \<noteq> [] then e\<lparr>engineID := eid\<rparr> else e);
          e = (if ttl > 0 then e\<lparr>leaseTTL := ttl\<rparr> else e)
      in if renew > 0 then e\<lparr>leaseRenewInterval := renew\<rparr> else e)"

definition AddPartition :: "Engine \<Rightarrow> int \<Rightarrow> string + Engine" where
  "AddPartition e p =
     (if p < 0 \<or> Partitions (router e) \<le> p then Inl ''partition out of range''
      else if p \<in> partitions e then Inl ''partition already configured''
      else Inr (e\<lparr>partitions := insert p (partitions e)\<rparr>))"

definition isReplaying :: "Engine \<Rightarrow> int \<Rightarrow> bool" where
  "isReplaying e p \<longleftrightarrow> p \<in> replaying e"

definition OwnedPartitions :: "Engine \<Rightarrow> nat" where
  "OwnedPartitions e = card (dom (partitionToken e))"

text \<open>Writing through a \<^verbatim>\<open>*Order\<close>.\<close>

definition setOrder :: "Engine \<Rightarrow> ptr \<Rightarrow> (Order \<Rightarrow> Order) \<Rightarrow> Engine" where
  "setOrder e p f = e\<lparr>heap := (heap e)(p := f (heap e p))\<rparr>"

text \<open>The counters cover every registered partition: the slice index of an emit never panics.\<close>

definition seq_ok :: "Engine \<Rightarrow> bool" where
  "seq_ok e \<longleftrightarrow> int (length (partitionSeq e)) = max 0 (Partitions (router e))
     \<and> (\<forall>p\<in>partitions e. 0 \<le> p \<and> p < Partitions (router e))"

lemma seq_ok_newEngine: "newEngine rm mk file = Inr e \<Longrightarrow> seq_ok e"
  by (auto simp: newEngine_def seq_ok_def NewRouter_def split: if_splits option.splits)

lemma seq_ok_SetRouter: "partitions e = {} \<Longrightarrow> seq_ok (SetRouter e (Some r))"
  by (auto simp: SetRouter_def seq_ok_def Let_def)

lemma seq_ok_AddPartition: "seq_ok e \<Longrightarrow> AddPartition e p = Inr e' \<Longrightarrow> seq_ok e'"
  by (auto simp: AddPartition_def seq_ok_def split: if_splits)

lemma SetRouter_keeps_counters:
  "i < length (partitionSeq e) \<Longrightarrow> i < nat (Partitions r) \<Longrightarrow>
   partitionSeq (SetRouter e (Some r)) ! i = partitionSeq e ! i"
  by (simp add: SetRouter_def Let_def nth_append)

end
