(* ===== verification/Messages.thy ===== *)
theory Messages
  imports Engine_State
begin

text \<open>
  The messages between the API and the engine (\<^verbatim>\<open>pkg/redis/manager.go\<close>) and the engine's errors and
  response constructors (\<^verbatim>\<open>engine.go\<close>). Marshalling the values passed to \<^verbatim>\<open>successJSON\<close> cannot fail,
  so it always builds a successful response.
\<close>

record MessageToEngine =
  msgType :: string
  msgPayload :: raw

definition CreateOrderCommand :: string where [const_defs]: "CreateOrderCommand = ''CREATE_ORDER''"
definition CancelOrderCommand :: string where [const_defs]: "CancelOrderCommand = ''CANCEL_ORDER''"
definition GetDepthCommand :: string where [const_defs]: "GetDepthCommand = ''GET_DEPTH''"
definition GetOpenOrdersCommand :: string where [const_defs]: "GetOpenOrdersCommand = ''GET_OPEN_ORDERS''"
definition CreateEventCommand :: string where [const_defs]: "CreateEventCommand = ''CREATE_EVENT''"
definition UserCreatedCommand :: string where [const_defs]: "UserCreatedCommand = ''USER_CREATED''"

lemma command_distinct [simp]:
  "CreateOrderCommand \<noteq> CancelOrderCommand" "CreateOrderCommand \<noteq> GetDepthCommand"
  "CreateOrderCommand \<noteq> GetOpenOrdersCommand" "CreateOrderCommand \<noteq> CreateEventCommand"
  "CreateOrderCommand \<noteq> UserCreatedCommand" "CancelOrderCommand \<noteq> CreateOrderCommand"
  "CancelOrderCommand \<noteq> GetDepthCommand" "CancelOrderCommand \<noteq> GetOpenOrdersCommand"
  "CancelOrderCommand \<noteq> CreateEventCommand" "CancelOrderCommand \<noteq> UserCreatedCommand"
  "CreateEventCommand \<noteq> CreateOrderCommand" "CreateEventCommand \<noteq> CancelOrderCommand"
  "CreateEventCommand \<noteq> GetDepthCommand" "CreateEventCommand \<noteq> GetOpenOrdersCommand"
  "CreateEventCommand \<noteq> UserCreatedCommand" "UserCreatedCommand \<noteq> CreateOrderCommand"
  "UserCreatedCommand \<noteq> CancelOrderCommand" "UserCreatedCommand \<noteq> GetDepthCommand"
  "UserCreatedCommand \<noteq> GetOpenOrdersCommand" "UserCreatedCommand \<noteq> CreateEventCommand"
  "GetDepthCommand \<noteq> []" "CreateOrderCommand \<noteq> []" "CancelOrderCommand \<noteq> []"
  "GetOpenOrdersCommand \<noteq> []" "CreateEventCommand \<noteq> []" "UserCreatedCommand \<noteq> []"
  by (simp_all add: const_defs)

record CommandEnvelope =
  CommandID :: string
  cmdType :: string
  cmdEventID :: string
  RequestID :: string
  cmdSequence :: u64
  Timestamp :: int
  Payload :: raw

record EngineResponse =
  Success :: bool
  Error :: string
  respRequestID :: string
  Data :: raw

definition commandOfJson :: "raw \<Rightarrow> CommandEnvelope option" where
  "commandOfJson r = do {
     fs \<leftarrow> unmarshalObj r;
     i \<leftarrow> field decStr ''commandId'' fs []; ty \<leftarrow> field decStr ''type'' fs [];
     ev \<leftarrow> field decStr ''eventId'' fs []; rq \<leftarrow> field decStr ''requestId'' fs [];
     sq \<leftarrow> field decUint ''sequence'' fs 0; ts \<leftarrow> field decTime ''timestamp'' fs 0;
     pl \<leftarrow> field decRaw ''payload'' fs None;
     Some \<lparr>CommandID = i, cmdType = ty, cmdEventID = ev, RequestID = rq, cmdSequence = sq,
           Timestamp = ts, Payload = pl\<rparr> }"

text \<open>\<^verbatim>\<open>omitempty\<close> leaves out an empty event id and an empty request id.\<close>

definition commandToJson :: "CommandEnvelope \<Rightarrow> json" where
  "commandToJson c = JObj
    ([(''commandId'', JStr (CommandID c)), (''type'', JStr (cmdType c))]
     @ (if cmdEventID c = [] then [] else [(''eventId'', JStr (cmdEventID c))])
     @ (if RequestID c = [] then [] else [(''requestId'', JStr (RequestID c))])
     @ [(''sequence'', JNum (uint (cmdSequence c))), (''timestamp'', JTime (Timestamp c)),
        (''payload'', case Payload c of None \<Rightarrow> JNull | Some d \<Rightarrow> d)])"

lemma command_json_roundtrip:
  assumes "Payload c = Some d"
  shows "commandOfJson (Some (commandToJson c)) = Some c"
  using assms by (cases "cmdEventID c = []"; cases "RequestID c = []")
    (simp_all add: commandOfJson_def commandToJson_def)

definition failure :: "string \<Rightarrow> EngineResponse" where
  "failure message = \<lparr>Success = False, Error = message, respRequestID = [], Data = None\<rparr>"

definition successJSON :: "json \<Rightarrow> EngineResponse" where
  "successJSON v = \<lparr>Success = True, Error = [], respRequestID = [], Data = Some v\<rparr>"

lemma response_simps [simp]:
  "Success (successJSON v)" "\<not> Success (failure m)"
  "Data (successJSON v) = Some v" "Error (failure m) = m"
  by (simp_all add: successJSON_def failure_def)

lemma failure_neq_success [simp]: "failure m \<noteq> successJSON v" "successJSON v \<noteq> failure m"
  by (simp_all add: successJSON_def failure_def)

section \<open>Errors\<close>

definition ErrEventNotFound :: string where "ErrEventNotFound = ''event not found''"
definition ErrOrderNotFound :: string where "ErrOrderNotFound = ''order not found''"
definition ErrOrderNotCancelable :: string where "ErrOrderNotCancelable = ''order cannot be canceled''"
definition ErrInvalidOrder :: string where "ErrInvalidOrder = ''invalid order''"
definition ErrInsufficientFunds :: string where
  "ErrInsufficientFunds = ''insufficient balance for order''"
definition ErrInsufficientShares :: string where
  "ErrInsufficientShares = ''insufficient shares for order''"

end
