(* ===== verification/Ledger.thy ===== *)
theory Ledger
  imports Messages
begin

text \<open>
  \<^verbatim>\<open>internal/engine/ledger.go\<close>: user creation, the reservation an order makes before it enters the
  book, the settlement of a trade, and the release of what an order no longer needs. Arithmetic is
  \<^verbatim>\<open>int64\<close>: every sum, difference and product wraps.
\<close>

section \<open>Operations\<close>

definition emptyHolding :: Balance where
  "emptyHolding = \<lparr>Available = 0, Reserved = 0\<rparr>"

text \<open>The four ways the code changes a \<^verbatim>\<open>Balance\<close> or a \<^verbatim>\<open>Position\<close> in place.\<close>

definition clamp0 :: "int \<Rightarrow> int" where
  "clamp0 x = (if x < 0 then 0 else x)"

definition freeze :: "int \<Rightarrow> Balance \<Rightarrow> Balance" where
  "freeze n b = b\<lparr>Available := i64 (Available b - n), Reserved := i64 (Reserved b + n)\<rparr>"

definition spend :: "int \<Rightarrow> Balance \<Rightarrow> Balance" where
  "spend n b = b\<lparr>Reserved := clamp0 (i64 (Reserved b - n))\<rparr>"

definition credit :: "int \<Rightarrow> Balance \<Rightarrow> Balance" where
  "credit n b = b\<lparr>Available := i64 (Available b + n)\<rparr>"

definition unfreeze :: "int \<Rightarrow> Balance \<Rightarrow> Balance" where
  "unfreeze n b = credit n (spend n b)"

definition handleUserCreated :: "Engine \<Rightarrow> raw \<Rightarrow> Engine \<times> EngineResponse" where
  "handleUserCreated e payload =
     (case Option.bind (unmarshalObj payload) (\<lambda>fs. field decStr ''userId'' fs []) of
        None \<Rightarrow> (e, failure ''invalid payload'')
      | Some userID \<Rightarrow>
          if userID = [] then (e, failure ''userId is required'')
          else
            let e = (case balances e userID of
                None \<Rightarrow> e\<lparr>balances := (balances e)
                  (userID \<mapsto> \<lparr>Available = DefaultStartingBalance, Reserved = 0\<rparr>)\<rparr>
              | Some _ \<Rightarrow> e)
            in (e, successJSON (JObj [(''status'', JStr ''ok'')])))"

definition getOrCreateBalance :: "Engine \<Rightarrow> string \<Rightarrow> Engine \<times> Balance" where
  "getOrCreateBalance e userID =
     (case balances e userID of
        Some bal \<Rightarrow> (e, bal)
      | None \<Rightarrow> (e\<lparr>balances := (balances e)(userID \<mapsto> emptyHolding)\<rparr>, emptyHolding))"

definition positionKey :: "string \<Rightarrow> string \<Rightarrow> string \<Rightarrow> string" where
  "positionKey userID eventID outcome = userID @ '':'' @ eventID @ '':'' @ outcome"

definition getOrCreatePosition :: "Engine \<Rightarrow> string \<Rightarrow> string \<Rightarrow> string \<Rightarrow> Engine \<times> Position" where
  "getOrCreatePosition e userID eventID outcome =
     (let key = positionKey userID eventID outcome in
      case positions e key of
        Some pos \<Rightarrow> (e, pos)
      | None \<Rightarrow> (e\<lparr>positions := (positions e)(key \<mapsto> emptyHolding)\<rparr>, emptyHolding))"

text \<open>Writing through the returned \<^verbatim>\<open>*Balance\<close> or \<^verbatim>\<open>*Position\<close>.\<close>

definition onBalance :: "Engine \<Rightarrow> string \<Rightarrow> (Balance \<Rightarrow> Balance) \<Rightarrow> Engine" where
  "onBalance e userID f =
     (let (e, bal) = getOrCreateBalance e userID
      in e\<lparr>balances := (balances e)(userID \<mapsto> f bal)\<rparr>)"

definition onPosition :: "Engine \<Rightarrow> string \<Rightarrow> string \<Rightarrow> string \<Rightarrow> (Position \<Rightarrow> Position) \<Rightarrow> Engine" where
  "onPosition e userID eventID outcome f =
     (let (e, pos) = getOrCreatePosition e userID eventID outcome
      in e\<lparr>positions := (positions e)(positionKey userID eventID outcome \<mapsto> f pos)\<rparr>)"

text \<open>
  The order is not yet in the table when its liquidity is reserved, so it is passed by value and
  returned with its \<^verbatim>\<open>LockedFunds\<close>. The zeroed entry that a lookup creates stays on failure.
\<close>

definition reserveOrderLocked :: "Engine \<Rightarrow> Order \<Rightarrow> Engine \<times> (string + Order)" where
  "reserveOrderLocked e order =
     (if Side order = SideBuy then
        let (e, bal) = getOrCreateBalance e (UserID order);
            cost = (if OrderType order = OrderTypeMarket then Available bal
                    else i64 (RemainingQuantity order * Price order))
        in if cost > Available bal then (e, Inl ErrInsufficientFunds)
           else (onBalance e (UserID order) (freeze cost), Inr (order\<lparr>LockedFunds := cost\<rparr>))
      else
        let (e, pos) = getOrCreatePosition e (UserID order) (EventID order) (Outcome order)
        in if Available pos < RemainingQuantity order then (e, Inl ErrInsufficientShares)
           else (onPosition e (UserID order) (EventID order) (Outcome order)
                   (freeze (RemainingQuantity order)),
                 Inr (order\<lparr>LockedFunds := RemainingQuantity order\<rparr>)))"

definition settleLocked :: "int \<Rightarrow> Trade \<Rightarrow> Engine \<Rightarrow> string \<Rightarrow> Engine" where
  "settleLocked cost trade e orderID =
     (case orders e orderID of
        None \<Rightarrow> e
      | Some p \<Rightarrow> setOrder e p (\<lambda>order. order\<lparr>LockedFunds := clamp0 (i64 (LockedFunds order
          - (if Side order = SideBuy then cost else tradeQuantity trade)))\<rparr>))"

definition settleTradeLocked :: "Engine \<Rightarrow> Trade \<Rightarrow> Engine" where
  "settleTradeLocked e trade =
     (let cost = i64 (tradeQuantity trade * tradePrice trade);
          e = onBalance e (BuyerID trade) (spend cost);
          e = onPosition e (BuyerID trade) (tradeEventID trade) (tradeOutcome trade)
                (credit (tradeQuantity trade));
          e = onBalance e (SellerID trade) (credit cost);
          e = onPosition e (SellerID trade) (tradeEventID trade) (tradeOutcome trade)
                (spend (tradeQuantity trade))
      in foldl (settleLocked cost trade) e [OrderID trade, MatchOrderID trade])"

definition releaseOrderLocked :: "Engine \<Rightarrow> ptr \<Rightarrow> Engine" where
  "releaseOrderLocked e p =
     (let order = heap e p in
      if LockedFunds order \<le> 0 then e
      else
        let e = (if Side order = SideBuy
                 then onBalance e (UserID order) (unfreeze (LockedFunds order))
                 else onPosition e (UserID order) (EventID order) (Outcome order)
                        (unfreeze (LockedFunds order)))
        in setOrder e p (\<lambda>order. order\<lparr>LockedFunds := 0\<rparr>))"

definition GetBalances :: "Engine \<Rightarrow> string \<Rightarrow> int \<times> int \<times> bool" where
  "GetBalances e userID =
     (case balances e userID of
        None \<Rightarrow> (0, 0, False)
      | Some bal \<Rightarrow> (Available bal, Reserved bal, True))"

definition GetPosition :: "Engine \<Rightarrow> string \<Rightarrow> string \<Rightarrow> string \<Rightarrow> int \<times> int \<times> bool" where
  "GetPosition e userID eventID outcome =
     (case positions e (positionKey userID eventID outcome) of
        None \<Rightarrow> (0, 0, False)
      | Some pos \<Rightarrow> (Available pos, Reserved pos, True))"

end
