(* ===== verification/Emission.thy ===== *)
theory Emission
  imports Engine_State
begin

text \<open>
  Publishing of events: the outbox journal (\<^verbatim>\<open>internal/engine/outbox.go\<close>) and the emit cycle
  (\<^verbatim>\<open>emitEventP\<close>, \<^verbatim>\<open>publishTrade\<close> of \<^verbatim>\<open>engine.go\<close>). The journal is the list of lines of the file;
  a line that is no JSON text is \<^const>\<open>None\<close>. A result \<open>True\<close> is a non-nil error. Each definition that
  makes outside calls uses one tick of the environment for them.
\<close>

section \<open>The outbox\<close>

definition Append :: "World \<Rightarrow> nat \<Rightarrow> raw list \<Rightarrow> json \<Rightarrow> raw list \<times> bool" where
  "Append w t file line =
     (if WriteErr w t then (file, True) else (file @ [Some line], SyncErr w t))"

definition Reset :: "World \<Rightarrow> nat \<Rightarrow> raw list \<Rightarrow> raw list \<times> bool" where
  "Reset w t file = (if TruncateErr w t then (file, True) else ([], False))"

text \<open>
  \<^verbatim>\<open>publishEnvelope\<close>: append to the stream, then, when asked to, publish to the channel.
\<close>

definition publishEnvelope :: "World \<Rightarrow> Engine \<Rightarrow> json \<Rightarrow> bool \<Rightarrow> string \<Rightarrow> string \<Rightarrow> Engine \<times> bool" where
  "publishEnvelope w e envBytes broadcast stream channel =
     (let t = tick e; e = e\<lparr>tick := Suc t\<rparr> in
      if XAddErr w t then (e, True)
      else let e = e\<lparr>xadds := xadds e @ [(stream, envBytes)]\<rparr> in
        if broadcast then
          if PublishErr w t then (e, True)
          else (e\<lparr>publishes := publishes e @ [(channel, envBytes)]\<rparr>, False)
        else (e, False))"

text \<open>A line that does not decode as an envelope is skipped without an error.\<close>

definition republishEnvelope :: "World \<Rightarrow> Engine \<Rightarrow> raw \<Rightarrow> string \<Rightarrow> string \<Rightarrow> Engine \<times> bool" where
  "republishEnvelope w e line stream channel =
     (case envelopeOfJson line of
        None \<Rightarrow> (e, False)
      | Some env \<Rightarrow>
          publishEnvelope w e (envelopeToJson env) (envType env = EventTradeExecuted) stream channel)"

fun republishAll :: "World \<Rightarrow> Engine \<Rightarrow> raw list \<Rightarrow> string \<Rightarrow> string \<Rightarrow> Engine \<times> bool" where
  "republishAll w e [] stream channel = (e, False)"
| "republishAll w e (l # ls) stream channel =
     (let (e, err) = republishEnvelope w e l stream channel in
      if err then (e, True) else republishAll w e ls stream channel)"

text \<open>\<open>readErr\<close> is the outcome of reading the file; a missing file reads as no lines.\<close>

definition Recover :: "World \<Rightarrow> bool \<Rightarrow> Engine \<Rightarrow> string \<Rightarrow> string \<Rightarrow> Engine \<times> bool" where
  "Recover w readErr e stream channel =
     (if readErr then (e, True)
      else let lines = (case outbox e of None \<Rightarrow> [] | Some ls \<Rightarrow> ls) in
        if lines = [] then (e, False)
        else let (e, err) = republishAll w e lines stream channel in
          if err then (e, True)
          else let (file, err) = Reset w (tick e) lines in
            (e\<lparr>outbox := Some file, tick := Suc (tick e)\<rparr>, err))"

section \<open>The emit cycle\<close>

definition tokenOf :: "Engine \<Rightarrow> int \<Rightarrow> u64" where
  "tokenOf e p = (case partitionToken e p of None \<Rightarrow> 0 | Some tok \<Rightarrow> tok)"

definition emitEventP :: "World \<Rightarrow> Engine \<Rightarrow> int \<Rightarrow> string \<Rightarrow> json \<Rightarrow> bool \<Rightarrow> Engine \<times> bool" where
  "emitEventP w e p typ data broadcast =
     (if p \<in> replaying e then (e, False)
      else if \<not> redisManager e then (e, False)
      else
        let t = tick e;
            seq = partitionSeq e ! nat p + 1;
            envBytes = envelopeToJson
              (NewEnvelope (NewString w t) (Now w t) typ data p (tokenOf e p) seq);
            e = e\<lparr>partitionSeq := (partitionSeq e)[nat p := seq], tick := Suc t\<rparr>;
            (e, err) = (case outbox e of
                None \<Rightarrow> (e, False)
              | Some file \<Rightarrow>
                  let (file, err) = Append w t file envBytes in (e\<lparr>outbox := Some file\<rparr>, err))
        in if err then (e, True)
        else if XAddErr w t then (e, True)
        else let e = e\<lparr>xadds := xadds e @ [(eventStream e, envBytes)]\<rparr> in
          if broadcast \<and> PublishErr w t then (e, True)
          else
            let e = (if broadcast
                     then e\<lparr>publishes := publishes e @ [(wsChannel e, envBytes)]\<rparr> else e)
            in (case outbox e of
                  None \<Rightarrow> e
                | Some file \<Rightarrow> e\<lparr>outbox := Some (fst (Reset w t file))\<rparr>, False))"

definition publishTrade :: "World \<Rightarrow> Engine \<Rightarrow> int \<Rightarrow> Trade \<Rightarrow> Engine \<times> bool" where
  "publishTrade w e p trade = emitEventP w e p EventTradeExecuted (tradeToJson trade) True"

text \<open>Publishing touches the journal, the counters and the logs of what was sent, and nothing else.\<close>

lemma emitEventP_frame [simp]:
  "markets (fst (emitEventP w e p ty d b)) = markets e" "orders (fst (emitEventP w e p ty d b)) = orders e"
  "heap (fst (emitEventP w e p ty d b)) = heap e" "nextPtr (fst (emitEventP w e p ty d b)) = nextPtr e"
  "balances (fst (emitEventP w e p ty d b)) = balances e" "positions (fst (emitEventP w e p ty d b)) = positions e"
  "replaying (fst (emitEventP w e p ty d b)) = replaying e" "redisManager (fst (emitEventP w e p ty d b)) = redisManager e"
  "router (fst (emitEventP w e p ty d b)) = router e" "metrics (fst (emitEventP w e p ty d b)) = metrics e"
  "partitionToken (fst (emitEventP w e p ty d b)) = partitionToken e" "eventStream (fst (emitEventP w e p ty d b)) = eventStream e"
  "wsChannel (fst (emitEventP w e p ty d b)) = wsChannel e"
  "length (partitionSeq (fst (emitEventP w e p ty d b))) = length (partitionSeq e)"
  by (simp_all add: emitEventP_def Let_def case_prod_beta split: option.split)

lemma publishTrade_frame [simp]:
  "markets (fst (publishTrade w e p t)) = markets e" "orders (fst (publishTrade w e p t)) = orders e"
  "heap (fst (publishTrade w e p t)) = heap e" "nextPtr (fst (publishTrade w e p t)) = nextPtr e"
  "balances (fst (publishTrade w e p t)) = balances e" "positions (fst (publishTrade w e p t)) = positions e"
  "replaying (fst (publishTrade w e p t)) = replaying e"
  by (simp_all add: publishTrade_def)

end
