(* ===== verification/Matching.thy ===== *)
theory Matching
  imports Ledger Emission
begin

text \<open>
  The matching core of \<^verbatim>\<open>internal/engine/engine.go\<close>: books kept in price-time order, the search for
  a counterparty, the execution of one pair, the matching loop, and \<^verbatim>\<open>matchOrder\<close>, split into the
  section it runs under the engine mutex (\<open>matchOrderLocked\<close>) and the publishing that follows.
\<close>

section \<open>Book operations\<close>

definition canMatch :: "Order \<Rightarrow> Order \<Rightarrow> bool" where
  "canMatch incoming resting =
     (if Outcome incoming \<noteq> Outcome resting then False
      else if OrderType incoming = OrderTypeMarket then True
      else if Side incoming = SideBuy then Price resting \<le> Price incoming
      else if Side incoming = SideSell then Price resting \<ge> Price incoming
      else False)"

text \<open>The loop returns an index or \<^verbatim>\<open>-1\<close>; \<^const>\<open>None\<close> is the \<^verbatim>\<open>-1\<close>.\<close>

fun findCounterparty :: "Engine \<Rightarrow> ptr list \<Rightarrow> ptr \<Rightarrow> nat option" where
  "findCounterparty e [] incoming = None"
| "findCounterparty e (r # rs) incoming =
     (let resting = heap e r in
      if Status resting = StatusFilled \<or> Status resting = StatusCanceled
         \<or> Status resting = StatusRejected \<or> RemainingQuantity resting \<le> 0
      then map_option Suc (findCounterparty e rs incoming)
      else if UserID resting = UserID (heap e incoming)
      then map_option Suc (findCounterparty e rs incoming)
      else if canMatch (heap e incoming) resting then Some 0
      else map_option Suc (findCounterparty e rs incoming))"

definition invalidFront :: "Engine \<Rightarrow> ptr \<Rightarrow> bool" where
  "invalidFront e r \<longleftrightarrow> Status (heap e r) = StatusFilled \<or> Status (heap e r) = StatusCanceled
     \<or> RemainingQuantity (heap e r) \<le> 0"

definition removeInvalidBids :: "Engine \<Rightarrow> OrderBook \<Rightarrow> OrderBook" where
  "removeInvalidBids e book = book\<lparr>Bids := dropWhile (invalidFront e) (Bids book)\<rparr>"

definition removeInvalidAsks :: "Engine \<Rightarrow> OrderBook \<Rightarrow> OrderBook" where
  "removeInvalidAsks e book = book\<lparr>Asks := dropWhile (invalidFront e) (Asks book)\<rparr>"

text \<open>\<^verbatim>\<open>copy(items[idx:], items[idx+1:])\<close>, then drop the last slot.\<close>

definition removeOrderIndex :: "ptr list \<Rightarrow> nat \<Rightarrow> ptr list" where
  "removeOrderIndex items idx = take idx items @ drop (Suc idx) items"

fun removeOrderFromSlice :: "Engine \<Rightarrow> ptr list \<Rightarrow> string \<Rightarrow> ptr list \<times> bool" where
  "removeOrderFromSlice e [] orderID = ([], False)"
| "removeOrderFromSlice e (r # rs) orderID =
     (if ID (heap e r) \<noteq> orderID
      then (let (rs', found) = removeOrderFromSlice e rs orderID in (r # rs', found))
      else (rs, True))"

definition addToBook :: "Engine \<Rightarrow> OrderBook \<Rightarrow> ptr \<Rightarrow> OrderBook" where
  "addToBook e book p =
     (if Side (heap e p) = SideBuy
      then book\<lparr>Bids := sort_key (\<lambda>r. - Price (heap e r)) (Bids book @ [p])\<rparr>
      else book\<lparr>Asks := sort_key (\<lambda>r. Price (heap e r)) (Asks book @ [p])\<rparr>)"

section \<open>Executing one pair\<close>

definition buildTrade :: "World \<Rightarrow> nat \<Rightarrow> Order \<Rightarrow> Order \<Rightarrow> int \<Rightarrow> Trade" where
  "buildTrade w t taker maker quantity =
     \<lparr>tradeID = NewString w t, OrderID = ID taker, MatchOrderID = ID maker,
      tradeEventID = EventID taker, tradeOutcome = Outcome taker,
      BuyerID = (if Side taker = SideBuy then UserID taker else UserID maker),
      SellerID = (if Side taker = SideBuy then UserID maker else UserID taker),
      TakerSide = Side taker, tradeQuantity = quantity, tradePrice = Price maker,
      tradeCreatedAt = Now w t\<rparr>"

definition minInt64 :: "int \<Rightarrow> int \<Rightarrow> int" where
  "minInt64 a b = (if a < b then a else b)"

definition fill :: "int \<Rightarrow> Order \<Rightarrow> Order" where
  "fill q order = order\<lparr>RemainingQuantity := i64 (RemainingQuantity order - q),
     FilledQuantity := i64 (FilledQuantity order + q)\<rparr>"

definition executePair ::
    "World \<Rightarrow> Engine \<Rightarrow> ptr \<Rightarrow> ptr \<Rightarrow> ptr list \<Rightarrow> nat \<Rightarrow> Trade list
      \<Rightarrow> Engine \<times> ptr list \<times> Trade list" where
  "executePair w e incoming resting items idx trades =
     (let matchQuantity =
            minInt64 (RemainingQuantity (heap e incoming)) (RemainingQuantity (heap e resting))
      in if matchQuantity \<le> 0 then (e, items, trades)
      else
        let trade = buildTrade w (tick e) (heap e incoming) (heap e resting) matchQuantity;
            e = e\<lparr>tick := Suc (tick e)\<rparr>;
            e = setOrder e incoming (fill matchQuantity);
            e = setOrder e resting (fill matchQuantity)
        in if RemainingQuantity (heap e resting) \<le> 0
           then (setOrder e resting (\<lambda>r. r\<lparr>RemainingQuantity := 0, Status := StatusFilled\<rparr>),
                 removeOrderIndex items idx, trades @ [trade])
           else (setOrder e resting (\<lambda>r. r\<lparr>Status := StatusPartial\<rparr>), items, trades @ [trade]))"

lemma findCounterparty_SomeD:
  assumes "findCounterparty e rs p = Some i"
  shows "i < length rs" and "RemainingQuantity (heap e (rs ! i)) > 0"
    and "UserID (heap e (rs ! i)) \<noteq> UserID (heap e p)"
    and "canMatch (heap e p) (heap e (rs ! i))"
    and "Status (heap e (rs ! i)) \<notin> {StatusFilled, StatusCanceled, StatusRejected}"
  using assms
  by (induction rs arbitrary: i) (auto simp: Let_def split: if_splits)

text \<open>The loop makes progress: the remaining quantity of the incoming order strictly decreases.\<close>

lemma executePair_progress:
  assumes "RemainingQuantity (heap e p) > 0" and "RemainingQuantity (heap e r) > 0" and "r \<noteq> p"
    and "executePair w e p r items idx trades = (e', items', trades')"
  shows "RemainingQuantity (heap e' p) < RemainingQuantity (heap e p)"
proof -
  let ?q = "minInt64 (RemainingQuantity (heap e p)) (RemainingQuantity (heap e r))"
  have q: "0 < ?q" "?q \<le> RemainingQuantity (heap e p)"
    using assms by (auto simp: minInt64_def)
  have "heap e' p = fill ?q (heap e p)"
    using assms q by (auto simp: executePair_def Let_def setOrder_def split: if_splits)
  moreover have "i64 (RemainingQuantity (heap e p) - ?q) \<le> RemainingQuantity (heap e p) - ?q"
    by (rule i64_le) (use q in simp)
  ultimately show ?thesis using q by (simp add: fill_def)
qed

section \<open>The matching loop\<close>

function matchAgainstBook ::
    "World \<Rightarrow> Engine \<Rightarrow> OrderBook \<Rightarrow> ptr \<Rightarrow> Trade list \<Rightarrow> Engine \<times> OrderBook \<times> Trade list" where
  "matchAgainstBook w e book incoming trades =
     (if RemainingQuantity (heap e incoming) > 0 then
        if Side (heap e incoming) = SideBuy then
          let book = removeInvalidAsks e book in
          if Asks book = [] then (e, book, trades)
          else case findCounterparty e (Asks book) incoming of
            None \<Rightarrow> (e, book, trades)
          | Some idx \<Rightarrow>
              (case executePair w e incoming (Asks book ! idx) (Asks book) idx trades of
                 (e, asks, trades) \<Rightarrow>
                   matchAgainstBook w e (book\<lparr>Asks := asks\<rparr>) incoming trades)
        else
          let book = removeInvalidBids e book in
          if Bids book = [] then (e, book, trades)
          else case findCounterparty e (Bids book) incoming of
            None \<Rightarrow> (e, book, trades)
          | Some idx \<Rightarrow>
              (case executePair w e incoming (Bids book ! idx) (Bids book) idx trades of
                 (e, bids, trades) \<Rightarrow>
                   matchAgainstBook w e (book\<lparr>Bids := bids\<rparr>) incoming trades)
      else (e, book, trades))"
  by pat_completeness auto
termination
proof (relation "measure (\<lambda>(w, e, book, incoming, trades). nat (RemainingQuantity (heap e incoming)))",
    goal_cases)
  case 1
  show ?case by simp
next
  case (2 w e book p trades b i e' z items' trades')
  from findCounterparty_SomeD [OF 2(5)] have "Asks b ! i \<noteq> p" "RemainingQuantity (heap e (Asks b ! i)) > 0"
    by auto
  with 2 executePair_progress [of e p "Asks b ! i" w "Asks b" i trades e' items' trades'] show ?case
    by simp
next
  case (3 w e book p trades b i e' z items' trades')
  from findCounterparty_SomeD [OF 3(5)] have "Bids b ! i \<noteq> p" "RemainingQuantity (heap e (Bids b ! i)) > 0"
    by auto
  with 3 executePair_progress [of e p "Bids b ! i" w "Bids b" i trades e' items' trades'] show ?case
    by simp
qed

declare matchAgainstBook.simps [simp del]

section \<open>Matching an order\<close>

definition setStatus :: "Engine \<Rightarrow> ptr \<Rightarrow> string \<Rightarrow> Engine" where
  "setStatus e p s = setOrder e p (\<lambda>order. order\<lparr>Status := s\<rparr>)"

text \<open>The fate of the incoming order once the loop has stopped.\<close>

definition restOrFinish :: "Engine \<Rightarrow> OrderBook \<Rightarrow> ptr \<Rightarrow> Engine \<times> OrderBook" where
  "restOrFinish e book p =
     (let order = heap e p in
      if RemainingQuantity order = 0 then (setStatus e p StatusFilled, book)
      else if FilledQuantity order > 0 then
        if OrderType order = OrderTypeLimit
        then (let e = setStatus e p StatusPartial in (e, addToBook e book p))
        else (setStatus e p StatusCanceled, book)
      else if OrderType order = OrderTypeMarket
      then (setStatus e p StatusCanceled, book)
      else (let e = setStatus e p StatusPending in (e, addToBook e book p)))"

text \<open>\<^const>\<open>None\<close> is the early \<^verbatim>\<open>return nil\<close> before any matching.\<close>

definition matchOrderLocked :: "World \<Rightarrow> Engine \<Rightarrow> ptr \<Rightarrow> Engine \<times> Trade list option" where
  "matchOrderLocked w e p =
     (if Status (heap e p) = StatusCanceled then (e, None)
      else case markets e (EventID (heap e p)) of
        None \<Rightarrow> (setStatus e p StatusRejected, None)
      | Some market \<Rightarrow>
          (case Book market (Outcome (heap e p)) of
             None \<Rightarrow> (setStatus e p StatusRejected, None)
           | Some book \<Rightarrow>
               let (e, book, trades) = matchAgainstBook w e book p [];
                   (e, book) = restOrFinish e book p;
                   e = e\<lparr>markets := (markets e)
                         (EventID (heap e p) \<mapsto> setBook market (Outcome (heap e p)) book)\<rparr>;
                   e = foldl settleTradeLocked e trades;
                   e = (if Status (heap e p) = StatusFilled \<or> Status (heap e p) = StatusCanceled
                        then releaseOrderLocked e p else e)
               in (e, Some trades)))"

definition reportTrade :: "World \<Rightarrow> int \<Rightarrow> Engine \<Rightarrow> Trade \<Rightarrow> Engine" where
  "reportTrade w partitionID e trade =
     fst (publishTrade w
       (e\<lparr>metrics := (metrics e)\<lparr>TradesExecuted := Suc (TradesExecuted (metrics e))\<rparr>\<rparr>)
       partitionID trade)"

definition matchOrder :: "World \<Rightarrow> Engine \<Rightarrow> ptr \<Rightarrow> int \<Rightarrow> Engine \<times> Trade list" where
  "matchOrder w e p partitionID =
     (case matchOrderLocked w e p of
        (e, None) \<Rightarrow> (e, [])
      | (e, Some trades) \<Rightarrow>
          if partitionID \<in> replaying e then (e, trades)
          else
            let e = (if Status (heap e p) = StatusFilled
                     then e\<lparr>metrics := (metrics e)\<lparr>OrdersFilled := Suc (OrdersFilled (metrics e))\<rparr>\<rparr>
                     else e)
            in (foldl (reportTrade w partitionID) e trades, trades))"

end
