(* ===== verification/Book_Side.thy ===== *)
theory Book_Side
  imports Matching
begin

text \<open>
  Price-time priority. The two sides of a book are one interface, \<open>book_side\<close>: a list of resting
  orders, a key that grows with falling priority (the negated price for bids, the price for asks),
  insertion by \<^const>\<open>addToBook\<close>, and the fact that an order which crosses some resting order crosses
  every better-priced one. The lemmas are proved once from it and hold of \<^const>\<open>Bids\<close> and
  \<^const>\<open>Asks\<close> by interpretation.
\<close>

section \<open>Counterparties\<close>

definition eligible :: "Engine \<Rightarrow> ptr \<Rightarrow> ptr \<Rightarrow> bool" where
  "eligible e p r \<longleftrightarrow>
     Status (heap e r) \<notin> {StatusFilled, StatusCanceled, StatusRejected}
     \<and> RemainingQuantity (heap e r) > 0
     \<and> UserID (heap e r) \<noteq> UserID (heap e p)
     \<and> canMatch (heap e p) (heap e r)"

lemma findCounterparty_Cons:
  "findCounterparty e (r # rs) p =
     (if eligible e p r then Some 0 else map_option Suc (findCounterparty e rs p))"
  by (auto simp: eligible_def Let_def)

lemma findCounterparty_None_iff: "findCounterparty e rs p = None \<longleftrightarrow> (\<forall>r\<in>set rs. \<not> eligible e p r)"
  by (induction rs) (auto simp: findCounterparty_Cons simp del: findCounterparty.simps(2))

lemma findCounterparty_Some_iff:
  "findCounterparty e rs p = Some i \<longleftrightarrow>
     i < length rs \<and> eligible e p (rs ! i) \<and> (\<forall>j<i. \<not> eligible e p (rs ! j))"
proof (induction rs arbitrary: i)
  case Nil
  then show ?case by simp
next
  case (Cons r rs)
  show ?case
  proof (cases i)
    case 0
    then show ?thesis
      by (auto simp: findCounterparty_Cons simp del: findCounterparty.simps(2))
  next
    case (Suc j)
    have "findCounterparty e (r # rs) p = Some i \<longleftrightarrow>
        \<not> eligible e p r \<and> findCounterparty e rs p = Some j"
      using Suc by (auto simp: findCounterparty_Cons simp del: findCounterparty.simps(2))
    also have "\<dots> \<longleftrightarrow> i < length (r # rs) \<and> eligible e p ((r # rs) ! i)
        \<and> (\<forall>j<i. \<not> eligible e p ((r # rs) ! j))"
      using Suc by (auto simp: Cons.IH All_less_Suc2)
    finally show ?thesis .
  qed
qed

lemma eligible_not_self: "eligible e p r \<Longrightarrow> r \<noteq> p"
  by (auto simp: eligible_def)

text \<open>What a front cleaned by the loop cannot hide: every removed order was not eligible.\<close>

lemma invalidFront_not_eligible: "invalidFront e r \<Longrightarrow> \<not> eligible e p r"
  by (auto simp: invalidFront_def eligible_def)

section \<open>The interface of a book side\<close>

locale book_side =
  fixes side :: "OrderBook \<Rightarrow> ptr list"
    and put :: "ptr list \<Rightarrow> OrderBook \<Rightarrow> OrderBook"
    and key :: "Order \<Rightarrow> int"
    and restingSide :: string
  assumes side_put: "side (put xs b) = xs"
    and add: "Side (heap e p) = restingSide \<Longrightarrow>
      addToBook e b p = put (sort_key (\<lambda>r. key (heap e r)) (side b @ [p])) b"
    and crossing_mono: "Side inc \<noteq> restingSide \<Longrightarrow> Side inc \<in> {SideBuy, SideSell} \<Longrightarrow>
      canMatch inc r \<Longrightarrow> Outcome r' = Outcome r \<Longrightarrow> key r' \<le> key r \<Longrightarrow> canMatch inc r'"
begin

definition in_order :: "Engine \<Rightarrow> ptr list \<Rightarrow> bool" where
  "in_order e rs \<longleftrightarrow> sorted (map (\<lambda>r. key (heap e r)) rs)"

lemma add_position:
  assumes "in_order e (side b)" and "Side (heap e p) = restingSide"
  shows "side (addToBook e b p) =
    takeWhile (\<lambda>r. key (heap e r) \<le> key (heap e p)) (side b) @ p #
    dropWhile (\<lambda>r. key (heap e r) \<le> key (heap e p)) (side b)"
  using assms by (simp add: add side_put sort_key_snoc in_order_def)

lemma add_in_order: "Side (heap e p) = restingSide \<Longrightarrow> in_order e (side (addToBook e b p))"
  by (simp add: add side_put in_order_def)

lemma add_mset: "Side (heap e p) = restingSide \<Longrightarrow> mset (side (addToBook e b p)) = mset (p # side b)"
  by (simp add: add side_put)

lemma prune_in_order: "in_order e rs \<Longrightarrow> in_order e (dropWhile P rs)"
  unfolding in_order_def by (rule sorted_map_dropWhile)

lemma remove_in_order: "in_order e rs \<Longrightarrow> in_order e (removeOrderIndex rs i)"
  unfolding in_order_def removeOrderIndex_def by (rule sorted_map_remove_nth)

text \<open>
  The counterparty found is the best: any other order the incoming one could trade with comes later
  in time at the same price or has a worse price.
\<close>

lemma best_counterparty:
  assumes "in_order e rs" and "findCounterparty e rs p = Some i"
    and "j < length rs" and "eligible e p (rs ! j)"
  shows "key (heap e (rs ! i)) < key (heap e (rs ! j))
    \<or> (key (heap e (rs ! i)) = key (heap e (rs ! j)) \<and> i \<le> j)"
proof -
  from assms(2,4) have "i \<le> j"
    unfolding findCounterparty_Some_iff by (meson not_le)
  with assms(1,3) have "key (heap e (rs ! i)) \<le> key (heap e (rs ! j))"
    using sorted_nth_mono [of "map (\<lambda>r. key (heap e r)) rs" i j] by (simp add: in_order_def)
  with \<open>i \<le> j\<close> show ?thesis by linarith
qed

text \<open>
  No better-priced order is passed over except for being the taker's own or dead: an order in front
  of the counterparty is of the same user or not live.
\<close>

lemma skipped_only_own_or_dead:
  assumes "in_order e rs" and "findCounterparty e rs p = Some i" and "j < i"
    and "Side (heap e p) \<noteq> restingSide" and "Side (heap e p) \<in> {SideBuy, SideSell}"
    and "Outcome (heap e (rs ! j)) = Outcome (heap e (rs ! i))"
  shows "UserID (heap e (rs ! j)) = UserID (heap e p) \<or> RemainingQuantity (heap e (rs ! j)) \<le> 0
    \<or> Status (heap e (rs ! j)) \<in> {StatusFilled, StatusCanceled, StatusRejected}"
proof -
  from assms(2,3) have el: "eligible e p (rs ! i)" and ne: "\<not> eligible e p (rs ! j)"
    and len: "i < length rs"
    by (auto simp: findCounterparty_Some_iff)
  from assms(1,3) len have "key (heap e (rs ! j)) \<le> key (heap e (rs ! i))"
    using sorted_nth_mono [of "map (\<lambda>r. key (heap e r)) rs" j i] by (simp add: in_order_def)
  with assms(4-6) el have "canMatch (heap e p) (heap e (rs ! j))"
    using crossing_mono [of "heap e p" "heap e (rs ! i)" "heap e (rs ! j)"]
    by (simp add: eligible_def)
  with ne show ?thesis by (auto simp: eligible_def)
qed

end

interpretation bids: book_side Bids "\<lambda>xs b. b\<lparr>Bids := xs\<rparr>" "\<lambda>x. - Price x" SideBuy
  by unfold_locales (simp_all add: addToBook_def canMatch_def split: if_splits)

interpretation asks: book_side Asks "\<lambda>xs b. b\<lparr>Asks := xs\<rparr>" Price SideSell
  by unfold_locales (simp_all add: addToBook_def canMatch_def split: if_splits)

end
