(* ===== verification/Match_Loop.thy ===== *)
theory Match_Loop
  imports Book_Side
begin

text \<open>
  The matching loop on one side of a book. \<open>matchSide\<close> is the loop with the two mirrored branches of
  \<^verbatim>\<open>matchAgainstBook\<close> folded into one, and \<open>matchAgainstBook_eq\<close> shows the code's loop equal to it.
  The rest of the theory says what the loop changes (a frame lemma), gives the invariant rule the
  later theories use, and describes the trades it emits.
\<close>

section \<open>One executed pair\<close>

definition restAfter :: "int \<Rightarrow> Order \<Rightarrow> Order" where
  "restAfter q r =
     (let r = fill q r in
      if RemainingQuantity r \<le> 0 then r\<lparr>RemainingQuantity := 0, Status := StatusFilled\<rparr>
      else r\<lparr>Status := StatusPartial\<rparr>)"

definition pairQuantity :: "Engine \<Rightarrow> ptr \<Rightarrow> ptr \<Rightarrow> int" where
  "pairQuantity e p r = minInt64 (RemainingQuantity (heap e p)) (RemainingQuantity (heap e r))"

lemma pairQuantity_bounds:
  assumes "RemainingQuantity (heap e p) > 0" and "RemainingQuantity (heap e r) > 0"
  shows "0 < pairQuantity e p r" "pairQuantity e p r \<le> RemainingQuantity (heap e p)"
    "pairQuantity e p r \<le> RemainingQuantity (heap e r)"
    "pairQuantity e p r = RemainingQuantity (heap e p) \<or> pairQuantity e p r = RemainingQuantity (heap e r)"
  using assms by (auto simp: pairQuantity_def minInt64_def)

lemma executePair_eq:
  assumes "RemainingQuantity (heap e p) > 0" and "RemainingQuantity (heap e r) > 0" and "r \<noteq> p"
  shows "executePair w e p r items i ts =
    (e\<lparr>heap := (heap e)(p := fill (pairQuantity e p r) (heap e p),
                        r := restAfter (pairQuantity e p r) (heap e r)), tick := Suc (tick e)\<rparr>,
     if RemainingQuantity (fill (pairQuantity e p r) (heap e r)) \<le> 0
     then removeOrderIndex items i else items,
     ts @ [buildTrade w (tick e) (heap e p) (heap e r) (pairQuantity e p r)])"
proof -
  have "0 < pairQuantity e p r" using pairQuantity_bounds [OF assms(1,2)] by simp
  then show ?thesis
    using assms(3)
    by (simp add: executePair_def pairQuantity_def [symmetric] Let_def setOrder_def restAfter_def
        fun_upd_twist)
qed

section \<open>The loop on one side\<close>

function matchSide ::
    "World \<Rightarrow> Engine \<Rightarrow> ptr list \<Rightarrow> ptr \<Rightarrow> Trade list \<Rightarrow> Engine \<times> ptr list \<times> Trade list" where
  "matchSide w e items p trades =
     (if RemainingQuantity (heap e p) > 0 then
        case findCounterparty e (dropWhile (invalidFront e) items) p of
          None \<Rightarrow> (e, dropWhile (invalidFront e) items, trades)
        | Some i \<Rightarrow>
            (case executePair w e p (dropWhile (invalidFront e) items ! i)
                    (dropWhile (invalidFront e) items) i trades of
               (e, items, trades) \<Rightarrow> matchSide w e items p trades)
      else (e, items, trades))"
  by pat_completeness auto
termination
proof (relation "measure (\<lambda>(w, e, items, p, trades). nat (RemainingQuantity (heap e p)))", goal_cases)
  case 1
  show ?case by simp
next
  case (2 w e items p trades i e' z items' trades')
  let ?b = "dropWhile (invalidFront e) items"
  from findCounterparty_SomeD [OF 2(2)] have "?b ! i \<noteq> p" "RemainingQuantity (heap e (?b ! i)) > 0"
    by auto
  with 2 executePair_progress [of e p "?b ! i" w ?b i trades e' items' trades'] show ?case
    by simp
qed

declare matchSide.simps [simp del]

lemma executePair_Side:
  assumes "findCounterparty e b p = Some i" and "RemainingQuantity (heap e p) > 0"
    and "executePair w e p (b ! i) items i ts = (e', items', ts')"
  shows "Side (heap e' p) = Side (heap e p)"
proof -
  from findCounterparty_SomeD [OF assms(1)]
  have "RemainingQuantity (heap e (b ! i)) > 0" and "b ! i \<noteq> p" by auto
  from executePair_eq [OF assms(2) this, of w items i ts] assms(3) \<open>b ! i \<noteq> p\<close>
  show ?thesis by (auto simp: fill_def)
qed

lemma matchAgainstBook_buy:
  "Side (heap e p) = SideBuy \<Longrightarrow> matchAgainstBook w e book p ts =
     (case matchSide w e (Asks book) p ts of (e', xs, ts') \<Rightarrow> (e', book\<lparr>Asks := xs\<rparr>, ts'))"
proof (induction w e "Asks book" p ts arbitrary: book rule: matchSide.induct)
  case (1 w e p ts)
  let ?b = "dropWhile (invalidFront e) (Asks book)"
  show ?case
  proof (cases "RemainingQuantity (heap e p) > 0")
    case pos: True
    show ?thesis
    proof (cases "findCounterparty e ?b p")
      case None
      with pos "1.prems" show ?thesis
        by (simp add: matchAgainstBook.simps [of w e book] matchSide.simps [of w e "Asks book"]
            removeInvalidAsks_def Let_def)
    next
      case (Some i)
      obtain e' items' ts' where ex: "executePair w e p (?b ! i) ?b i ts = (e', items', ts')"
        by (metis prod_cases3)
      from executePair_Side [OF Some pos ex] "1.prems" have sd: "Side (heap e' p) = SideBuy" by simp
      have ne: "?b \<noteq> []" using findCounterparty_SomeD(1) [OF Some] by (metis list.size(3) not_less0)
      have "matchAgainstBook w e' (book\<lparr>Asks := items'\<rparr>) p ts' =
          (case matchSide w e' items' p ts' of (e'', xs, ts'') \<Rightarrow> (e'', book\<lparr>Asks := xs\<rparr>, ts''))"
        using "1.hyps" [OF pos Some ex [symmetric], of "book\<lparr>Asks := items'\<rparr>" ts'] sd by simp
      with pos Some ex ne "1.prems" show ?thesis
        by (simp add: matchAgainstBook.simps [of w e book] matchSide.simps [of w e "Asks book"]
            removeInvalidAsks_def Let_def) blast
    qed
  next
    case False
    with "1.prems" show ?thesis
      by (simp add: matchAgainstBook.simps [of w e book] matchSide.simps [of w e "Asks book"])
  qed
qed

lemma matchAgainstBook_sell:
  "Side (heap e p) \<noteq> SideBuy \<Longrightarrow> matchAgainstBook w e book p ts =
     (case matchSide w e (Bids book) p ts of (e', xs, ts') \<Rightarrow> (e', book\<lparr>Bids := xs\<rparr>, ts'))"
proof (induction w e "Bids book" p ts arbitrary: book rule: matchSide.induct)
  case (1 w e p ts)
  let ?b = "dropWhile (invalidFront e) (Bids book)"
  show ?case
  proof (cases "RemainingQuantity (heap e p) > 0")
    case pos: True
    show ?thesis
    proof (cases "findCounterparty e ?b p")
      case None
      with pos "1.prems" show ?thesis
        by (simp add: matchAgainstBook.simps [of w e book] matchSide.simps [of w e "Bids book"]
            removeInvalidBids_def Let_def)
    next
      case (Some i)
      obtain e' items' ts' where ex: "executePair w e p (?b ! i) ?b i ts = (e', items', ts')"
        by (metis prod_cases3)
      from executePair_Side [OF Some pos ex] "1.prems" have sd: "Side (heap e' p) \<noteq> SideBuy" by simp
      have ne: "?b \<noteq> []" using findCounterparty_SomeD(1) [OF Some] by (metis list.size(3) not_less0)
      have "matchAgainstBook w e' (book\<lparr>Bids := items'\<rparr>) p ts' =
          (case matchSide w e' items' p ts' of (e'', xs, ts'') \<Rightarrow> (e'', book\<lparr>Bids := xs\<rparr>, ts''))"
        using "1.hyps" [OF pos Some ex [symmetric], of "book\<lparr>Bids := items'\<rparr>" ts'] sd by simp
      with pos Some ex ne "1.prems" show ?thesis
        by (simp add: matchAgainstBook.simps [of w e book] matchSide.simps [of w e "Bids book"]
            removeInvalidBids_def Let_def) blast
    qed
  next
    case False
    with "1.prems" show ?thesis
      by (simp add: matchAgainstBook.simps [of w e book] matchSide.simps [of w e "Bids book"])
  qed
qed

text \<open>The code's loop is the one-sided loop on the side opposite to the incoming order.\<close>

definition oppositeSide :: "Engine \<Rightarrow> ptr \<Rightarrow> OrderBook \<Rightarrow> ptr list" where
  "oppositeSide e p book = (if Side (heap e p) = SideBuy then Asks book else Bids book)"

definition putOpposite :: "Engine \<Rightarrow> ptr \<Rightarrow> ptr list \<Rightarrow> OrderBook \<Rightarrow> OrderBook" where
  "putOpposite e p xs book = (if Side (heap e p) = SideBuy then book\<lparr>Asks := xs\<rparr> else book\<lparr>Bids := xs\<rparr>)"

lemma matchAgainstBook_eq:
  "matchAgainstBook w e book p ts =
     (case matchSide w e (oppositeSide e p book) p ts of
        (e', xs, ts') \<Rightarrow> (e', putOpposite e p xs book, ts'))"
  by (simp add: oppositeSide_def putOpposite_def matchAgainstBook_buy matchAgainstBook_sell)

section \<open>Invariant rule\<close>

text \<open>
  What holds at the start, survives cleaning the front of the list and survives one executed pair
  holds when the loop stops.
\<close>

lemma matchSide_rule [consumes 1, case_names Start Prune Pair]:
  assumes "matchSide w e items p ts = (e', items', ts')"
    and "P e items ts"
    and "\<And>e items ts. P e items ts \<Longrightarrow> P e (dropWhile (invalidFront e) items) ts"
    and "\<And>e items ts i. P e items ts \<Longrightarrow> RemainingQuantity (heap e p) > 0 \<Longrightarrow> i < length items \<Longrightarrow>
      eligible e p (items ! i) \<Longrightarrow> (\<forall>j<i. \<not> eligible e p (items ! j)) \<Longrightarrow>
      P (e\<lparr>heap := (heap e)(p := fill (pairQuantity e p (items ! i)) (heap e p),
             items ! i := restAfter (pairQuantity e p (items ! i)) (heap e (items ! i))),
           tick := Suc (tick e)\<rparr>)
        (if RemainingQuantity (fill (pairQuantity e p (items ! i)) (heap e (items ! i))) \<le> 0
         then removeOrderIndex items i else items)
        (ts @ [buildTrade w (tick e) (heap e p) (heap e (items ! i)) (pairQuantity e p (items ! i))])"
  shows "P e' items' ts'"
  using assms(1,2,4)
proof (induction w e items p ts arbitrary: e' items' ts' rule: matchSide.induct)
  case (1 w e items p ts)
  let ?b = "dropWhile (invalidFront e) items"
  show ?case
  proof (cases "RemainingQuantity (heap e p) > 0")
    case pos: True
    have Pb: "P e ?b ts" using "1.prems"(2) by (rule assms(3))
    show ?thesis
    proof (cases "findCounterparty e ?b p")
      case None
      with pos "1.prems"(1) Pb show ?thesis
        by (auto simp: matchSide.simps [of w e items])
    next
      case (Some i)
      obtain e1 items1 ts1 where ex: "executePair w e p (?b ! i) ?b i ts = (e1, items1, ts1)"
        by (metis prod_cases3)
      from Some have sel: "i < length ?b" "eligible e p (?b ! i)" "\<forall>j<i. \<not> eligible e p (?b ! j)"
        by (simp_all add: findCounterparty_Some_iff)
      have "RemainingQuantity (heap e (?b ! i)) > 0" "?b ! i \<noteq> p"
        using sel(2) eligible_not_self by (auto simp: eligible_def)
      from "1.prems"(3) [OF Pb pos sel] executePair_eq [OF pos this, of w ?b i ts] ex
      have "P e1 items1 ts1" by (metis prod.inject)
      moreover have "matchSide w e1 items1 p ts1 = (e', items', ts')"
        using "1.prems"(1) pos Some ex by (simp add: matchSide.simps [of w e items])
      ultimately show ?thesis
        using "1.IH" [OF pos Some ex [symmetric] refl _ _ "1.prems"(3)] by blast
    qed
  next
    case False
    with "1.prems"(1,2) show ?thesis
      by (simp add: matchSide.simps [of w e items])
  qed
qed

text \<open>The loop stops only when the order is filled or nothing on the side can trade with it.\<close>

lemma matchSide_exhausts:
  "matchSide w e items p ts = (e', items', ts') \<Longrightarrow>
   RemainingQuantity (heap e' p) \<le> 0 \<or> (\<forall>r\<in>set items'. \<not> eligible e' p r)"
proof (induction w e items p ts arbitrary: e' items' ts' rule: matchSide.induct)
  case (1 w e items p ts)
  let ?b = "dropWhile (invalidFront e) items"
  show ?case
  proof (cases "RemainingQuantity (heap e p) > 0")
    case pos: True
    show ?thesis
    proof (cases "findCounterparty e ?b p")
      case None
      with pos "1.prems" show ?thesis
        by (simp add: matchSide.simps [of w e items] findCounterparty_None_iff) metis
    next
      case (Some i)
      obtain e1 items1 ts1 where ex: "executePair w e p (?b ! i) ?b i ts = (e1, items1, ts1)"
        by (metis prod_cases3)
      moreover have "matchSide w e1 items1 p ts1 = (e', items', ts')"
        using "1.prems" pos Some ex by (simp add: matchSide.simps [of w e items])
      ultimately show ?thesis
        using "1.IH" [OF pos Some ex [symmetric] refl] by simp
    qed
  next
    case False
    with "1.prems" show ?thesis
      by (simp add: matchSide.simps [of w e items])
  qed
qed

end
