(* ===== verification/Depth_View.thy ===== *)
theory Depth_View
  imports Matching
begin

text \<open>
  The read-only views of the engine: \<^verbatim>\<open>handleGetDepth\<close> with its per-price aggregation and
  \<^verbatim>\<open>handleGetOpenOrders\<close>. The Go map of price levels is an association list (price, quantity, count);
  the order in which the \<^verbatim>\<open>range\<close> loops visit a map is \<open>RangeLevels\<close> and \<open>RangeOrders\<close> of the world.
\<close>

section \<open>Operations\<close>

fun addLevel :: "(int \<times> int \<times> int) list \<Rightarrow> int \<Rightarrow> int \<Rightarrow> (int \<times> int \<times> int) list" where
  "addLevel [] price q = [(price, i64 (0 + q), i64 (0 + 1))]"
| "addLevel ((p, a, c) # ls) price q =
     (if p = price then (p, i64 (a + q), i64 (c + 1)) # ls else (p, a, c) # addLevel ls price q)"

definition visible :: "Order \<Rightarrow> bool" where
  "visible order \<longleftrightarrow> \<not> (Status order \<noteq> StatusPending \<and> Status order \<noteq> StatusPartial)
     \<and> \<not> RemainingQuantity order \<le> 0"

definition aggregateLevels :: "Engine \<Rightarrow> ptr list \<Rightarrow> (int \<times> int \<times> int) list" where
  "aggregateLevels e ps = foldl (\<lambda>ls p. if visible (heap e p)
     then addLevel ls (Price (heap e p)) (RemainingQuantity (heap e p)) else ls) [] ps"

fun levelEntry :: "int \<times> int \<times> int \<Rightarrow> OrderBookEntry" where
  "levelEntry (price, q, c) =
     \<lparr>entryPrice = price, entryQuantity = q, entryTotal = i64 (price * q), entryOrderCount = c\<rparr>"

definition aggregateBids :: "World \<Rightarrow> Engine \<Rightarrow> ptr list \<Rightarrow> OrderBookEntry list" where
  "aggregateBids w e ps =
     sort_key (\<lambda>en. - entryPrice en) (map levelEntry (RangeLevels w (aggregateLevels e ps)))"

definition aggregateAsks :: "World \<Rightarrow> Engine \<Rightarrow> ptr list \<Rightarrow> OrderBookEntry list" where
  "aggregateAsks w e ps =
     sort_key (\<lambda>en. entryPrice en) (map levelEntry (RangeLevels w (aggregateLevels e ps)))"

definition entryToJson :: "OrderBookEntry \<Rightarrow> json" where
  "entryToJson en = JObj
    [(''price'', JNum (entryPrice en)), (''quantity'', JNum (entryQuantity en)),
     (''total'', JNum (entryTotal en)), (''orderCount'', JNum (entryOrderCount en))]"

definition depthSideToJson :: "DepthSide \<Rightarrow> json" where
  "depthSideToJson d = JObj
    [(''bids'', JArr (map entryToJson (depthBids d))), (''asks'', JArr (map entryToJson (depthAsks d)))]"

definition depthToJson :: "Depth \<Rightarrow> json" where
  "depthToJson d = JObj
    [(''eventId'', JStr (depthEventID d)), (''yes'', depthSideToJson (depthYes d)),
     (''no'', depthSideToJson (depthNo d))]"

definition depthOf :: "World \<Rightarrow> Engine \<Rightarrow> string \<Rightarrow> Market \<Rightarrow> Depth" where
  "depthOf w e eventID market =
     \<lparr>depthEventID = eventID,
      depthYes = \<lparr>depthBids = aggregateBids w e (Bids (YES market)),
                  depthAsks = aggregateAsks w e (Asks (YES market))\<rparr>,
      depthNo = \<lparr>depthBids = aggregateBids w e (Bids (NO market)),
                 depthAsks = aggregateAsks w e (Asks (NO market))\<rparr>\<rparr>"

definition handleGetDepth :: "World \<Rightarrow> Engine \<Rightarrow> raw \<Rightarrow> EngineResponse" where
  "handleGetDepth w e payload =
     (case Option.bind (unmarshalObj payload) (\<lambda>fs. field decStr ''eventId'' fs []) of
        None \<Rightarrow> failure ''invalid payload''
      | Some eventID \<Rightarrow>
          (case markets e eventID of
             None \<Rightarrow> failure ErrEventNotFound
           | Some market \<Rightarrow> successJSON (depthToJson (depthOf w e eventID market))))"

definition openOrder :: "string \<Rightarrow> string \<Rightarrow> Order \<Rightarrow> bool" where
  "openOrder eventID userID order \<longleftrightarrow> EventID order = eventID \<and> UserID order = userID
     \<and> (Status order = StatusPending \<or> Status order = StatusPartial)"

definition openOrders :: "World \<Rightarrow> Engine \<Rightarrow> string \<Rightarrow> string \<Rightarrow> Order list" where
  "openOrders w e eventID userID =
     sort_key CreatedAt (filter (openOrder eventID userID)
       (map (\<lambda>k. heap e (the (orders e k))) (RangeOrders w (orders e))))"

definition handleGetOpenOrders :: "World \<Rightarrow> Engine \<Rightarrow> raw \<Rightarrow> EngineResponse" where
  "handleGetOpenOrders w e payload =
     (case unmarshalObj payload of
        None \<Rightarrow> failure ''invalid payload''
      | Some fs \<Rightarrow>
          (case (field decStr ''eventId'' fs [], field decStr ''userId'' fs []) of
             (Some eventID, Some userID) \<Rightarrow>
               successJSON (JArr (map orderToJson (openOrders w e eventID userID)))
           | _ \<Rightarrow> failure ''invalid payload''))"

end
