(* ===== verification/Engine.thy ===== *)
theory Engine
  imports Depth_View
begin

text \<open>
  The command handlers of \<^verbatim>\<open>internal/engine/engine.go\<close>, the entry point of the consumer
  (\<^verbatim>\<open>processStreamEntry\<close>) and the replay of the command log (\<^verbatim>\<open>replay.go\<close>). Each handler is composed of
  the sections it runs under \<^verbatim>\<open>e.mu\<close> (\<open>admitOrder\<close>, \<open>dropOrder\<close>, \<open>matchOrderLocked\<close>, \<open>cancelLocked\<close>)
  and the emits between them. Structured logging and latency histograms have no effect on the state
  and are left out.
\<close>

section \<open>Events\<close>

definition handleCreateEvent :: "Engine \<Rightarrow> raw \<Rightarrow> Engine \<times> EngineResponse" where
  "handleCreateEvent e payload =
     (case Option.bind (unmarshalObj payload) (\<lambda>fs. field decStr ''eventId'' fs []) of
        None \<Rightarrow> (e, failure ''invalid payload'')
      | Some eventID \<Rightarrow>
          if eventID = [] then (e, failure ''eventId is required'')
          else (case markets e eventID of
            Some _ \<Rightarrow> (e, successJSON (JObj [(''status'', JStr ''already_exists'')]))
          | None \<Rightarrow> (e\<lparr>markets := (markets e)(eventID \<mapsto> NewMarket)\<rparr>,
                     successJSON (JObj [(''status'', JStr ''created'')]))))"

section \<open>Creating an order\<close>

record CreateOrderReq =
  reqOrderID :: string
  reqEventID :: string
  reqUserID :: string
  reqOrderType :: string
  reqOutcome :: string
  reqSide :: string
  reqQuantity :: int
  reqPrice :: int

definition createOrderReqOfJson :: "raw \<Rightarrow> CreateOrderReq option" where
  "createOrderReqOfJson r = do {
     fs \<leftarrow> unmarshalObj r;
     oi \<leftarrow> field decStr ''orderId'' fs []; ev \<leftarrow> field decStr ''eventId'' fs [];
     u \<leftarrow> field decStr ''userId'' fs []; ty \<leftarrow> field decStr ''orderType'' fs [];
     oc \<leftarrow> field decStr ''outcome'' fs []; sd \<leftarrow> field decStr ''side'' fs [];
     q \<leftarrow> field decInt ''quantity'' fs 0; pr \<leftarrow> field decInt ''price'' fs 0;
     Some \<lparr>reqOrderID = oi, reqEventID = ev, reqUserID = u, reqOrderType = ty, reqOutcome = oc,
           reqSide = sd, reqQuantity = q, reqPrice = pr\<rparr> }"

definition validateOrder :: "Order \<Rightarrow> string option" where
  "validateOrder order =
     (if EventID order = [] then Some ''eventId is required''
      else if UserID order = [] then Some ''userId is required''
      else if Quantity order \<le> 0 then Some ''quantity must be greater than zero''
      else if Side order \<noteq> SideBuy \<and> Side order \<noteq> SideSell then Some ''invalid side''
      else if Outcome order \<noteq> OutcomeYes \<and> Outcome order \<noteq> OutcomeNo then Some ''invalid outcome''
      else if OrderType order = OrderTypeLimit then
        (if Price order \<le> 0 then Some ''limit order price must be greater than zero'' else None)
      else if OrderType order = OrderTypeMarket then None
      else Some ''invalid order type'')"

definition newOrder :: "World \<Rightarrow> nat \<Rightarrow> CreateOrderReq \<Rightarrow> Order" where
  "newOrder w t req =
     \<lparr>ID = (if reqOrderID req = [] then NewString w t else reqOrderID req),
      EventID = reqEventID req, UserID = reqUserID req, OrderType = reqOrderType req,
      Outcome = reqOutcome req, Side = reqSide req, Quantity = reqQuantity req,
      FilledQuantity = 0, RemainingQuantity = reqQuantity req, Price = reqPrice req,
      Status = StatusPending, LockedFunds = 0, CreatedAt = Now w t\<rparr>"

text \<open>
  Validation and the first locked section: \<open>Inl\<close> is an immediate response, \<open>Inr\<close> the pointer under
  which the order has been entered in the table. The order becomes shared, and gets its address,
  when it is stored there.
\<close>

definition admitOrder :: "World \<Rightarrow> Engine \<Rightarrow> CreateOrderReq \<Rightarrow> Engine \<times> (EngineResponse + ptr)" where
  "admitOrder w e req =
     (if reqQuantity req \<le> 0 then (e, Inl (failure ''quantity must be greater than zero''))
      else
        let order = newOrder w (tick e) req; e = e\<lparr>tick := Suc (tick e)\<rparr> in
        case validateOrder order of
          Some err \<Rightarrow> (e, Inl (failure err))
        | None \<Rightarrow>
            (case orders e (ID order) of
               Some p \<Rightarrow> (e, Inl (successJSON (JObj
                 [(''orderId'', JStr (ID (heap e p))), (''status'', JStr (Status (heap e p)))])))
             | None \<Rightarrow>
                 if markets e (EventID order) = None then (e, Inl (failure ErrEventNotFound))
                 else
                   (case reserveOrderLocked e order of
                      (e, Inl err) \<Rightarrow> (e, Inl (failure err))
                    | (e, Inr order) \<Rightarrow>
                        let p = nextPtr e in
                        (e\<lparr>heap := (heap e)(p := order), nextPtr := Suc p,
                           orders := (orders e)(ID order \<mapsto> p)\<rparr>, Inr p))))"

text \<open>The order is taken out of the table again when its creation could not be streamed.\<close>

definition dropOrder :: "Engine \<Rightarrow> ptr \<Rightarrow> Engine" where
  "dropOrder e p =
     setStatus (e\<lparr>orders := (orders e)(ID (heap e p) := None)\<rparr>) p StatusRejected"

definition handleCreateOrderCore :: "World \<Rightarrow> Engine \<Rightarrow> int \<Rightarrow> raw \<Rightarrow> Engine \<times> EngineResponse" where
  "handleCreateOrderCore w e partitionID payload =
     (case createOrderReqOfJson payload of
        None \<Rightarrow> (e, failure ''invalid payload'')
      | Some req \<Rightarrow>
          (case admitOrder w e req of
             (e, Inl resp) \<Rightarrow> (e, resp)
           | (e, Inr p) \<Rightarrow>
               (case emitEventP w e partitionID EventOrderCreated (orderToJson (heap e p)) False of
                  (e, True) \<Rightarrow> (dropOrder e p, failure ''failed to stream order creation'')
                | (e, False) \<Rightarrow>
                    let e = fst (matchOrder w e p partitionID);
                        e = e\<lparr>metrics := (metrics e)
                              \<lparr>OrdersProcessed := Suc (OrdersProcessed (metrics e))\<rparr>\<rparr>
                    in (e, successJSON (JObj
                         [(''filledQuantity'', JNum (FilledQuantity (heap e p))),
                          (''orderId'', JStr (ID (heap e p))),
                          (''remainingQuantity'', JNum (RemainingQuantity (heap e p))),
                          (''status'', JStr (Status (heap e p)))])))))"

definition handleCreateOrderP :: "World \<Rightarrow> Engine \<Rightarrow> int \<Rightarrow> raw \<Rightarrow> Engine \<times> EngineResponse" where
  "handleCreateOrderP w e partitionID payload =
     (let (e, resp) = handleCreateOrderCore w e partitionID payload in
      if isReplaying e partitionID then (e, resp)
      else if Success resp
      then (e\<lparr>metrics := (metrics e)\<lparr>OrdersAccepted := Suc (OrdersAccepted (metrics e))\<rparr>\<rparr>, resp)
      else (e\<lparr>metrics := (metrics e)\<lparr>OrdersRejected := Suc (OrdersRejected (metrics e))\<rparr>\<rparr>, resp))"

section \<open>Canceling an order\<close>

text \<open>
  A validated order has outcome YES or NO, so its book exists; for any other outcome the source
  would dereference \<^verbatim>\<open>nil\<close>.
\<close>

definition removeFromBook :: "Engine \<Rightarrow> Market \<Rightarrow> Order \<Rightarrow> Market" where
  "removeFromBook e market order =
     (case Book market (Outcome order) of
        None \<Rightarrow> market
      | Some book \<Rightarrow> setBook market (Outcome order)
          (if Side order = SideBuy
           then book\<lparr>Bids := fst (removeOrderFromSlice e (Bids book) (ID order))\<rparr>
           else book\<lparr>Asks := fst (removeOrderFromSlice e (Asks book) (ID order))\<rparr>))"

definition cancelLocked :: "Engine \<Rightarrow> string \<Rightarrow> string \<Rightarrow> Engine \<times> (string + ptr)" where
  "cancelLocked e orderID eventID =
     (case orders e orderID of
        None \<Rightarrow> (e, Inl ErrOrderNotFound)
      | Some p \<Rightarrow>
          let order = heap e p in
          if eventID \<noteq> [] \<and> EventID order \<noteq> eventID then (e, Inl ''order does not belong to event'')
          else if Status order = StatusFilled \<or> Status order = StatusCanceled
                  \<or> Status order = StatusRejected
          then (e, Inl ErrOrderNotCancelable)
          else (case markets e (EventID order) of
            None \<Rightarrow> (e, Inl ErrEventNotFound)
          | Some market \<Rightarrow>
              let e = e\<lparr>markets := (markets e)(EventID order \<mapsto> removeFromBook e market order)\<rparr>;
                  e = setStatus e p StatusCanceled
              in (releaseOrderLocked e p, Inr p)))"

definition handleCancelOrderP :: "World \<Rightarrow> Engine \<Rightarrow> int \<Rightarrow> raw \<Rightarrow> Engine \<times> EngineResponse" where
  "handleCancelOrderP w e partitionID payload =
     (case unmarshalObj payload of
        None \<Rightarrow> (e, failure ''invalid payload'')
      | Some fs \<Rightarrow>
          (case (field decStr ''orderId'' fs [], field decStr ''eventId'' fs []) of
             (Some orderID, Some eventID) \<Rightarrow>
               if orderID = [] then (e, failure ''orderId is required'')
               else
                 (case cancelLocked e orderID eventID of
                    (e, Inl err) \<Rightarrow> (e, failure err)
                  | (e, Inr p) \<Rightarrow>
                      let e = (if isReplaying e partitionID then e
                               else e\<lparr>metrics := (metrics e)
                                     \<lparr>OrdersCanceled := Suc (OrdersCanceled (metrics e))\<rparr>\<rparr>);
                          e = fst (emitEventP w e partitionID EventOrderCanceled
                                (JObj [(''orderId'', JStr (ID (heap e p)))]) False)
                      in (e, successJSON (JObj
                           [(''orderId'', JStr (ID (heap e p))), (''status'', JStr StatusCanceled)])))
           | _ \<Rightarrow> (e, failure ''invalid payload'')))"

section \<open>Dispatch\<close>

definition handleMessage :: "World \<Rightarrow> Engine \<Rightarrow> int \<Rightarrow> MessageToEngine \<Rightarrow> Engine \<times> EngineResponse" where
  "handleMessage w e partitionID msg =
     (if msgType msg = CreateOrderCommand then handleCreateOrderP w e partitionID (msgPayload msg)
      else if msgType msg = CancelOrderCommand then handleCancelOrderP w e partitionID (msgPayload msg)
      else if msgType msg = GetDepthCommand then (e, handleGetDepth w e (msgPayload msg))
      else if msgType msg = GetOpenOrdersCommand then (e, handleGetOpenOrders w e (msgPayload msg))
      else if msgType msg = CreateEventCommand then handleCreateEvent e (msgPayload msg)
      else if msgType msg = UserCreatedCommand then handleUserCreated e (msgPayload msg)
      else (e, failure ''unknown message type''))"

text \<open>
  One entry of a command stream: its id, the client to answer (empty for fire and forget), and the
  text under \<^verbatim>\<open>command\<close> (\<^const>\<open>None\<close> when it is missing or empty).
\<close>

record StreamEntry =
  entryID :: string
  clientID :: string
  command :: "raw option"

text \<open>
  The result is the new state, the response published to the client, if any, and the
  acknowledgement the deferred call sends on every path: stream, group and entry.
\<close>

definition processStreamEntry ::
    "World \<Rightarrow> Engine \<Rightarrow> int \<Rightarrow> StreamEntry
      \<Rightarrow> Engine \<times> (string \<times> EngineResponse) option \<times> (string \<times> string \<times> string)" where
  "processStreamEntry w e partitionID entry =
     (let ack = (Stream (router e) partitionID, Group (router e) partitionID, entryID entry) in
      case command entry of
        None \<Rightarrow> (e, None, ack)
      | Some raw \<Rightarrow>
          (case commandOfJson raw of
             None \<Rightarrow> (e, None, ack)
           | Some env \<Rightarrow>
               if cmdType env = [] then (e, None, ack)
               else
                 let (e, response) = handleMessage w e partitionID
                       \<lparr>msgType = cmdType env, msgPayload = Payload env\<rparr>
                 in if clientID entry = [] then (e, None, ack)
                    else (e, Some (clientID entry,
                            if RequestID env \<noteq> [] then response\<lparr>respRequestID := RequestID env\<rparr>
                            else response), ack)))"

section \<open>Replay\<close>

definition applyCommand :: "World \<Rightarrow> Engine \<Rightarrow> int \<Rightarrow> CommandEnvelope \<Rightarrow> Engine" where
  "applyCommand w e partitionID env =
     (if cmdType env = [] then e
      else fst (handleMessage w e partitionID \<lparr>msgType = cmdType env, msgPayload = Payload env\<rparr>))"

definition replayEntry :: "World \<Rightarrow> int \<Rightarrow> Engine \<Rightarrow> StreamEntry \<Rightarrow> Engine" where
  "replayEntry w partitionID e msg =
     (case command msg of
        None \<Rightarrow> e
      | Some raw \<Rightarrow>
          (case commandOfJson raw of
             None \<Rightarrow> e
           | Some env \<Rightarrow> applyCommand w e partitionID env))"

text \<open>\<open>entries\<close> is what \<^verbatim>\<open>XRANGE - +\<close> returned, \<^const>\<open>None\<close> its error. \<open>True\<close> is an error.\<close>

definition replayCommandLog :: "World \<Rightarrow> Engine \<Rightarrow> int \<Rightarrow> StreamEntry list option \<Rightarrow> Engine \<times> bool" where
  "replayCommandLog w e partitionID entries =
     (if \<not> redisManager e then (e, False)
      else case entries of
        None \<Rightarrow> (e, True)
      | Some entries \<Rightarrow>
          let e = e\<lparr>replaying := insert partitionID (replaying e)\<rparr>;
              e = foldl (replayEntry w partitionID) e entries
          in (e\<lparr>replaying := replaying e - {partitionID}\<rparr>, False))"

text \<open>\<^verbatim>\<open>Start\<close> first republishes what the outbox still holds; the partition workers run after it.\<close>

definition Start :: "World \<Rightarrow> bool \<Rightarrow> Engine \<Rightarrow> Engine" where
  "Start w readErr e =
     (if redisManager e then fst (Recover w readErr e (eventStream e) (wsChannel e)) else e)"

end
