(* ===== verification/Ledger_Inv.thy ===== *)
theory Ledger_Inv
  imports Engine
begin

text \<open>
  The ledger's contract. In a state satisfying \<open>ledger_ok\<close> every reserved amount is backed: the cash
  reserved by a user is the sum of what that user's BUY orders have locked, the shares reserved under
  a position key are the sum of what the SELL orders on it have locked, nothing is negative, and the
  totals fit an \<^verbatim>\<open>int64\<close>. Reserving, settling and releasing keep it and keep the totals; under it the
  clamps to zero in the code never act.
\<close>

section \<open>Holdings\<close>

definition holding :: "('k \<rightharpoonup> Balance) \<Rightarrow> 'k \<Rightarrow> Balance" where
  "holding m k = (case m k of None \<Rightarrow> emptyHolding | Some b \<Rightarrow> b)"

definition total :: "Balance \<Rightarrow> int" where
  "total b = Available b + Reserved b"

lemma holding_upd [simp]: "holding (m(k \<mapsto> b)) j = (if j = k then b else holding m j)"
  by (simp add: holding_def)

lemma emptyHolding_simps [simp]: "Available emptyHolding = 0" "Reserved emptyHolding = 0"
  by (simp_all add: emptyHolding_def)

lemma at_key_total: "at_key total m k = total (holding m k)"
  by (simp add: at_key_def holding_def total_def split: option.split)

lemma msum_total_upd:
  "finite (dom m) \<Longrightarrow> msum total (m(k \<mapsto> b)) = msum total m - total (holding m k) + total b"
  by (simp add: at_key_total)

lemma holding_Some: "m k = Some b \<Longrightarrow> holding m k = b"
  by (simp add: holding_def)

lemma holding_le_msum:
  assumes "finite (dom m)" and "\<And>j. 0 \<le> total (holding m j)"
  shows "total (holding m k) \<le> msum total m"
  unfolding at_key_total [symmetric]
  by (rule at_key_le_msum) (use assms in \<open>auto dest: holding_Some\<close>)

lemma two_holdings_le_msum:
  assumes "finite (dom m)" and "\<And>j. 0 \<le> total (holding m j)" and "k \<noteq> l"
  shows "total (holding m k) + total (holding m l) \<le> msum total m"
  unfolding at_key_total [symmetric]
  by (rule two_keys_le_msum) (use assms in \<open>auto dest: holding_Some\<close>)

lemma onBalance_eq:
  "onBalance e u f = e\<lparr>balances := (balances e)(u \<mapsto> f (holding (balances e) u))\<rparr>"
  by (simp add: onBalance_def getOrCreateBalance_def holding_def split: option.split)

lemma onPosition_eq:
  "onPosition e u ev oc f = e\<lparr>positions := (positions e)
     (positionKey u ev oc \<mapsto> f (holding (positions e) (positionKey u ev oc)))\<rparr>"
  by (simp add: onPosition_def getOrCreatePosition_def holding_def Let_def split: option.split)

section \<open>The four updates without overflow\<close>

lemma freeze_exact:
  "0 \<le> n \<Longrightarrow> n \<le> Available b \<Longrightarrow> 0 \<le> Reserved b \<Longrightarrow> total b < 2 ^ 63 \<Longrightarrow>
   freeze n b = b\<lparr>Available := Available b - n, Reserved := Reserved b + n\<rparr>"
  by (simp add: freeze_def total_def int64_def)

lemma spend_exact:
  "0 \<le> n \<Longrightarrow> n \<le> Reserved b \<Longrightarrow> Reserved b < 2 ^ 63 \<Longrightarrow> spend n b = b\<lparr>Reserved := Reserved b - n\<rparr>"
  by (simp add: spend_def clamp0_def int64_def)

lemma credit_exact:
  "0 \<le> n \<Longrightarrow> 0 \<le> Available b \<Longrightarrow> Available b + n < 2 ^ 63 \<Longrightarrow>
   credit n b = b\<lparr>Available := Available b + n\<rparr>"
  by (simp add: credit_def int64_def)

lemma unfreeze_exact:
  "0 \<le> n \<Longrightarrow> n \<le> Reserved b \<Longrightarrow> 0 \<le> Available b \<Longrightarrow> total b < 2 ^ 63 \<Longrightarrow>
   unfreeze n b = b\<lparr>Available := Available b + n, Reserved := Reserved b - n\<rparr>"
  by (simp add: unfreeze_def spend_exact credit_exact total_def)

section \<open>The invariant\<close>

definition totalCash :: "Engine \<Rightarrow> int" where
  "totalCash e = msum total (balances e)"

definition totalShares :: "Engine \<Rightarrow> int" where
  "totalShares e = msum total (positions e)"

definition posKeyOf :: "Order \<Rightarrow> string" where
  "posKeyOf x = positionKey (UserID x) (EventID x) (Outcome x)"

definition cashLock :: "string \<Rightarrow> Order \<Rightarrow> int" where
  "cashLock u x = (if Side x = SideBuy \<and> UserID x = u then LockedFunds x else 0)"

definition shareLock :: "string \<Rightarrow> Order \<Rightarrow> int" where
  "shareLock k x = (if Side x \<noteq> SideBuy \<and> posKeyOf x = k then LockedFunds x else 0)"

definition lockedCash :: "Engine \<Rightarrow> string \<Rightarrow> int" where
  "lockedCash e u = (\<Sum>q<nextPtr e. cashLock u (heap e q))"

definition lockedShares :: "Engine \<Rightarrow> string \<Rightarrow> int" where
  "lockedShares e k = (\<Sum>q<nextPtr e. shareLock k (heap e q))"

definition backed :: "('k \<rightharpoonup> Balance) \<Rightarrow> ('k \<Rightarrow> int) \<Rightarrow> bool" where
  "backed m locked \<longleftrightarrow> finite (dom m) \<and> msum total m < 2 ^ 63
     \<and> (\<forall>k. Reserved (holding m k) = locked k \<and> 0 \<le> locked k \<and> 0 \<le> Available (holding m k))"

definition ledger_ok :: "Engine \<Rightarrow> bool" where
  "ledger_ok e \<longleftrightarrow> (\<forall>q<nextPtr e. 0 \<le> LockedFunds (heap e q))
     \<and> backed (balances e) (lockedCash e) \<and> backed (positions e) (lockedShares e)"

lemma backedD:
  assumes "backed m locked"
  shows "finite (dom m)" "msum total m < 2 ^ 63" "0 \<le> Available (holding m k)"
    "0 \<le> Reserved (holding m k)" "Reserved (holding m k) = locked k"
    "total (holding m k) \<le> msum total m" "Available (holding m k) \<le> msum total m"
    "Reserved (holding m k) \<le> msum total m"
proof -
  from assms show "finite (dom m)" "msum total m < 2 ^ 63" and a: "0 \<le> Available (holding m k)"
    and r: "0 \<le> Reserved (holding m k)" and "Reserved (holding m k) = locked k"
    by (simp_all add: backed_def)
  have "\<And>j. 0 \<le> total (holding m j)"
    using assms by (simp add: backed_def total_def)
  with assms show t: "total (holding m k) \<le> msum total m"
    by (intro holding_le_msum) (simp_all add: backed_def)
  from t a r show "Available (holding m k) \<le> msum total m" "Reserved (holding m k) \<le> msum total m"
    by (simp_all add: total_def)
qed

lemma backed_two:
  assumes "backed m locked"
  shows "Available (holding m k) + Reserved (holding m l) \<le> msum total m"
proof (cases "k = l")
  case True
  then show ?thesis using backedD(6) [OF assms, of l] by (simp add: total_def)
next
  case False
  have "total (holding m k) + total (holding m l) \<le> msum total m"
    using assms False by (intro two_holdings_le_msum) (simp_all add: backed_def total_def)
  then show ?thesis
    using backedD(3,4) [OF assms, of k] backedD(3,4) [OF assms, of l] by (simp add: total_def)
qed

text \<open>
  One assignment to a backed map: the new value is non-negative, keeps the map's total in range, and
  the locked amounts move with its reserved part.
\<close>

lemma backed_upd:
  assumes "backed m locked" and "0 \<le> Available b" and "0 \<le> Reserved b"
    and "msum total m - total (holding m k) + total b < 2 ^ 63"
    and "\<And>j. locked' j = (if j = k then Reserved b else locked j)"
  shows "backed (m(k \<mapsto> b)) locked'"
  using assms by (auto simp: backed_def msum_total_upd simp del: msum_upd)

lemma backed_touch:
  assumes "backed m locked" and "\<And>j. locked' j = locked j"
  shows "backed (m(k \<mapsto> holding m k)) locked'"
  using assms backedD [OF assms(1)] by (intro backed_upd [OF assms(1)]) auto

section \<open>Reserving\<close>

text \<open>A new order at a fresh address adds its own lock to the sums.\<close>

lemma locked_new:
  "lockedCash (e\<lparr>heap := (heap e)(nextPtr e := x), nextPtr := Suc (nextPtr e), orders := t\<rparr>) u =
     lockedCash e u + cashLock u x"
  "lockedShares (e\<lparr>heap := (heap e)(nextPtr e := x), nextPtr := Suc (nextPtr e), orders := t\<rparr>) k =
     lockedShares e k + shareLock k x"
  using sum_store_new [of "cashLock u" "heap e" "nextPtr e" x]
    sum_store_new [of "shareLock k" "heap e" "nextPtr e" x]
  by (simp_all add: lockedCash_def lockedShares_def)

lemma locked_upd:
  assumes "p < nextPtr e"
  shows "lockedCash (e\<lparr>heap := (heap e)(p := x)\<rparr>) u =
      lockedCash e u - cashLock u (heap e p) + cashLock u x"
    and "lockedShares (e\<lparr>heap := (heap e)(p := x)\<rparr>) k =
      lockedShares e k - shareLock k (heap e p) + shareLock k x"
  using sum_store_upd [OF assms, of "cashLock u" "heap e" x]
    sum_store_upd [OF assms, of "shareLock k" "heap e" x]
  by (simp_all add: lockedCash_def lockedShares_def)

text \<open>The sums depend on the store alone.\<close>

lemma locked_frame [simp]:
  "lockedCash (e\<lparr>balances := b\<rparr>) = lockedCash e"
  "lockedCash (e\<lparr>positions := b\<rparr>) = lockedCash e"
  "lockedCash (e\<lparr>markets := m\<rparr>) = lockedCash e"
  "lockedCash (e\<lparr>orders := t\<rparr>) = lockedCash e"
  "lockedCash (e\<lparr>tick := n\<rparr>) = lockedCash e"
  "lockedShares (e\<lparr>balances := b\<rparr>) = lockedShares e"
  "lockedShares (e\<lparr>positions := b\<rparr>) = lockedShares e"
  "lockedShares (e\<lparr>markets := m\<rparr>) = lockedShares e"
  "lockedShares (e\<lparr>orders := t\<rparr>) = lockedShares e"
  "lockedShares (e\<lparr>tick := n\<rparr>) = lockedShares e"
  by (simp_all add: lockedCash_def [abs_def] lockedShares_def [abs_def])

lemma lock_le_reserved:
  assumes "ledger_ok e" and "p < nextPtr e"
  shows "Side (heap e p) = SideBuy \<Longrightarrow>
      LockedFunds (heap e p) \<le> Reserved (holding (balances e) (UserID (heap e p)))"
    and "Side (heap e p) \<noteq> SideBuy \<Longrightarrow>
      LockedFunds (heap e p) \<le> Reserved (holding (positions e) (posKeyOf (heap e p)))"
proof -
  have pos: "0 \<le> cashLock u (heap e q)" "0 \<le> shareLock k (heap e q)" if "q < nextPtr e" for q u k
    using assms(1) that by (simp_all add: ledger_ok_def cashLock_def shareLock_def)
  have "cashLock u (heap e p) \<le> lockedCash e u" for u
    unfolding lockedCash_def using sum_store_member [of p "nextPtr e" "cashLock u" "heap e"] assms(2) pos
    by simp
  moreover have "shareLock k (heap e p) \<le> lockedShares e k" for k
    unfolding lockedShares_def using sum_store_member [of p "nextPtr e" "shareLock k" "heap e"] assms(2) pos
    by simp
  ultimately show "Side (heap e p) = SideBuy \<Longrightarrow>
      LockedFunds (heap e p) \<le> Reserved (holding (balances e) (UserID (heap e p)))"
    and "Side (heap e p) \<noteq> SideBuy \<Longrightarrow>
      LockedFunds (heap e p) \<le> Reserved (holding (positions e) (posKeyOf (heap e p)))"
    using assms(1)
    by (metis backedD(5) cashLock_def ledger_ok_def, metis backedD(5) shareLock_def ledger_ok_def)
qed

text \<open>
  What a reservation asks: the exact cost or the shares of the order, as the code computes it when
  nothing wraps.
\<close>

definition noOverflow :: "Order \<Rightarrow> bool" where
  "noOverflow x \<longleftrightarrow> 0 < RemainingQuantity x
     \<and> (Side x = SideBuy \<longrightarrow> OrderType x \<noteq> OrderTypeMarket \<longrightarrow>
          0 \<le> RemainingQuantity x * Price x \<and> RemainingQuantity x * Price x < 2 ^ 63)"

definition demand :: "Engine \<Rightarrow> Order \<Rightarrow> int" where
  "demand e x =
     (if Side x = SideBuy
      then if OrderType x = OrderTypeMarket then Available (holding (balances e) (UserID x))
           else RemainingQuantity x * Price x
      else RemainingQuantity x)"

definition funds :: "Engine \<Rightarrow> Order \<Rightarrow> int" where
  "funds e x = (if Side x = SideBuy then Available (holding (balances e) (UserID x))
     else Available (holding (positions e) (posKeyOf x)))"

text \<open>The entry an order draws on, created empty if it was missing.\<close>

definition touch :: "Engine \<Rightarrow> Order \<Rightarrow> Engine" where
  "touch e x =
     (if Side x = SideBuy
      then e\<lparr>balances := (balances e)(UserID x \<mapsto> holding (balances e) (UserID x))\<rparr>
      else e\<lparr>positions := (positions e)(posKeyOf x \<mapsto> holding (positions e) (posKeyOf x))\<rparr>)"

definition draw :: "Engine \<Rightarrow> Order \<Rightarrow> int \<Rightarrow> Engine" where
  "draw e x n =
     (if Side x = SideBuy
      then e\<lparr>balances := (balances e)(UserID x \<mapsto> freeze n (holding (balances e) (UserID x)))\<rparr>
      else e\<lparr>positions := (positions e)(posKeyOf x \<mapsto> freeze n (holding (positions e) (posKeyOf x)))\<rparr>)"

lemma getOrCreateBalance_eq:
  "getOrCreateBalance e u =
     (e\<lparr>balances := (balances e)(u \<mapsto> holding (balances e) u)\<rparr>, holding (balances e) u)"
  by (cases e) (auto simp: getOrCreateBalance_def holding_def fun_eq_iff split: option.split)

lemma getOrCreatePosition_eq:
  "getOrCreatePosition e u ev oc =
     (e\<lparr>positions := (positions e)(positionKey u ev oc \<mapsto> holding (positions e) (positionKey u ev oc))\<rparr>,
      holding (positions e) (positionKey u ev oc))"
  by (cases e) (auto simp: getOrCreatePosition_def holding_def Let_def fun_eq_iff split: option.split)

text \<open>Without overflow a reservation succeeds exactly when the demand is covered by what is available.\<close>

lemma reserveOrderLocked_eq:
  assumes "noOverflow x"
  shows "reserveOrderLocked e x =
    (if demand e x \<le> funds e x then (draw e x (demand e x), Inr (x\<lparr>LockedFunds := demand e x\<rparr>))
     else (touch e x, Inl (if Side x = SideBuy then ErrInsufficientFunds else ErrInsufficientShares)))"
proof -
  have "i64 (RemainingQuantity x * Price x) = RemainingQuantity x * Price x"
    if "Side x = SideBuy" "OrderType x \<noteq> OrderTypeMarket"
    using assms that by (simp add: noOverflow_def int64_def)
  then show ?thesis
    by (cases "Side x = SideBuy"; cases "OrderType x = OrderTypeMarket")
      (simp_all add: reserveOrderLocked_def getOrCreateBalance_eq getOrCreatePosition_eq onBalance_eq
        onPosition_eq demand_def funds_def touch_def draw_def posKeyOf_def Let_def)
qed

lemma ledger_ok_touch:
  assumes "ledger_ok e"
  shows "ledger_ok (touch e x)" "totalCash (touch e x) = totalCash e"
    "totalShares (touch e x) = totalShares e"
proof -
  have b: "backed (balances e) (lockedCash e)" and p: "backed (positions e) (lockedShares e)"
    and l: "\<forall>q<nextPtr e. 0 \<le> LockedFunds (heap e q)"
    using assms by (simp_all add: ledger_ok_def)
  show "ledger_ok (touch e x)"
    using b p l backed_touch [OF b, of "lockedCash e" "UserID x"]
      backed_touch [OF p, of "lockedShares e" "posKeyOf x"]
    by (simp add: touch_def ledger_ok_def)
  show "totalCash (touch e x) = totalCash e" "totalShares (touch e x) = totalShares e"
    using backedD(1) [OF b] backedD(1) [OF p]
    by (simp_all add: touch_def totalCash_def totalShares_def msum_total_upd del: msum_upd)
qed

text \<open>Entering the order with its lock restores the balance between reserved and locked amounts.\<close>

text \<open>Freezing an affordable amount of a backed holding.\<close>

lemma backed_freeze:
  assumes b: "backed m L" and d: "0 \<le> d" "d \<le> Available (holding m k)" and L: "\<And>u. L' u = L u + (if u = k then d else 0)"
  shows "backed (m(k \<mapsto> freeze d (holding m k))) L'" "total (freeze d (holding m k)) = total (holding m k)"
proof -
  note bd = backedD(1,2) [OF b] backedD(3-8) [OF b, of k]
  have fz: "freeze d (holding m k) = (holding m k)\<lparr>Available := Available (holding m k) - d, Reserved := Reserved (holding m k) + d\<rparr>"
    using d bd by (intro freeze_exact) simp_all
  show "backed (m(k \<mapsto> freeze d (holding m k))) L'"
    by (simp only: fz) (rule backed_upd [OF b]; use d bd in \<open>simp add: L total_def\<close>)
  show "total (freeze d (holding m k)) = total (holding m k)" by (simp add: fz total_def)
qed

lemma ledger_ok_draw:
  fixes t :: "string \<rightharpoonup> ptr"
  assumes ok: "ledger_ok e" and d: "0 \<le> demand e x" and f: "demand e x \<le> funds e x"
  defines "e' \<equiv> draw e x (demand e x)"
  defines "e'' \<equiv> e'\<lparr>heap := (heap e')(nextPtr e' := x\<lparr>LockedFunds := demand e x\<rparr>),
    nextPtr := Suc (nextPtr e'), orders := t\<rparr>"
  shows "ledger_ok e''" "totalCash e'' = totalCash e" "totalShares e'' = totalShares e"
proof -
  have b: "backed (balances e) (lockedCash e)" and p: "backed (positions e) (lockedShares e)"
    and l: "\<forall>q<nextPtr e. 0 \<le> LockedFunds (heap e q)"
    using ok by (simp_all add: ledger_ok_def)
  let ?d = "demand e x" and ?k = "posKeyOf x"
  have locks: "lockedCash e'' u = lockedCash e u + cashLock u (x\<lparr>LockedFunds := ?d\<rparr>)"
    "lockedShares e'' k = lockedShares e k + shareLock k (x\<lparr>LockedFunds := ?d\<rparr>)" for u k
    using locked_new [where e = e' and x = "x\<lparr>LockedFunds := ?d\<rparr>" and t = t] by (simp_all add: e''_def e'_def draw_def)
  have l': "\<forall>q<nextPtr e''. 0 \<le> LockedFunds (heap e'' q)"
    using l d by (auto simp: e''_def e'_def draw_def less_Suc_eq)
  have "ledger_ok e'' \<and> totalCash e'' = totalCash e \<and> totalShares e'' = totalShares e"
  proof (cases "Side x = SideBuy")
    case True
    then have av: "?d \<le> Available (holding (balances e) (UserID x))" using f by (simp add: funds_def)
    have e'': "balances e'' = (balances e)(UserID x \<mapsto> freeze ?d (holding (balances e) (UserID x)))" "positions e'' = positions e"
      using True by (simp_all add: e''_def e'_def draw_def)
    have c: "lockedShares e'' = lockedShares e" using True by (simp add: fun_eq_iff locks shareLock_def)
    have "lockedCash e'' u = lockedCash e u + (if u = UserID x then ?d else 0)" for u using True by (simp add: locks cashLock_def)
    note fr = backed_freeze [OF b d av this]
    show ?thesis using l' p fr backedD(1) [OF b] backedD(1) [OF p]
      by (simp add: ledger_ok_def e'' c totalCash_def totalShares_def msum_total_upd del: msum_upd)
  next
    case False
    then have av: "?d \<le> Available (holding (positions e) ?k)" using f by (simp add: funds_def)
    have e'': "positions e'' = (positions e)(?k \<mapsto> freeze ?d (holding (positions e) ?k))" "balances e'' = balances e"
      using False by (simp_all add: e''_def e'_def draw_def)
    have c: "lockedCash e'' = lockedCash e" using False by (simp add: fun_eq_iff locks cashLock_def)
    have "lockedShares e'' u = lockedShares e u + (if u = ?k then ?d else 0)" for u
      using False by (simp add: locks shareLock_def posKeyOf_def)
    note fr = backed_freeze [OF p d av this]
    show ?thesis using l' b fr backedD(1) [OF b] backedD(1) [OF p]
      by (simp add: ledger_ok_def e'' c totalCash_def totalShares_def msum_total_upd del: msum_upd)
  qed
  then show "ledger_ok e''" "totalCash e'' = totalCash e" "totalShares e'' = totalShares e" by simp_all
qed

section \<open>Settling\<close>

text \<open>
  A trade in the ledger: the orders of its buyer and its seller are in the table under the two ids it
  carries, and they have locked at least what the trade moves.
\<close>

definition tradeCost :: "Trade \<Rightarrow> int" where
  "tradeCost t = tradeQuantity t * tradePrice t"

definition parties :: "Engine \<Rightarrow> Trade \<Rightarrow> ptr \<Rightarrow> ptr \<Rightarrow> bool" where
  "parties e t b s \<longleftrightarrow>
     b < nextPtr e \<and> s < nextPtr e
     \<and> Side (heap e b) = SideBuy \<and> Side (heap e s) = SideSell
     \<and> UserID (heap e b) = BuyerID t \<and> UserID (heap e s) = SellerID t
     \<and> EventID (heap e s) = tradeEventID t \<and> Outcome (heap e s) = tradeOutcome t
     \<and> (orders e (OrderID t) = Some b \<and> orders e (MatchOrderID t) = Some s
        \<or> orders e (OrderID t) = Some s \<and> orders e (MatchOrderID t) = Some b)
     \<and> 0 < tradeQuantity t \<and> 0 \<le> tradePrice t"

lemma settleTradeLocked_eq:
  assumes "parties e t b s"
    and "tradeCost t \<le> LockedFunds (heap e b)" and "LockedFunds (heap e b) < 2 ^ 63"
    and "tradeQuantity t \<le> LockedFunds (heap e s)" and "LockedFunds (heap e s) < 2 ^ 63"
    and "B = (balances e)(BuyerID t \<mapsto> spend (tradeCost t) (holding (balances e) (BuyerID t)))"
    and "bk = positionKey (BuyerID t) (tradeEventID t) (tradeOutcome t)"
    and "P = (positions e)(bk \<mapsto> credit (tradeQuantity t) (holding (positions e) bk))"
  shows "settleTradeLocked e t = e
    \<lparr>balances := B(SellerID t \<mapsto> credit (tradeCost t) (holding B (SellerID t))),
     positions := P(posKeyOf (heap e s) \<mapsto> spend (tradeQuantity t) (holding P (posKeyOf (heap e s)))),
     heap := (heap e)(b := (heap e b)\<lparr>LockedFunds := LockedFunds (heap e b) - tradeCost t\<rparr>,
                      s := (heap e s)\<lparr>LockedFunds := LockedFunds (heap e s) - tradeQuantity t\<rparr>)\<rparr>"
proof -
  have pt: "Side (heap e b) = SideBuy" "Side (heap e s) = SideSell" "0 < tradeQuantity t" "0 \<le> tradePrice t"
    and sk: "posKeyOf (heap e s) = positionKey (SellerID t) (tradeEventID t) (tradeOutcome t)"
    using assms(1) by (simp_all add: parties_def posKeyOf_def)
  then have bs: "b \<noteq> s" and c0: "0 \<le> tradeCost t" by (auto simp: tradeCost_def)
  then have cost: "i64 (tradeQuantity t * tradePrice t) = tradeCost t"
    using assms(2,3) by (simp add: tradeCost_def int64_def)
  have locks: "clamp0 (i64 (LockedFunds (heap e b) - tradeCost t)) = LockedFunds (heap e b) - tradeCost t"
    "clamp0 (i64 (LockedFunds (heap e s) - tradeQuantity t)) = LockedFunds (heap e s) - tradeQuantity t"
    using assms(2-5) c0 pt by (simp_all add: clamp0_def int64_def)
  from assms(1) have "orders e (OrderID t) = Some b \<and> orders e (MatchOrderID t) = Some s
      \<or> orders e (OrderID t) = Some s \<and> orders e (MatchOrderID t) = Some b"
    by (simp add: parties_def)
  then show ?thesis
    using bs pt by (elim disjE conjE)
      (simp_all add: settleTradeLocked_def cost onBalance_eq onPosition_eq settleLocked_def setOrder_def
        Let_def locks sk assms(6-8) fun_upd_twist)
qed

text \<open>The two halves of a settlement: cash leaves a reservation, shares leave a reservation.\<close>

lemma backed_pay:
  assumes m: "backed m L" and c: "0 \<le> c" "c \<le> Reserved (holding m b)"
    and m1: "m1 = m(b \<mapsto> spend c (holding m b))"
  shows "backed (m1(s \<mapsto> credit c (holding m1 s))) (L(b := L b - c))"
    and "msum total (m1(s \<mapsto> credit c (holding m1 s))) = msum total m"
proof -
  note bd = backedD(1,2) [OF m] backedD(3-8) [OF m, of b]
  have sp: "spend c (holding m b) = (holding m b)\<lparr>Reserved := Reserved (holding m b) - c\<rparr>"
    using c bd by (intro spend_exact) linarith+
  have b1: "backed m1 (L(b := L b - c))"
    unfolding m1 sp by (rule backed_upd [OF m]) (use bd c in \<open>auto simp: total_def\<close>)
  have t1: "msum total m1 = msum total m - c"
    using bd by (simp add: m1 sp msum_total_upd total_def del: msum_upd)
  have cr: "credit c (holding m1 s) = (holding m1 s)\<lparr>Available := Available (holding m1 s) + c\<rparr>"
    using c t1 bd(2) backedD(3,7) [OF b1, of s] by (intro credit_exact) linarith+
  show "backed (m1(s \<mapsto> credit c (holding m1 s))) (L(b := L b - c))"
    unfolding cr
    by (rule backed_upd [OF b1]) (use backedD(3,4,5) [OF b1, of s] bd(2) c t1 in \<open>auto simp: total_def\<close>)
  show "msum total (m1(s \<mapsto> credit c (holding m1 s))) = msum total m"
    unfolding cr using t1 backedD(1) [OF b1] by (simp add: msum_total_upd total_def del: msum_upd)
qed

lemma backed_deliver:
  assumes m: "backed m L" and q: "0 \<le> q" "q \<le> Reserved (holding m s)"
    and m1: "m1 = m(b \<mapsto> credit q (holding m b))"
  shows "backed (m1(s \<mapsto> spend q (holding m1 s))) (L(s := L s - q))"
    and "msum total (m1(s \<mapsto> spend q (holding m1 s))) = msum total m"
proof -
  note bd = backedD(1,2) [OF m]
  have cr: "credit q (holding m b) = (holding m b)\<lparr>Available := Available (holding m b) + q\<rparr>"
    using q bd backed_two [OF m, of b s] backedD(3) [OF m, of b] by (intro credit_exact) linarith+
  have h1: "Reserved (holding m1 k) = L k" "0 \<le> Available (holding m1 k)" "0 \<le> L k" for k
    using backedD(3-5) [OF m, of k] backedD(3,5) [OF m, of b] q by (simp_all add: m1 cr)
  have t1: "msum total m1 = msum total m + q"
    using bd by (simp add: m1 cr msum_total_upd total_def del: msum_upd)
  have f1: "finite (dom m1)" using bd by (simp add: m1)
  have sp: "spend q (holding m1 s) = (holding m1 s)\<lparr>Reserved := Reserved (holding m1 s) - q\<rparr>"
    using q h1 bd backedD(5,8) [OF m, of s] by (intro spend_exact) simp_all
  show "msum total (m1(s \<mapsto> spend q (holding m1 s))) = msum total m"
    unfolding sp using t1 f1 by (simp add: msum_total_upd total_def del: msum_upd)
  then show "backed (m1(s \<mapsto> spend q (holding m1 s))) (L(s := L s - q))"
    using f1 h1 q bd backedD(5) [OF m, of s] by (simp add: backed_def sp)
qed

lemma locked_settle:
  assumes "b < nextPtr e" "s < nextPtr e" "Side (heap e b) = SideBuy" "Side (heap e s) \<noteq> SideBuy"
    and "UserID (heap e b) = u"
  shows "lockedCash (e\<lparr>balances := B, positions := P,
      heap := (heap e)(b := (heap e b)\<lparr>LockedFunds := LockedFunds (heap e b) - c\<rparr>,
                       s := (heap e s)\<lparr>LockedFunds := LockedFunds (heap e s) - q\<rparr>)\<rparr>) u' =
      lockedCash e u' - (if u' = u then c else 0)"
    and "lockedShares (e\<lparr>balances := B, positions := P,
      heap := (heap e)(b := (heap e b)\<lparr>LockedFunds := LockedFunds (heap e b) - c\<rparr>,
                       s := (heap e s)\<lparr>LockedFunds := LockedFunds (heap e s) - q\<rparr>)\<rparr>) k =
      lockedShares e k - (if k = posKeyOf (heap e s) then q else 0)"
proof -
  let ?xb = "(heap e b)\<lparr>LockedFunds := LockedFunds (heap e b) - c\<rparr>"
    and ?xs = "(heap e s)\<lparr>LockedFunds := LockedFunds (heap e s) - q\<rparr>"
  have bs: "((heap e)(b := ?xb)) s = heap e s" using assms(3,4) by auto
  have "(\<Sum>i<nextPtr e. f (((heap e)(b := ?xb, s := ?xs)) i)) =
      (\<Sum>i<nextPtr e. f (heap e i)) - f (heap e b) + f ?xb - f (heap e s) + f ?xs" for f :: "Order \<Rightarrow> int"
    using sum_store_upd [OF assms(2), of f "(heap e)(b := ?xb)" ?xs] sum_store_upd [OF assms(1), of f "heap e" ?xb]
    by (simp only: bs)
  then show "lockedCash (e\<lparr>balances := B, positions := P, heap := (heap e)(b := ?xb, s := ?xs)\<rparr>) u' =
      lockedCash e u' - (if u' = u then c else 0)"
    and "lockedShares (e\<lparr>balances := B, positions := P, heap := (heap e)(b := ?xb, s := ?xs)\<rparr>) k =
      lockedShares e k - (if k = posKeyOf (heap e s) then q else 0)"
    using assms(3-5) by (simp_all add: lockedCash_def lockedShares_def del: fun_upd_apply)
      (simp_all add: cashLock_def shareLock_def posKeyOf_def)
qed

lemma ledger_ok_settle:
  assumes ok: "ledger_ok e" and pt: "parties e t b s"
    and cb: "tradeCost t \<le> LockedFunds (heap e b)" and cs: "tradeQuantity t \<le> LockedFunds (heap e s)"
  shows "ledger_ok (settleTradeLocked e t)"
    and "totalCash (settleTradeLocked e t) = totalCash e"
    and "totalShares (settleTradeLocked e t) = totalShares e"
    and "heap (settleTradeLocked e t) =
      (heap e)(b := (heap e b)\<lparr>LockedFunds := LockedFunds (heap e b) - tradeCost t\<rparr>,
               s := (heap e s)\<lparr>LockedFunds := LockedFunds (heap e s) - tradeQuantity t\<rparr>)"
proof -
  let ?c = "tradeCost t" and ?q = "tradeQuantity t" and ?bu = "BuyerID t" and ?sk = "posKeyOf (heap e s)"
  let ?e' = "settleTradeLocked e t"
  have bb: "backed (balances e) (lockedCash e)" and pp: "backed (positions e) (lockedShares e)"
    using ok by (simp_all add: ledger_ok_def)
  from pt have side: "Side (heap e b) = SideBuy" "Side (heap e s) \<noteq> SideBuy"
    and lt: "b < nextPtr e" "s < nextPtr e" and bu: "UserID (heap e b) = ?bu" and q: "0 < ?q" and c: "0 \<le> ?c"
    by (simp_all add: parties_def tradeCost_def)
  have lb: "LockedFunds (heap e b) \<le> Reserved (holding (balances e) ?bu)"
    and ls: "LockedFunds (heap e s) \<le> Reserved (holding (positions e) ?sk)"
    using lock_le_reserved [OF ok lt(1)] lock_le_reserved [OF ok lt(2)] side bu by simp_all
  define B where "B = (balances e)(?bu \<mapsto> spend ?c (holding (balances e) ?bu))"
  define bk where "bk = positionKey ?bu (tradeEventID t) (tradeOutcome t)"
  define P where "P = (positions e)(bk \<mapsto> credit ?q (holding (positions e) bk))"
  have "LockedFunds (heap e b) < 2 ^ 63" "LockedFunds (heap e s) < 2 ^ 63"
    using lb ls backedD(2) [OF bb] backedD(2) [OF pp] backedD(8) [OF bb, of ?bu] backedD(8) [OF pp, of ?sk]
    by linarith+
  note e' = settleTradeLocked_eq [OF pt cb this(1) cs this(2) B_def bk_def P_def]
  have cB: "?c \<le> Reserved (holding (balances e) ?bu)" "?q \<le> Reserved (holding (positions e) ?sk)"
    using cb cs lb ls by linarith+
  note pay = backed_pay [OF bb c cB(1) B_def, of "SellerID t"]
    and deliver = backed_deliver [OF pp less_imp_le [OF q] cB(2) P_def]
  have "lockedCash ?e' u = ((lockedCash e)(?bu := lockedCash e ?bu - ?c)) u"
    "lockedShares ?e' k = ((lockedShares e)(?sk := lockedShares e ?sk - ?q)) k" for u k
    by (simp_all add: e' locked_settle [OF lt side bu])
  then have "lockedCash ?e' = (lockedCash e)(?bu := lockedCash e ?bu - ?c)"
    "lockedShares ?e' = (lockedShares e)(?sk := lockedShares e ?sk - ?q)"
    by (simp_all add: fun_eq_iff)
  moreover have "\<forall>q<nextPtr e. 0 \<le> LockedFunds (heap ?e' q)"
    using ok cb cs by (simp add: e' ledger_ok_def)
  ultimately show "ledger_ok ?e'"
    using pay(1) deliver(1) by (simp add: ledger_ok_def e')
  show "totalCash ?e' = totalCash e" "totalShares ?e' = totalShares e"
    using pay(2) deliver(2) by (simp_all add: e' totalCash_def totalShares_def)
  show "heap ?e' =
      (heap e)(b := (heap e b)\<lparr>LockedFunds := LockedFunds (heap e b) - ?c\<rparr>,
               s := (heap e s)\<lparr>LockedFunds := LockedFunds (heap e s) - ?q\<rparr>)"
    by (simp add: e')
qed

lemma settleTradeLocked_frame [simp]:
  "markets (settleTradeLocked e t) = markets e" "orders (settleTradeLocked e t) = orders e"
  "nextPtr (settleTradeLocked e t) = nextPtr e" "tick (settleTradeLocked e t) = tick e"
  "replaying (settleTradeLocked e t) = replaying e"
  by (simp_all add: settleTradeLocked_def settleLocked_def setOrder_def onBalance_eq onPosition_eq Let_def
      split: option.split)

section \<open>Releasing\<close>

lemma releaseOrderLocked_frame [simp]:
  "markets (releaseOrderLocked e p) = markets e" "orders (releaseOrderLocked e p) = orders e"
  "nextPtr (releaseOrderLocked e p) = nextPtr e" "tick (releaseOrderLocked e p) = tick e"
  "replaying (releaseOrderLocked e p) = replaying e"
  by (simp_all add: releaseOrderLocked_def setOrder_def onBalance_eq onPosition_eq Let_def)

lemma backed_release:
  assumes m: "backed m L" and n: "0 \<le> n" "n \<le> Reserved (holding m k)"
  shows "backed (m(k \<mapsto> unfreeze n (holding m k))) (L(k := L k - n))"
    and "msum total (m(k \<mapsto> unfreeze n (holding m k))) = msum total m"
proof -
  note bd = backedD(1,2) [OF m] backedD(3-8) [OF m, of k]
  have uf: "unfreeze n (holding m k) = (holding m k)
      \<lparr>Available := Available (holding m k) + n, Reserved := Reserved (holding m k) - n\<rparr>"
    using n bd by (intro unfreeze_exact) linarith+
  show "backed (m(k \<mapsto> unfreeze n (holding m k))) (L(k := L k - n))"
    unfolding uf by (rule backed_upd [OF m]) (use n bd in \<open>auto simp: total_def\<close>)
  show "msum total (m(k \<mapsto> unfreeze n (holding m k))) = msum total m"
    unfolding uf using bd by (simp add: msum_total_upd total_def del: msum_upd)
qed

lemma ledger_ok_release:
  assumes ok: "ledger_ok e" and lt: "p < nextPtr e"
  shows "ledger_ok (releaseOrderLocked e p)"
    and "totalCash (releaseOrderLocked e p) = totalCash e"
    and "totalShares (releaseOrderLocked e p) = totalShares e"
    and "heap (releaseOrderLocked e p) = (heap e)(p := (heap e p)\<lparr>LockedFunds := 0\<rparr>)"
proof -
  let ?x = "heap e p" and ?e' = "releaseOrderLocked e p"
  have b: "backed (balances e) (lockedCash e)" and s: "backed (positions e) (lockedShares e)"
    and l: "\<forall>q<nextPtr e. 0 \<le> LockedFunds (heap e q)"
    using ok by (simp_all add: ledger_ok_def)
  have n: "0 \<le> LockedFunds ?x" using l lt by simp
  note le = lock_le_reserved [OF ok lt]
  note rb = backed_release [OF b n le(1)] and rs = backed_release [OF s n le(2)]
  show h: "heap ?e' = (heap e)(p := ?x\<lparr>LockedFunds := 0\<rparr>)"
    using n by (simp add: releaseOrderLocked_def setOrder_def onBalance_eq onPosition_eq Let_def fun_eq_iff)
  have lk: "lockedCash ?e' = (if Side ?x = SideBuy then (lockedCash e)(UserID ?x := lockedCash e (UserID ?x) - LockedFunds ?x) else lockedCash e)"
    "lockedShares ?e' = (if Side ?x = SideBuy then lockedShares e
      else (lockedShares e)(posKeyOf ?x := lockedShares e (posKeyOf ?x) - LockedFunds ?x))"
    using sum_store_upd [OF lt, of "cashLock u" "heap e" "?x\<lparr>LockedFunds := 0\<rparr>" for u]
      sum_store_upd [OF lt, of "shareLock k" "heap e" "?x\<lparr>LockedFunds := 0\<rparr>" for k]
    by (simp_all add: lockedCash_def [abs_def] lockedShares_def [abs_def] h fun_eq_iff del: fun_upd_apply)
      (simp_all add: cashLock_def shareLock_def posKeyOf_def)
  have m: "balances ?e' = (if Side ?x = SideBuy \<and> 0 < LockedFunds ?x
      then (balances e)(UserID ?x \<mapsto> unfreeze (LockedFunds ?x) (holding (balances e) (UserID ?x))) else balances e)"
    "positions ?e' = (if Side ?x \<noteq> SideBuy \<and> 0 < LockedFunds ?x
      then (positions e)(posKeyOf ?x \<mapsto> unfreeze (LockedFunds ?x) (holding (positions e) (posKeyOf ?x))) else positions e)"
    by (simp_all add: releaseOrderLocked_def setOrder_def onBalance_eq onPosition_eq Let_def posKeyOf_def)
  show "totalCash ?e' = totalCash e" "totalShares ?e' = totalShares e"
    using rb(2) rs(2) by (simp_all add: totalCash_def totalShares_def m del: msum_upd)
  have "backed (balances ?e') (lockedCash ?e')"
    using b rb(1) n by (cases "LockedFunds ?x = 0") (simp_all add: m lk)
  moreover have "backed (positions ?e') (lockedShares ?e')"
    using s rs(1) n by (cases "LockedFunds ?x = 0") (simp_all add: m lk)
  moreover have "\<forall>q<nextPtr e. 0 \<le> LockedFunds (heap ?e' q)"
    using l by (simp add: h)
  ultimately show "ledger_ok ?e'" by (simp add: ledger_ok_def)
qed

end
