(* ===== verification/Match_Inv.thy ===== *)
theory Match_Inv
  imports Match_Loop Ledger_Inv
begin

text \<open>
  What one run of the matching loop does to the orders it touches, and why the settlement that
  follows never runs short. \<open>cover x n\<close> says that order \<open>x\<close> has locked enough for the \<open>n\<close> it owes to
  trades not yet settled and for its remaining quantity. Executing a pair moves the traded amount
  from the second to the first, settling pays the first, so the clamps of the ledger never act.
\<close>

section \<open>Orders\<close>

definition order_wf :: "Order \<Rightarrow> bool" where
  "order_wf x \<longleftrightarrow> Side x \<in> {SideBuy, SideSell} \<and> Outcome x \<in> {OutcomeYes, OutcomeNo}
     \<and> OrderType x \<in> {OrderTypeLimit, OrderTypeMarket} \<and> (OrderType x = OrderTypeLimit \<longrightarrow> 0 < Price x)
     \<and> Quantity x < 2 ^ 63 \<and> 0 < Quantity x \<and> 0 \<le> FilledQuantity x \<and> 0 \<le> RemainingQuantity x
     \<and> FilledQuantity x + RemainingQuantity x = Quantity x"

definition status_ok :: "Order \<Rightarrow> bool" where
  "status_ok x \<longleftrightarrow> Status x = StatusPending \<and> FilledQuantity x = 0
     \<or> Status x = StatusPartial \<and> OrderType x = OrderTypeLimit
         \<and> 0 < FilledQuantity x \<and> 0 < RemainingQuantity x
     \<or> Status x = StatusFilled \<and> RemainingQuantity x = 0
     \<or> Status x = StatusCanceled \<and> 0 < RemainingQuantity x
     \<or> Status x = StatusRejected"

definition live :: "Order \<Rightarrow> bool" where
  "live x \<longleftrightarrow> Status x \<in> {StatusPending, StatusPartial}"

text \<open>The fields matching never writes.\<close>

definition static :: "Order \<Rightarrow> Order" where
  "static x = x\<lparr>RemainingQuantity := 0, FilledQuantity := 0, Status := []\<rparr>"

lemma static_eqD:
  assumes "static x = static y"
  shows "ID x = ID y" "EventID x = EventID y" "UserID x = UserID y" "OrderType x = OrderType y"
    "Outcome x = Outcome y" "Side x = Side y" "Quantity x = Quantity y" "Price x = Price y"
    "LockedFunds x = LockedFunds y" "CreatedAt x = CreatedAt y"
  using assms by (cases x; cases y; simp add: static_def)+

lemma static_upd [simp]:
  "static (x\<lparr>RemainingQuantity := a\<rparr>) = static x" "static (x\<lparr>FilledQuantity := a\<rparr>) = static x"
  "static (x\<lparr>Status := s\<rparr>) = static x"
  by (simp_all add: static_def)

lemma static_fill [simp]: "static (fill q x) = static x"
  by (simp add: fill_def)

lemma static_restAfter [simp]: "static (restAfter q x) = static x"
  by (simp add: restAfter_def fill_def Let_def)

lemma fill_exact:
  assumes "order_wf x" and "0 \<le> q" and "q \<le> RemainingQuantity x"
  shows "fill q x = x\<lparr>RemainingQuantity := RemainingQuantity x - q, FilledQuantity := FilledQuantity x + q\<rparr>"
  using assms by (simp add: fill_def order_wf_def int64_def)

lemma fill_wf:
  assumes "order_wf x" and "0 \<le> q" and "q \<le> RemainingQuantity x"
  shows "order_wf (fill q x)"
  using assms by (simp add: fill_exact) (simp add: order_wf_def)

lemma restAfter_exact:
  assumes "order_wf x" and "0 \<le> q" and "q \<le> RemainingQuantity x"
  shows "restAfter q x = x\<lparr>RemainingQuantity := RemainingQuantity x - q,
    FilledQuantity := FilledQuantity x + q,
    Status := (if q = RemainingQuantity x then StatusFilled else StatusPartial)\<rparr>"
  using assms by (simp add: restAfter_def fill_exact Let_def)

lemma restAfter_wf:
  assumes "order_wf x" and "0 < q" and "q \<le> RemainingQuantity x" and "OrderType x = OrderTypeLimit"
  shows "order_wf (restAfter q x)" "status_ok (restAfter q x)"
    "Status (restAfter q x) \<in> {StatusPending, StatusPartial, StatusFilled}"
  using assms by (simp_all add: restAfter_exact) (simp_all add: order_wf_def status_ok_def)

section \<open>Cover\<close>

definition owed :: "Order \<Rightarrow> Trade list \<Rightarrow> int" where
  "owed x ts = (\<Sum>t\<leftarrow>ts. if ID x = OrderID t \<or> ID x = MatchOrderID t
     then if Side x = SideBuy then tradeCost t else tradeQuantity t else 0)"

definition cover :: "Order \<Rightarrow> int \<Rightarrow> bool" where
  "cover x n \<longleftrightarrow> n \<le> LockedFunds x
     \<and> (Status x \<in> {StatusPending, StatusPartial, StatusFilled} \<longrightarrow>
          (if Side x = SideBuy
           then OrderType x = OrderTypeLimit \<longrightarrow> RemainingQuantity x * Price x + n \<le> LockedFunds x
           else RemainingQuantity x + n = LockedFunds x))"

lemma owed_simps [simp]:
  "owed x [] = 0"
  "owed x (t # ts) = (if ID x = OrderID t \<or> ID x = MatchOrderID t
     then if Side x = SideBuy then tradeCost t else tradeQuantity t else 0) + owed x ts"
  "owed x (ts @ us) = owed x ts + owed x us"
  by (simp_all add: owed_def)

lemma owed_static: "static x = static y \<Longrightarrow> owed x ts = owed y ts"
  using static_eqD [of x y] by (simp add: owed_def cong: if_cong)

lemma owed_nonneg:
  "(\<And>t. t \<in> set ts \<Longrightarrow> 0 < tradeQuantity t \<and> 0 \<le> tradePrice t) \<Longrightarrow> 0 \<le> owed x ts"
  unfolding owed_def by (rule sum_list_nonneg) (auto simp: tradeCost_def less_imp_le)

text \<open>A pair as the trade records it: at the maker's price, between two users, within the taker's limit.\<close>

definition pairTrade :: "Order \<Rightarrow> Order \<Rightarrow> Trade \<Rightarrow> bool" where
  "pairTrade x y t \<longleftrightarrow> OrderID t = ID x \<and> MatchOrderID t = ID y
     \<and> tradeEventID t = EventID x \<and> tradeOutcome t = Outcome x \<and> TakerSide t = Side x
     \<and> BuyerID t = (if Side x = SideBuy then UserID x else UserID y)
     \<and> SellerID t = (if Side x = SideBuy then UserID y else UserID x)
     \<and> 0 < tradeQuantity t \<and> tradeQuantity t \<le> Quantity x \<and> tradeQuantity t \<le> Quantity y
     \<and> tradePrice t = Price y \<and> UserID y \<noteq> UserID x \<and> canMatch x y"

lemma canMatch_static:
  "static x = static x' \<Longrightarrow> static y = static y' \<Longrightarrow> canMatch x y = canMatch x' y'"
  using static_eqD [of x x'] static_eqD [of y y'] by (simp add: canMatch_def)

lemma pairTrade_static:
  "static x = static x' \<Longrightarrow> static y = static y' \<Longrightarrow> pairTrade x y t = pairTrade x' y' t"
  using static_eqD [of x x'] static_eqD [of y y'] canMatch_static [of x x' y y']
  by (simp add: pairTrade_def)

lemma buildTrade_pairTrade:
  assumes "order_wf x" "order_wf y" "0 < q" "q \<le> RemainingQuantity x" "q \<le> RemainingQuantity y"
    "UserID y \<noteq> UserID x" "canMatch x y"
  shows "pairTrade x y (buildTrade w n x y q)"
  using assms by (simp add: pairTrade_def buildTrade_def order_wf_def)

text \<open>The taker's side of one pair, and the maker's.\<close>

lemma cover_taker:
  assumes "cover x n" "order_wf x" "Status x = StatusPending" "0 < q" "q \<le> RemainingQuantity x"
    and "Side x = SideBuy \<Longrightarrow> OrderType x = OrderTypeLimit \<and> pr \<le> Price x" and "0 < pr"
  shows "cover (fill q x) (n + (if Side x = SideBuy then q * pr else q))"
proof (cases "Side x = SideBuy")
  case True
  have "q * pr \<le> q * Price x" "0 \<le> (RemainingQuantity x - q) * Price x"
    using True assms(2,4-6) by (simp_all add: mult_left_mono order_wf_def)
  moreover have "RemainingQuantity x * Price x + n \<le> LockedFunds x"
    using True assms(1,3,6) by (simp add: cover_def)
  ultimately have "n + q * pr \<le> LockedFunds x"
    "(RemainingQuantity x - q) * Price x + (n + q * pr) \<le> LockedFunds x"
    by (simp_all only: left_diff_distrib)
  with True assms(4,5) show ?thesis
    by (simp add: fill_exact [OF assms(2)] cover_def)
next
  case False
  with assms(1,3-5) show ?thesis
    by (simp add: fill_exact [OF assms(2)] cover_def)
qed

lemma cover_maker:
  assumes "cover y n" "order_wf y" "live y" "0 < q" "q \<le> RemainingQuantity y" "OrderType y = OrderTypeLimit"
  shows "cover (restAfter q y) (n + (if Side y = SideBuy then q * Price y else q))"
proof -
  have "0 \<le> (RemainingQuantity y - q) * Price y"
    using assms(2,5,6) by (simp add: order_wf_def)
  then show ?thesis
    using assms
    by (simp add: restAfter_exact live_def) (auto simp: cover_def left_diff_distrib)
qed

section \<open>The loop\<close>

text \<open>
  \<open>match_setup T h p rs\<close>: order \<open>p\<close> is about to be matched against the side \<open>rs\<close> of its book, in the order
  table \<open>T\<close> and the store \<open>h\<close>.
\<close>

definition maker_ok :: "(string \<rightharpoonup> ptr) \<Rightarrow> (ptr \<Rightarrow> Order) \<Rightarrow> Order \<Rightarrow> ptr \<Rightarrow> bool" where
  "maker_ok T h x r \<longleftrightarrow> T (ID (h r)) = Some r \<and> order_wf (h r) \<and> status_ok (h r) \<and> live (h r)
     \<and> OrderType (h r) = OrderTypeLimit \<and> 0 < RemainingQuantity (h r)
     \<and> EventID (h r) = EventID x \<and> Outcome (h r) = Outcome x
     \<and> Side (h r) = (if Side x = SideBuy then SideSell else SideBuy) \<and> cover (h r) 0"

definition match_setup :: "(string \<rightharpoonup> ptr) \<Rightarrow> (ptr \<Rightarrow> Order) \<Rightarrow> ptr \<Rightarrow> ptr list \<Rightarrow> bool" where
  "match_setup T h p rs \<longleftrightarrow> distinct rs \<and> p \<notin> set rs \<and> T (ID (h p)) = Some p \<and> order_wf (h p)
     \<and> Status (h p) = StatusPending \<and> FilledQuantity (h p) = 0 \<and> cover (h p) 0
     \<and> (\<forall>r\<in>set rs. maker_ok T h (h p) r)"

definition marketBuy :: "Order \<Rightarrow> bool" where
  "marketBuy x \<longleftrightarrow> OrderType x = OrderTypeMarket \<and> Side x = SideBuy"

definition loop_ok ::
    "(ptr \<Rightarrow> Order) \<Rightarrow> ptr \<Rightarrow> ptr list \<Rightarrow> (ptr \<Rightarrow> Order) \<Rightarrow> ptr list \<Rightarrow> Trade list \<Rightarrow> bool" where
  "loop_ok h0 p rs h items ts \<longleftrightarrow>
     (\<forall>q. static (h q) = static (h0 q)) \<and> (\<forall>q. q \<noteq> p \<longrightarrow> q \<notin> set rs \<longrightarrow> h q = h0 q)
     \<and> order_wf (h p) \<and> Status (h p) = StatusPending \<and> FilledQuantity (h p) = (\<Sum>t\<leftarrow>ts. tradeQuantity t)
     \<and> (marketBuy (h0 p) \<or> cover (h p) (owed (h p) ts))
     \<and> items = filter (\<lambda>r. 0 < RemainingQuantity (h r)) rs
     \<and> (\<forall>r\<in>set rs. order_wf (h r) \<and> status_ok (h r) \<and> (live (h r) \<or> Status (h r) = StatusFilled)
          \<and> cover (h r) (owed (h r) ts))
     \<and> (\<forall>t\<in>set ts. \<exists>r\<in>set rs. pairTrade (h0 p) (h0 r) t)"

lemma loop_start: "match_setup T h p rs \<Longrightarrow> loop_ok h p rs h rs []"
  by (simp add: match_setup_def loop_ok_def maker_ok_def)

lemma removeOrderIndex_distinct:
  assumes "distinct xs" and "i < length xs"
  shows "removeOrderIndex xs i = filter (\<lambda>y. y \<noteq> xs ! i) xs"
proof -
  have xs: "xs = take i xs @ xs ! i # drop (Suc i) xs"
    using assms(2) by (rule id_take_nth_drop)
  have "distinct (take i xs @ xs ! i # drop (Suc i) xs)" using assms(1) xs by simp
  then have "xs ! i \<notin> set (take i xs)" "xs ! i \<notin> set (drop (Suc i) xs)" by auto
  then have "filter (\<lambda>y. y \<noteq> xs ! i) (take i xs) = take i xs"
    "filter (\<lambda>y. y \<noteq> xs ! i) (drop (Suc i) xs) = drop (Suc i) xs"
    by (auto simp: filter_id_conv)
  then have "filter (\<lambda>y. y \<noteq> xs ! i) (take i xs @ xs ! i # drop (Suc i) xs) = take i xs @ drop (Suc i) xs"
    by simp
  then show ?thesis using xs by (simp add: removeOrderIndex_def)
qed

text \<open>
  The trades of other orders do not count: registered orders have different ids.
\<close>

lemma pair_items:
  assumes su: "match_setup T h0 p rs" and r: "order_wf (h r)" "0 < RemainingQuantity (h r)" and q: "0 < q" "q \<le> RemainingQuantity (h r)"
  shows "filter (\<lambda>y. 0 < RemainingQuantity ((h(p := x, r := restAfter q (h r))) y)) rs =
    (if q = RemainingQuantity (h r) then filter (\<lambda>y. y \<noteq> r) (filter (\<lambda>y. 0 < RemainingQuantity (h y)) rs)
     else filter (\<lambda>y. 0 < RemainingQuantity (h y)) rs)"
proof -
  have "0 < RemainingQuantity ((h(p := x, r := restAfter q (h r))) y) \<longleftrightarrow>
      0 < RemainingQuantity (h y) \<and> (q = RemainingQuantity (h r) \<longrightarrow> y \<noteq> r)" if "y \<in> set rs" for y
    using that su q r by (cases "y = r") (auto simp: match_setup_def restAfter_exact)
  then have "filter (\<lambda>y. 0 < RemainingQuantity ((h(p := x, r := restAfter q (h r))) y)) rs =
      filter (\<lambda>y. 0 < RemainingQuantity (h y) \<and> (q = RemainingQuantity (h r) \<longrightarrow> y \<noteq> r)) rs"
    by (rule filter_cong [OF refl])
  then show ?thesis by (simp add: conj_commute)
qed

text \<open>The pair's trade charges the two orders it names and no other.\<close>

lemma pair_owed:
  assumes su: "match_setup T h0 p rs" and st: "\<And>q. static (h q) = static (h0 q)" and r: "r \<in> set rs"
    and x: "x = p \<or> x \<in> set rs" and h': "static y = static (h x)"
  shows "owed y (ts @ [buildTrade w n (h p) (h r) q]) =
    owed (h x) ts + (if x = p \<or> x = r then if Side (h x) = SideBuy then q * Price (h r) else q else 0)"
proof -
  have "T (ID (h x)) = Some x" "T (ID (h p)) = Some p" "T (ID (h r)) = Some r"
    using su x r static_eqD(1) [OF st] by (auto simp: match_setup_def maker_ok_def)
  then have "ID (h x) = ID (h p) \<longleftrightarrow> x = p" "ID (h x) = ID (h r) \<longleftrightarrow> x = r" by (metis option.inject)+
  then have "owed (h x) [buildTrade w n (h p) (h r) q] =
      (if x = p \<or> x = r then if Side (h x) = SideBuy then q * Price (h r) else q else 0)"
    by (simp add: buildTrade_def tradeCost_def)
  then show ?thesis by (simp only: owed_simps(3) owed_static [OF h'])
qed

lemma loop_pair:
  assumes su: "match_setup T h0 p rs" and ok: "loop_ok h0 p rs h items ts"
    and rem: "0 < RemainingQuantity (h p)" and r: "r \<in> set items"
    and u: "UserID (h r) \<noteq> UserID (h p)" and cm: "canMatch (h p) (h r)"
    and q: "0 < q" "q \<le> RemainingQuantity (h p)" "q \<le> RemainingQuantity (h r)"
  shows "loop_ok h0 p rs (h(p := fill q (h p), r := restAfter q (h r)))
    (if q = RemainingQuantity (h r) then filter (\<lambda>y. y \<noteq> r) items else items)
    (ts @ [buildTrade w n (h p) (h r) q])"
proof -
  let ?h = "h(p := fill q (h p), r := restAfter q (h r))" and ?t = "buildTrade w n (h p) (h r) q"
  have st: "static (h q) = static (h0 q)" for q using ok by (simp add: loop_ok_def)
  note sp = static_eqD [OF st [of p]] and sr = static_eqD [OF st [of r]]
  have rr: "r \<in> set rs" "order_wf (h r)" "cover (h r) (owed (h r) ts)" "0 < RemainingQuantity (h r)"
    and wp: "order_wf (h p)" "Status (h p) = StatusPending"
    using ok r by (auto simp: loop_ok_def)
  have lv: "live (h r)" using ok rr(1,4) by (auto simp: loop_ok_def status_ok_def live_def)
  have mk: "maker_ok T h0 (h0 p) r" and rp: "r \<noteq> p" using su rr(1) by (auto simp: match_setup_def)
  then have lim: "OrderType (h r) = OrderTypeLimit" and sd: "Side (h r) = (if Side (h p) = SideBuy then SideSell else SideBuy)"
    and oc: "Outcome (h r) = Outcome (h p)"
    using sp sr by (simp_all add: maker_ok_def)
  have pr: "0 < Price (h r)" using rr(2) lim by (simp add: order_wf_def)
  have st': "static (?h q) = static (h q)" for q by simp
  note ow = pair_owed [OF su st rr(1) _ st', of _ ts w n q]
  have "cover (?h p) (owed (?h p) (ts @ [?t]))" if "\<not> marketBuy (h0 p)"
  proof -
    have "cover (h p) (owed (h p) ts)" using ok that by (simp add: loop_ok_def)
    then have "cover (fill q (h p)) (owed (h p) ts + (if Side (h p) = SideBuy then q * Price (h r) else q))"
    proof (rule cover_taker)
      assume "Side (h p) = SideBuy"
      with that wp(1) cm oc sp show "OrderType (h p) = OrderTypeLimit \<and> Price (h r) \<le> Price (h p)"
        by (auto simp: marketBuy_def order_wf_def canMatch_def split: if_splits)
    qed (use wp q pr in simp_all)
    then show ?thesis using ow [of p] rp by simp
  qed
  moreover have "order_wf (?h x) \<and> status_ok (?h x) \<and> (live (?h x) \<or> Status (?h x) = StatusFilled)
      \<and> cover (?h x) (owed (?h x) (ts @ [?t]))" if x: "x \<in> set rs" for x
  proof (cases "x = r")
    case True
    have "cover (restAfter q (h r)) (owed (h r) ts + (if Side (h r) = SideBuy then q * Price (h r) else q))"
      using rr(3,2) lv q(1,3) lim by (rule cover_maker)
    with True ow [of r] rr(1) restAfter_wf [OF rr(2) q(1,3) lim] show ?thesis
      by (simp add: live_def)
  next
    case False
    with su x have "x \<noteq> p" by (auto simp: match_setup_def)
    with False ow [of x] x ok show ?thesis by (simp add: loop_ok_def)
  qed
  moreover have "(if q = RemainingQuantity (h r) then filter (\<lambda>y. y \<noteq> r) items else items) =
      filter (\<lambda>y. 0 < RemainingQuantity (?h y)) rs"
    using ok pair_items [where h = h and r = r and x = "fill q (h p)", OF su rr(2,4) q(1,3)] by (simp add: loop_ok_def)
  moreover have "\<forall>t\<in>set (ts @ [?t]). \<exists>r\<in>set rs. pairTrade (h0 p) (h0 r) t"
    using ok rr(1) buildTrade_pairTrade [OF wp(1) rr(2) q u cm] pairTrade_static [OF st [of p] st [of r]]
    by (simp add: loop_ok_def) blast
  moreover have "order_wf (?h p)" "Status (?h p) = StatusPending"
    using rp wp fill_wf [OF wp(1) _ q(2)] q(1) by (simp_all add: fill_def)
  moreover have "FilledQuantity (?h p) = (\<Sum>t\<leftarrow>ts @ [?t]. tradeQuantity t)"
    using ok rp q(1,2) by (simp add: fill_exact [OF wp(1)] loop_ok_def buildTrade_def)
  moreover have "\<forall>q. q \<noteq> p \<longrightarrow> q \<notin> set rs \<longrightarrow> ?h q = h0 q"
    using ok rr(1) by (auto simp: loop_ok_def)
  ultimately show ?thesis
    using st unfolding loop_ok_def by (simp only: st' simp_thms) blast
qed

lemma loop_ok_prune:
  assumes "loop_ok h0 p rs (heap e) items ts"
  shows "dropWhile (invalidFront e) items = items"
proof -
  have "\<not> invalidFront e r" if "r \<in> set items" for r
    using assms that by (auto simp: loop_ok_def invalidFront_def live_def status_ok_def)
  then show ?thesis by (cases items) simp_all
qed

lemma matchSide_loop_ok:
  assumes su: "match_setup (orders e) (heap e) p rs" and run: "matchSide w e rs p [] = (e', items, ts)"
  shows "loop_ok (heap e) p rs (heap e') items ts" and "\<exists>h n. e' = e\<lparr>heap := h, tick := n\<rparr>"
proof -
  from run have "loop_ok (heap e) p rs (heap e') items ts \<and> (\<exists>h n. e' = e\<lparr>heap := h, tick := n\<rparr>)"
  proof (rule matchSide_rule [where P = "\<lambda>e1 items1 ts1. loop_ok (heap e) p rs (heap e1) items1 ts1
      \<and> (\<exists>h n. e1 = e\<lparr>heap := h, tick := n\<rparr>)"], goal_cases)
    case 1
    have "e = e\<lparr>heap := heap e, tick := tick e\<rparr>" by simp
    with loop_start [OF su] show ?case by blast
  next
    case (2 e1 items1 ts1)
    then have "dropWhile (invalidFront e1) items1 = items1" by (blast intro: loop_ok_prune)
    with 2 show ?case by (simp only:)
  next
    case (3 e1 items1 ts1 i)
    let ?r = "items1 ! i"
    have ok: "loop_ok (heap e) p rs (heap e1) items1 ts1" and el: "eligible e1 p ?r"
      using 3 by blast+
    then have rem: "0 < RemainingQuantity (heap e1 ?r)" and rp: "?r \<in> set items1"
      using 3 by (simp_all add: eligible_def)
    note q = pairQuantity_bounds(1-3) [OF 3(2) rem]
    have wr: "order_wf (heap e1 ?r)" and d: "distinct items1"
      using ok rp su by (auto simp: loop_ok_def match_setup_def)
    have "RemainingQuantity (fill (pairQuantity e1 p ?r) (heap e1 ?r)) \<le> 0 \<longleftrightarrow>
        pairQuantity e1 p ?r = RemainingQuantity (heap e1 ?r)"
      using q by (auto simp: fill_exact [OF wr])
    moreover have "loop_ok (heap e) p rs
        ((heap e1)(p := fill (pairQuantity e1 p ?r) (heap e1 p), ?r := restAfter (pairQuantity e1 p ?r) (heap e1 ?r)))
        (if pairQuantity e1 p ?r = RemainingQuantity (heap e1 ?r) then filter (\<lambda>y. y \<noteq> ?r) items1 else items1)
        (ts1 @ [buildTrade w (tick e1) (heap e1 p) (heap e1 ?r) (pairQuantity e1 p ?r)])"
      using el by (intro loop_pair [OF su ok 3(2) rp]) (simp_all add: eligible_def q)
    moreover obtain h n where "e1 = e\<lparr>heap := h, tick := n\<rparr>" using 3 by blast
    then have "e1\<lparr>heap := h', tick := n'\<rparr> = e\<lparr>heap := h', tick := n'\<rparr>" for h' n' by simp
    ultimately show ?case
      by (intro conjI exI) (simp_all add: removeOrderIndex_distinct [OF d 3(3)] split: if_splits)
  qed
  then show "loop_ok (heap e) p rs (heap e') items ts" "\<exists>h n. e' = e\<lparr>heap := h, tick := n\<rparr>" by blast+
qed

section \<open>Settlement\<close>

definition covered :: "Engine \<Rightarrow> Trade list \<Rightarrow> bool" where
  "covered e ts \<longleftrightarrow> (\<forall>i p. orders e i = Some p \<longrightarrow> cover (heap e p) (owed (heap e p) ts))"

definition table_ok :: "Engine \<Rightarrow> bool" where
  "table_ok e \<longleftrightarrow> (\<forall>i p. orders e i = Some p \<longrightarrow> p < nextPtr e \<and> ID (heap e p) = i)"

text \<open>The field settlement writes.\<close>

definition unlocked :: "Order \<Rightarrow> Order" where
  "unlocked x = x\<lparr>LockedFunds := 0\<rparr>"

lemma unlocked_eqD:
  assumes "unlocked x = unlocked y"
  shows "ID x = ID y" "EventID x = EventID y" "UserID x = UserID y" "OrderType x = OrderType y"
    "Outcome x = Outcome y" "Side x = Side y" "Quantity x = Quantity y" "Price x = Price y"
    "FilledQuantity x = FilledQuantity y" "RemainingQuantity x = RemainingQuantity y"
    "Status x = Status y" "CreatedAt x = CreatedAt y"
  using assms by (cases x; cases y; simp add: unlocked_def)+

lemma settle_covered:
  assumes ok: "ledger_ok e" and tb: "table_ok e" and cv: "covered e (t # ts)" and pt: "parties e t b s"
    and pos: "\<And>x. 0 \<le> owed x ts"
  shows "ledger_ok (settleTradeLocked e t)" "totalCash (settleTradeLocked e t) = totalCash e"
    "totalShares (settleTradeLocked e t) = totalShares e" "covered (settleTradeLocked e t) ts"
    "\<And>q. unlocked (heap (settleTradeLocked e t) q) = unlocked (heap e q)
      \<and> LockedFunds (heap (settleTradeLocked e t) q) \<le> LockedFunds (heap e q)"
proof -
  from pt tb have id: "{ID (heap e b), ID (heap e s)} = {OrderID t, MatchOrderID t}"
    and side: "Side (heap e b) = SideBuy" "Side (heap e s) = SideSell"
    and reg: "orders e (ID (heap e b)) = Some b" "orders e (ID (heap e s)) = Some s"
    by (auto simp: parties_def table_ok_def)
  have cb: "tradeCost t \<le> LockedFunds (heap e b)" and cs: "tradeQuantity t \<le> LockedFunds (heap e s)"
    using cv reg id side pos [of "heap e b"] pos [of "heap e s"]
    by (fastforce simp: covered_def cover_def doubleton_eq_iff)+
  note st = ledger_ok_settle [OF ok pt cb cs]
  show "ledger_ok (settleTradeLocked e t)" "totalCash (settleTradeLocked e t) = totalCash e"
    "totalShares (settleTradeLocked e t) = totalShares e"
    by (rule st(1-3))+
  have "0 \<le> tradeCost t" "0 \<le> tradeQuantity t" using pt by (simp_all add: parties_def tradeCost_def)
  then show "unlocked (heap (settleTradeLocked e t) q) = unlocked (heap e q)
      \<and> LockedFunds (heap (settleTradeLocked e t) q) \<le> LockedFunds (heap e q)" for q
    by (simp add: st(4) unlocked_def)
  show "covered (settleTradeLocked e t) ts"
    unfolding covered_def settleTradeLocked_frame
  proof (intro allI impI)
    fix i q
    assume q: "orders e i = Some q"
    with cv have c: "cover (heap e q) (owed (heap e q) (t # ts))" by (simp add: covered_def)
    have i: "ID (heap e q) = i" using q tb by (simp add: table_ok_def)
    have ow: "owed (x\<lparr>LockedFunds := n\<rparr>) ts = owed x ts" for x n
      by (simp add: owed_def cong: if_cong)
    consider "q = b" | "q = s" | "q \<noteq> b" "q \<noteq> s" by blast
    then show "cover (heap (settleTradeLocked e t) q) (owed (heap (settleTradeLocked e t) q) ts)"
    proof cases
      case 3
      then have "i \<notin> {OrderID t, MatchOrderID t}" using q reg id by (metis insertE option.inject singletonD)
      with 3 c i show ?thesis by (simp add: st(4))
    qed (use c id side in \<open>auto simp: st(4) cover_def ow doubleton_eq_iff\<close>)
  qed
qed

lemma foldl_settle:
  "ledger_ok e \<Longrightarrow> table_ok e \<Longrightarrow> covered e ts \<Longrightarrow> (\<forall>t\<in>set ts. \<exists>b s. parties e t b s) \<Longrightarrow>
   ledger_ok (foldl settleTradeLocked e ts) \<and> totalCash (foldl settleTradeLocked e ts) = totalCash e
   \<and> totalShares (foldl settleTradeLocked e ts) = totalShares e \<and> covered (foldl settleTradeLocked e ts) []
   \<and> (\<forall>q. unlocked (heap (foldl settleTradeLocked e ts) q) = unlocked (heap e q)
        \<and> LockedFunds (heap (foldl settleTradeLocked e ts) q) \<le> LockedFunds (heap e q))"
proof (induction ts arbitrary: e)
  case Nil
  then show ?case by simp
next
  case (Cons t ts)
  from Cons.prems(4) obtain b s where pt: "parties e t b s" by auto
  have pos: "0 \<le> owed x ts" for x
    using Cons.prems(4) by (intro owed_nonneg) (auto simp: parties_def)
  note st = settle_covered [OF Cons.prems(1-3) pt pos]
  note un = unlocked_eqD [OF conjunct1 [OF st(5)]]
  have "table_ok (settleTradeLocked e t)"
    using Cons.prems(2) un(1) by (simp add: table_ok_def)
  moreover have "\<forall>t'\<in>set ts. \<exists>b s. parties (settleTradeLocked e t) t' b s"
    using Cons.prems(4) un by (simp add: parties_def)
  ultimately have ih: "ledger_ok (foldl settleTradeLocked (settleTradeLocked e t) ts)
      \<and> totalCash (foldl settleTradeLocked (settleTradeLocked e t) ts) = totalCash (settleTradeLocked e t)
      \<and> totalShares (foldl settleTradeLocked (settleTradeLocked e t) ts) = totalShares (settleTradeLocked e t)
      \<and> covered (foldl settleTradeLocked (settleTradeLocked e t) ts) []
      \<and> (\<forall>q. unlocked (heap (foldl settleTradeLocked (settleTradeLocked e t) ts) q) =
              unlocked (heap (settleTradeLocked e t) q)
            \<and> LockedFunds (heap (foldl settleTradeLocked (settleTradeLocked e t) ts) q)
              \<le> LockedFunds (heap (settleTradeLocked e t) q))"
    by (rule Cons.IH [OF st(1) _ st(4)])
  then show ?case
    using st(2,3,5) by (simp only: foldl_Cons) (meson order_trans)
qed

lemma foldl_settle_frame [simp]:
  "markets (foldl settleTradeLocked e ts) = markets e" "orders (foldl settleTradeLocked e ts) = orders e"
  "nextPtr (foldl settleTradeLocked e ts) = nextPtr e" "tick (foldl settleTradeLocked e ts) = tick e"
  "replaying (foldl settleTradeLocked e ts) = replaying e"
  by (induction ts arbitrary: e) simp_all

end
