(* ===== verification/Engine_Inv.thy ===== *)
theory Engine_Inv
  imports Match_Inv
begin

text \<open>
  The invariant of the engine between two locked sections, \<open>inv e F\<close>, and its preservation by each of
  them. \<open>F\<close> is the set of orders in flight: entered in the table by \<^const>\<open>admitOrder\<close> and not yet
  matched. The invariant says that the ledger is backed, that every order is well-formed and covered
  by what it has locked, that each book lists exactly the live orders that are not in flight, in
  priority order, and that a canceled order has nothing locked.
\<close>

section \<open>Books by key\<close>

definition bookList :: "(string \<rightharpoonup> Market) \<Rightarrow> string \<Rightarrow> string \<Rightarrow> string \<Rightarrow> ptr list" where
  "bookList ms ev oc sd =
     (case ms ev of None \<Rightarrow> []
      | Some m \<Rightarrow> (case Book m oc of None \<Rightarrow> []
          | Some b \<Rightarrow> if sd = SideBuy then Bids b else Asks b))"

definition prio :: "string \<Rightarrow> Order \<Rightarrow> int" where
  "prio sd x = (if sd = SideBuy then - Price x else Price x)"

definition opposite :: "string \<Rightarrow> string" where
  "opposite sd = (if sd = SideBuy then SideSell else SideBuy)"

lemma bookList_setBook:
  assumes "ms ev = Some m" and "Book m oc = Some b"
  shows "bookList (ms(ev \<mapsto> setBook m oc b')) ev' oc' sd =
    (if ev' = ev \<and> oc' = oc then if sd = SideBuy then Bids b' else Asks b' else bookList ms ev' oc' sd)"
  using assms by (simp add: bookList_def Book_setBook)

section \<open>The locked section of matching, step by step\<close>

definition finalStatus :: "Order \<Rightarrow> string" where
  "finalStatus x = (if RemainingQuantity x = 0 then StatusFilled
     else if OrderType x = OrderTypeMarket then StatusCanceled
     else if 0 < FilledQuantity x then StatusPartial else StatusPending)"

definition rests :: "Order \<Rightarrow> bool" where
  "rests x \<longleftrightarrow> RemainingQuantity x \<noteq> 0 \<and> OrderType x = OrderTypeLimit"

lemma restOrFinish_eq:
  assumes "order_wf (heap e p)"
  shows "restOrFinish e b p =
    (setStatus e p (finalStatus (heap e p)),
     if rests (heap e p) then addToBook (setStatus e p (finalStatus (heap e p))) b p else b)"
  using assms
  by (simp add: restOrFinish_def Let_def finalStatus_def rests_def order_wf_def) auto

text \<open>The books after an order with side \<open>sd\<close> has been matched: what is left opposite, and the order itself.\<close>

definition newBooks ::
    "(string \<rightharpoonup> Market) \<Rightarrow> (ptr \<Rightarrow> Order) \<Rightarrow> ptr \<Rightarrow> ptr list \<Rightarrow> string \<Rightarrow> string \<Rightarrow> string \<Rightarrow> ptr list" where
  "newBooks ms h p items ev oc sd =
     (if ev = EventID (h p) \<and> oc = Outcome (h p) then
        if sd \<noteq> Side (h p) then items
        else if rests (h p) then sort_key (\<lambda>r. prio sd (h r)) (bookList ms ev oc sd @ [p])
        else bookList ms ev oc sd
      else bookList ms ev oc sd)"

lemma matchOrderLocked_steps:
  assumes wf: "order_wf (heap e p)" and live: "Status (heap e p) \<noteq> StatusCanceled"
    and m: "markets e (EventID (heap e p)) = Some m"
    and run: "matchSide w e (bookList (markets e) (EventID (heap e p)) (Outcome (heap e p))
        (opposite (Side (heap e p)))) p [] = (e1, items, ts)"
    and st: "static (heap e1 p) = static (heap e p)" and wf1: "order_wf (heap e1 p)"
    and fr: "e1 = e\<lparr>heap := h1, tick := n1\<rparr>"
  obtains ms e3 where
    "e3 = foldl settleTradeLocked (e1\<lparr>heap := (heap e1)(p := (heap e1 p)\<lparr>Status := finalStatus (heap e1 p)\<rparr>),
        markets := ms\<rparr>) ts"
    "\<And>ev oc sd. sd \<in> {SideBuy, SideSell} \<Longrightarrow> bookList ms ev oc sd = newBooks (markets e) (heap e1) p items ev oc sd"
    "\<And>ev. ms ev = None \<longleftrightarrow> markets e ev = None"
    "matchOrderLocked w e p =
       (if Status (heap e3 p) = StatusFilled \<or> Status (heap e3 p) = StatusCanceled
        then releaseOrderLocked e3 p else e3, Some ts)"
proof -
  let ?x = "heap e1 p" and ?ev = "EventID (heap e p)" and ?oc = "Outcome (heap e p)"
  obtain b where b: "Book m ?oc = Some b" using wf Book_Some_iff [of m ?oc] by (auto simp: order_wf_def)
  note s = static_eqD [OF st]
  have sd: "Side (heap e p) \<in> {SideBuy, SideSell}" using wf by (simp add: order_wf_def)
  have run': "matchAgainstBook w e b p [] = (e1, putOpposite e p items b, ts)"
    using run sd m b by (simp add: matchAgainstBook_eq oppositeSide_def bookList_def opposite_def split: if_splits)
  let ?e2 = "setStatus e1 p (finalStatus ?x)"
  let ?b2 = "if rests ?x then addToBook ?e2 (putOpposite e p items b) p else putOpposite e p items b"
  let ?ms = "(markets e)(?ev \<mapsto> setBook m ?oc ?b2)"
  let ?e3 = "foldl settleTradeLocked (e1\<lparr>heap := (heap e1)(p := ?x\<lparr>Status := finalStatus ?x\<rparr>), markets := ?ms\<rparr>) ts"
  have hp: "heap ?e2 = (heap e1)(p := ?x\<lparr>Status := finalStatus ?x\<rparr>)" by (simp add: setStatus_def setOrder_def)
  have pr: "Price (heap ?e2 r) = Price (heap e1 r)" "Side (heap ?e2 p) = Side (heap e p)" for r
    by (simp_all add: hp s(6))
  have old: "bookList (markets e) ?ev ?oc sd = (if sd = SideBuy then Bids b else Asks b)" for sd
    by (simp add: bookList_def m b)
  have bl: "bookList ?ms ev oc sd = newBooks (markets e) (heap e1) p items ev oc sd"
    if "sd \<in> {SideBuy, SideSell}" for ev oc sd
  proof (cases "ev = ?ev \<and> oc = ?oc")
    case True
    then have "bookList ?ms ev oc sd = (if sd = SideBuy then Bids ?b2 else Asks ?b2)"
      by (subst bookList_setBook [where ms = "markets e", OF m b]) (simp only: if_True simp_thms)
    also have "\<dots> =
        (if sd \<noteq> Side (heap e p) then items
         else if rests ?x then sort_key (\<lambda>r. prio sd (heap e1 r)) (bookList (markets e) ?ev ?oc sd @ [p])
         else bookList (markets e) ?ev ?oc sd)"
      using that sd by (auto simp: putOpposite_def addToBook_def prio_def pr old s(6))
    also have "\<dots> = newBooks (markets e) (heap e1) p items ev oc sd"
      using True by (simp add: newBooks_def s(2,5,6))
    finally show ?thesis .
  next
    case False
    then show ?thesis
      unfolding newBooks_def s(2,5) bookList_setBook [where ms = "markets e", OF m b] by (simp only: if_False)
  qed
  have "markets ?e2 = markets e" by (simp add: setStatus_def setOrder_def fr)
  then have "matchOrderLocked w e p =
      (if Status (heap ?e3 p) = StatusFilled \<or> Status (heap ?e3 p) = StatusCanceled
       then releaseOrderLocked ?e3 p else ?e3, Some ts)"
    using live m b run' s(2,5) by (simp add: matchOrderLocked_def restOrFinish_eq [OF wf1] hp)
      (simp add: setStatus_def setOrder_def)
  moreover have "?ms ev = None \<longleftrightarrow> markets e ev = None" for ev using m by simp
  ultimately show thesis using bl by (intro that) blast+
qed

section \<open>The invariant\<close>

definition resting :: "Engine \<Rightarrow> ptr \<Rightarrow> string \<Rightarrow> string \<Rightarrow> string \<Rightarrow> bool" where
  "resting e r ev oc sd \<longleftrightarrow> r < nextPtr e \<and> orders e (ID (heap e r)) = Some r
     \<and> EventID (heap e r) = ev \<and> Outcome (heap e r) = oc \<and> Side (heap e r) = sd
     \<and> OrderType (heap e r) = OrderTypeLimit \<and> live (heap e r) \<and> 0 < RemainingQuantity (heap e r)"

definition book_ok :: "Engine \<Rightarrow> string \<Rightarrow> string \<Rightarrow> string \<Rightarrow> bool" where
  "book_ok e ev oc sd \<longleftrightarrow> distinct (bookList (markets e) ev oc sd)
     \<and> sorted (map (\<lambda>r. prio sd (heap e r)) (bookList (markets e) ev oc sd))
     \<and> (\<forall>r\<in>set (bookList (markets e) ev oc sd). resting e r ev oc sd)"

definition booked :: "Engine \<Rightarrow> ptr \<Rightarrow> bool" where
  "booked e p \<longleftrightarrow> p \<in> set (bookList (markets e) (EventID (heap e p)) (Outcome (heap e p)) (Side (heap e p)))"

definition orders_ok :: "Engine \<Rightarrow> bool" where
  "orders_ok e \<longleftrightarrow> table_ok e
     \<and> (\<forall>p<nextPtr e. order_wf (heap e p) \<and> status_ok (heap e p) \<and> markets e (EventID (heap e p)) \<noteq> None)"

definition flight_ok :: "Engine \<Rightarrow> ptr set \<Rightarrow> bool" where
  "flight_ok e F \<longleftrightarrow>
     (\<forall>p\<in>F. orders e (ID (heap e p)) = Some p \<and> Status (heap e p) \<in> {StatusPending, StatusCanceled}
        \<and> \<not> booked e p)
     \<and> (\<forall>i p. orders e i = Some p \<longrightarrow> p \<notin> F \<longrightarrow> live (heap e p) \<longrightarrow> booked e p)"

definition struct_ok :: "Engine \<Rightarrow> ptr set \<Rightarrow> bool" where
  "struct_ok e F \<longleftrightarrow> orders_ok e \<and> (\<forall>ev oc. book_ok e ev oc SideBuy \<and> book_ok e ev oc SideSell) \<and> flight_ok e F"

definition released :: "Engine \<Rightarrow> bool" where
  "released e \<longleftrightarrow> (\<forall>i p. orders e i = Some p \<longrightarrow> Status (heap e p) = StatusCanceled \<longrightarrow> LockedFunds (heap e p) = 0)"

definition inv :: "Engine \<Rightarrow> ptr set \<Rightarrow> bool" where
  "inv e F \<longleftrightarrow> ledger_ok e \<and> struct_ok e F \<and> covered e [] \<and> released e"

text \<open>The structure does not depend on what is locked.\<close>

lemma unlocked_preds:
  assumes "unlocked x = unlocked y"
  shows "order_wf x = order_wf y" "status_ok x = status_ok y" "live x = live y" "prio sd x = prio sd y"
  using unlocked_eqD [OF assms] by (simp_all add: order_wf_def status_ok_def live_def prio_def)

lemma struct_ok_cong:
  assumes "markets e' = markets e" "orders e' = orders e" "nextPtr e' = nextPtr e"
    and h: "\<And>q. unlocked (heap e' q) = unlocked (heap e q)"
  shows "struct_ok e' F = struct_ok e F"
proof -
  note f = unlocked_eqD [OF h] unlocked_preds [OF h]
  have "orders_ok e' = orders_ok e" by (simp add: orders_ok_def table_ok_def assms f)
  moreover have "book_ok e' = book_ok e" by (simp add: fun_eq_iff book_ok_def resting_def assms f)
  moreover have "flight_ok e' F = flight_ok e F" by (simp add: flight_ok_def booked_def assms f)
  ultimately show ?thesis by (simp add: struct_ok_def)
qed

lemma order_positive_remaining: "order_wf x \<Longrightarrow> status_ok x \<Longrightarrow> live x \<Longrightarrow> 0 < RemainingQuantity x"
  by (auto simp: order_wf_def status_ok_def live_def)

lemma finalStatus_ok:
  assumes "order_wf x" and "Status x = StatusPending"
  shows "order_wf (x\<lparr>Status := finalStatus x\<rparr>)" "status_ok (x\<lparr>Status := finalStatus x\<rparr>)"
    "live (x\<lparr>Status := finalStatus x\<rparr>) = rests x"
    "finalStatus x \<in> {StatusFilled, StatusCanceled} \<longleftrightarrow> \<not> rests x"
  using assms by (auto simp: order_wf_def status_ok_def live_def rests_def finalStatus_def)

lemma covered_NilD: "covered e [] \<Longrightarrow> orders e i = Some p \<Longrightarrow> cover (heap e p) 0"
  by (simp add: covered_def)

lemma table_okD: "table_ok e \<Longrightarrow> orders e i = Some p \<Longrightarrow> p < nextPtr e \<and> ID (heap e p) = i"
  by (simp add: table_ok_def)

lemma struct_setup:
  assumes st: "struct_ok e F" and cv: "covered e []" and p: "p \<in> F" and live: "Status (heap e p) \<noteq> StatusCanceled"
  shows "match_setup (orders e) (heap e) p
    (bookList (markets e) (EventID (heap e p)) (Outcome (heap e p)) (opposite (Side (heap e p))))"
proof -
  let ?rs = "bookList (markets e) (EventID (heap e p)) (Outcome (heap e p)) (opposite (Side (heap e p)))"
  have reg: "orders e (ID (heap e p)) = Some p" and sp: "Status (heap e p) = StatusPending"
    using st p live by (auto simp: struct_ok_def flight_ok_def)
  then have lt: "p < nextPtr e" using st by (auto simp: struct_ok_def orders_ok_def table_ok_def)
  then have wf: "order_wf (heap e p)" "status_ok (heap e p)" using st by (auto simp: struct_ok_def orders_ok_def)
  have bk: "book_ok e (EventID (heap e p)) (Outcome (heap e p)) (opposite (Side (heap e p)))"
    using st by (simp add: struct_ok_def opposite_def)
  have "maker_ok (orders e) (heap e) (heap e p) r" if "r \<in> set ?rs" for r
  proof -
    have rs: "resting e r (EventID (heap e p)) (Outcome (heap e p)) (opposite (Side (heap e p)))"
      using that bk by (simp add: book_ok_def)
    then have "order_wf (heap e r)" "status_ok (heap e r)" "cover (heap e r) 0"
      using st covered_NilD [OF cv, of "ID (heap e r)" r]
      by (simp_all add: resting_def struct_ok_def orders_ok_def)
    with rs show ?thesis by (simp add: resting_def maker_ok_def opposite_def)
  qed
  moreover have "Side (heap e p) \<noteq> opposite (Side (heap e p))" by (simp add: opposite_def)
  then have "p \<notin> set ?rs" using bk by (metis book_ok_def resting_def)
  moreover have "distinct ?rs" using bk by (simp add: book_ok_def)
  moreover have "cover (heap e p) 0" using cv reg by (rule covered_NilD)
  moreover have "FilledQuantity (heap e p) = 0" using wf(2) sp by (simp add: status_ok_def)
  ultimately show ?thesis using reg sp wf(1) by (simp add: match_setup_def)
qed

section \<open>Matching keeps the structure\<close>

lemma newBooks_subset:
  "set (newBooks ms h p items ev oc sd) \<subseteq> insert p (set items \<union> set (bookList ms ev oc sd))"
  by (auto simp: newBooks_def)

lemma newBooks_keeps:
  "q \<in> set (bookList ms ev oc sd) \<Longrightarrow> \<not> (ev = EventID (h p) \<and> oc = Outcome (h p) \<and> sd \<noteq> Side (h p)) \<Longrightarrow>
   q \<in> set (newBooks ms h p items ev oc sd)"
  by (auto simp: newBooks_def)

text \<open>
  \<open>e2\<close> is the state after the loop and \<^const>\<open>restOrFinish\<close>: the orders of the opposite side carry their
  new quantities, \<open>p\<close> has its final status, and the books are \<^const>\<open>newBooks\<close>.
\<close>

definition matched :: "Engine \<Rightarrow> ptr \<Rightarrow> (ptr \<Rightarrow> Order) \<Rightarrow> ptr list \<Rightarrow> Trade list \<Rightarrow> Engine \<Rightarrow> bool" where
  "matched e p h1 items ts e2 \<longleftrightarrow>
     loop_ok (heap e) p (bookList (markets e) (EventID (heap e p)) (Outcome (heap e p)) (opposite (Side (heap e p))))
       h1 items ts
     \<and> (RemainingQuantity (h1 p) \<le> 0 \<or> (\<forall>r\<in>set items. \<not> eligible (e\<lparr>heap := h1\<rparr>) p r))
     \<and> heap e2 = h1(p := (h1 p)\<lparr>Status := finalStatus (h1 p)\<rparr>)
     \<and> orders e2 = orders e \<and> nextPtr e2 = nextPtr e \<and> balances e2 = balances e \<and> positions e2 = positions e
     \<and> (\<forall>ev. markets e2 ev = None \<longleftrightarrow> markets e ev = None)
     \<and> (\<forall>ev oc sd. sd \<in> {SideBuy, SideSell} \<longrightarrow>
          bookList (markets e2) ev oc sd = newBooks (markets e) h1 p items ev oc sd)"

lemma matched_static:
  assumes "matched e p h1 items ts e2"
  shows "static (heap e2 q) = static (heap e q)" "static (h1 q) = static (heap e q)"
  using assms by (simp_all add: matched_def loop_ok_def)

lemma matched_orders_ok:
  assumes st: "struct_ok e F" and p: "p \<in> F" and m: "matched e p h1 items ts e2"
  shows "orders_ok e2"
proof -
  let ?rs = "bookList (markets e) (EventID (heap e p)) (Outcome (heap e p)) (opposite (Side (heap e p)))"
  note s = static_eqD [OF matched_static(1) [OF m]]
  have ok: "loop_ok (heap e) p ?rs h1 items ts" and e2: "orders e2 = orders e" "nextPtr e2 = nextPtr e"
    "heap e2 = h1(p := (h1 p)\<lparr>Status := finalStatus (h1 p)\<rparr>)" "markets e2 ev = None \<longleftrightarrow> markets e ev = None" for ev
    using m by (simp_all add: matched_def)
  have old: "table_ok e" "\<forall>q<nextPtr e. order_wf (heap e q) \<and> status_ok (heap e q) \<and> markets e (EventID (heap e q)) \<noteq> None"
    using st by (simp_all add: struct_ok_def orders_ok_def)
  have "order_wf (heap e2 q) \<and> status_ok (heap e2 q)" if "q < nextPtr e" for q
  proof (cases "q = p")
    case True
    then show ?thesis using ok finalStatus_ok [of "h1 p"] by (simp add: loop_ok_def e2(3))
  next
    case False
    then show ?thesis using ok old(2) that by (cases "q \<in> set ?rs") (simp_all add: loop_ok_def e2(3))
  qed
  with old show ?thesis by (simp add: orders_ok_def table_ok_def e2(1,2,4) s)
qed

lemma struct_book: "struct_ok e F \<Longrightarrow> sd \<in> {SideBuy, SideSell} \<Longrightarrow> book_ok e ev oc sd"
  by (auto simp: struct_ok_def)

lemma book_member:
  "book_ok e ev oc sd \<Longrightarrow> r \<in> set (bookList (markets e) ev oc sd) \<Longrightarrow> resting e r ev oc sd \<and> booked e r"
  by (auto simp: book_ok_def booked_def resting_def)

text \<open>Orders of other books, or on the own side, keep their entries in the store.\<close>

lemma matched_other:
  assumes st: "struct_ok e F" and p: "p \<in> F" and m: "matched e p h1 items ts e2"
    and r: "r \<in> set (bookList (markets e) ev oc sd)" "sd \<in> {SideBuy, SideSell}"
    and other: "\<not> (ev = EventID (heap e p) \<and> oc = Outcome (heap e p) \<and> sd = opposite (Side (heap e p)))"
  shows "heap e2 r = heap e r"
proof -
  let ?rs = "bookList (markets e) (EventID (heap e p)) (Outcome (heap e p)) (opposite (Side (heap e p)))"
  have bk: "book_ok e ev oc sd" "book_ok e (EventID (heap e p)) (Outcome (heap e p)) (opposite (Side (heap e p)))"
    using struct_book [OF st] r(2) by (auto simp: opposite_def)
  have "resting e r ev oc sd" "booked e r" using book_member [OF bk(1) r(1)] by simp_all
  moreover have "\<not> booked e p" using st p by (simp add: struct_ok_def flight_ok_def)
  ultimately have "r \<noteq> p" "r \<notin> set ?rs"
    using other book_member [OF bk(2), of r] by (auto simp: resting_def)
  then show ?thesis using m by (simp add: matched_def loop_ok_def)
qed

lemma resting_same:
  "resting e r ev oc sd \<Longrightarrow> heap e2 r = heap e r \<Longrightarrow> orders e2 = orders e \<Longrightarrow> nextPtr e2 = nextPtr e \<Longrightarrow>
   resting e2 r ev oc sd"
  by (simp add: resting_def)

lemma matched_book_ok:
  assumes st: "struct_ok e F" and p: "p \<in> F" and m: "matched e p h1 items ts e2" and sd: "sd \<in> {SideBuy, SideSell}"
    and reg: "p < nextPtr e" "orders e (ID (heap e p)) = Some p"
  shows "book_ok e2 ev oc sd"
proof -
  let ?ev = "EventID (heap e p)" and ?oc = "Outcome (heap e p)" and ?sd = "Side (heap e p)"
  let ?rs = "bookList (markets e) ?ev ?oc (opposite ?sd)"
  let ?L = "bookList (markets e) ev oc sd"
  note s = static_eqD [OF matched_static(1) [OF m]] and s1 = static_eqD [OF matched_static(2) [OF m]]
  have ok: "loop_ok (heap e) p ?rs h1 items ts" and e2: "orders e2 = orders e" "nextPtr e2 = nextPtr e"
    "heap e2 = h1(p := (h1 p)\<lparr>Status := finalStatus (h1 p)\<rparr>)"
    using m by (simp_all add: matched_def)
  have new: "bookList (markets e2) ev oc sd = newBooks (markets e) h1 p items ev oc sd"
    using m sd unfolding matched_def by blast
  have bk: "book_ok e ev oc sd" by (rule struct_book [OF st sd])
  have pr: "prio d (heap e2 r) = prio d (heap e r)" "prio d (h1 r) = prio d (heap e r)" for d r
    by (simp_all add: prio_def s s1)
  have wfp: "order_wf (h1 p)" "Status (h1 p) = StatusPending" using ok by (simp_all add: loop_ok_def)
  have "order_wf (heap e p)" using st reg by (simp add: struct_ok_def orders_ok_def)
  then have sds: "sd = opposite ?sd \<or> sd = ?sd" using sd by (auto simp: order_wf_def opposite_def)
  have "newBooks (markets e) h1 p items ev oc sd = ?L"
    if "\<not> (ev = ?ev \<and> oc = ?oc \<and> sd = opposite ?sd)" "\<not> (ev = ?ev \<and> oc = ?oc \<and> sd = ?sd \<and> rests (h1 p))"
    using that sds unfolding newBooks_def s1 by (simp (no_asm_use)) metis
  then consider (opp) "ev = ?ev" "oc = ?oc" "sd = opposite ?sd"
    | (own) "ev = ?ev" "oc = ?oc" "sd = ?sd" "rests (h1 p)"
    | (same) "newBooks (markets e) h1 p items ev oc sd = ?L"
        "\<not> (ev = ?ev \<and> oc = ?oc \<and> sd = opposite ?sd)"
    by blast
  then show ?thesis
  proof cases
    case opp
    have it: "bookList (markets e2) ev oc sd = filter (\<lambda>r. 0 < RemainingQuantity (h1 r)) ?L"
      using new opp ok by (simp add: newBooks_def s1 loop_ok_def opposite_def)
    have "resting e2 r ev oc sd" if r: "r \<in> set ?L" "0 < RemainingQuantity (h1 r)" for r
    proof -
      have "r \<in> set ?rs" using r opp by simp
      then have "status_ok (h1 r)" "live (h1 r) \<or> Status (h1 r) = StatusFilled" using ok by (auto simp: loop_ok_def)
      then have "live (h1 r)" using r(2) by (auto simp: status_ok_def live_def)
      moreover have "resting e r ev oc sd" "booked e r" using book_member [OF bk r(1)] by simp_all
      moreover have "r \<noteq> p" using \<open>booked e r\<close> st p by (auto simp: struct_ok_def flight_ok_def)
      ultimately show ?thesis using r(2) by (simp add: resting_def e2 s1)
    qed
    then show ?thesis
      using bk by (simp add: book_ok_def it pr sorted_filter)
  next
    case own
    have new': "bookList (markets e2) ev oc sd = sort_key (\<lambda>r. prio sd (heap e r)) (?L @ [p])"
      using new own by (simp add: newBooks_def s1 pr)
    have "\<not> booked e p" using st p by (simp add: struct_ok_def flight_ok_def)
    then have "p \<notin> set ?L" using own by (simp add: booked_def)
    moreover have "resting e2 p ev oc sd"
      using own reg finalStatus_ok(3) [OF wfp] wfp(1)
      by (simp add: resting_def e2 s1 rests_def order_wf_def)
    moreover have "resting e2 r ev oc sd" if "r \<in> set ?L" for r
    proof -
      have "sd \<noteq> opposite ?sd" using own(3) by (simp add: opposite_def)
      then show ?thesis
        using resting_same [OF conjunct1 [OF book_member [OF bk that]] matched_other [OF st p m that sd] e2(1,2)]
        by blast
    qed
    ultimately show ?thesis
      using bk by (auto simp: book_ok_def new' pr)
  next
    case same
    have "resting e2 r ev oc sd" if "r \<in> set ?L" for r
      by (rule resting_same [OF conjunct1 [OF book_member [OF bk that]]
          matched_other [OF st p m that sd same(2)] e2(1,2)])
    then show ?thesis using bk new same(1) by (simp add: book_ok_def pr)
  qed
qed

lemma matched_flight_ok:
  assumes st: "struct_ok e F" and p: "p \<in> F" and m: "matched e p h1 items ts e2"
    and reg: "p < nextPtr e" "orders e (ID (heap e p)) = Some p"
  shows "flight_ok e2 (F - {p})"
proof -
  let ?ev = "EventID (heap e p)" and ?oc = "Outcome (heap e p)" and ?sd = "Side (heap e p)"
  let ?rs = "bookList (markets e) ?ev ?oc (opposite ?sd)"
  note s = static_eqD [OF matched_static(1) [OF m]] and s1 = static_eqD [OF matched_static(2) [OF m]]
  have ok: "loop_ok (heap e) p ?rs h1 items ts" and e2: "orders e2 = orders e" "nextPtr e2 = nextPtr e"
    "heap e2 = h1(p := (h1 p)\<lparr>Status := finalStatus (h1 p)\<rparr>)"
    using m by (simp_all add: matched_def)
  have sdq: "Side (heap e q) \<in> {SideBuy, SideSell}" "q < nextPtr e" if "orders e i = Some q" for i q
    using st that by (auto simp: struct_ok_def orders_ok_def table_ok_def order_wf_def)
  have new: "bookList (markets e2) ev oc sd = newBooks (markets e) h1 p items ev oc sd"
    if "sd \<in> {SideBuy, SideSell}" for ev oc sd
    using m that unfolding matched_def by blast
  have bk: "book_ok e ev oc sd" if "sd \<in> {SideBuy, SideSell}" for ev oc sd by (rule struct_book [OF st that])
  have items: "set items \<subseteq> set ?rs" using ok by (auto simp: loop_ok_def)
  have rsb: "booked e r" "Side (heap e r) = opposite ?sd" "EventID (heap e r) = ?ev" "Outcome (heap e r) = ?oc"
    if "r \<in> set ?rs" for r
    using book_member [OF bk that] by (auto simp: opposite_def resting_def)
  have fl: "orders e (ID (heap e f)) = Some f \<and> Status (heap e f) \<in> {StatusPending, StatusCanceled} \<and> \<not> booked e f"
    if "f \<in> F" for f using st that by (simp add: struct_ok_def flight_ok_def)
  have "orders e2 (ID (heap e2 f)) = Some f \<and> Status (heap e2 f) \<in> {StatusPending, StatusCanceled} \<and> \<not> booked e2 f"
    if f: "f \<in> F" "f \<noteq> p" for f
  proof -
    have "f \<notin> set ?rs" using fl [OF f(1)] rsb(1) by blast
    then have "heap e2 f = heap e f" using ok f(2) by (simp add: loop_ok_def e2(3))
    moreover have "f \<notin> set (newBooks (markets e) h1 p items (EventID (heap e f)) (Outcome (heap e f)) (Side (heap e f)))"
      using newBooks_subset items \<open>f \<notin> set ?rs\<close> f(2) fl [OF f(1)] by (fastforce simp: booked_def)
    moreover have "Side (heap e f) \<in> {SideBuy, SideSell}" using fl [OF f(1)] sdq(1) by blast
    ultimately show ?thesis
      using fl [OF f(1)] by (simp add: e2(1) booked_def new)
  qed
  moreover have "booked e2 q" if q: "orders e i = Some q" "q \<notin> F \<or> q = p" "live (heap e2 q)" for i q
  proof (cases "q = p")
    case True
    have "rests (h1 p)" using q(3) ok finalStatus_ok(3) [of "h1 p"] True by (simp add: e2(3) loop_ok_def)
    with True show ?thesis
      using new sdq [OF q(1)] by (simp add: booked_def newBooks_def s s1)
  next
    case False
    show ?thesis
    proof (cases "q \<in> set ?rs")
      case True
      have "0 < RemainingQuantity (h1 q)"
        using True ok q(3) False by (auto simp: loop_ok_def e2(3) intro: order_positive_remaining)
      then have "q \<in> set items" using True ok by (simp add: loop_ok_def)
      with True show ?thesis
        using new sdq [OF q(1)] rsb(2-4) [OF True] by (simp add: booked_def newBooks_def s s1 opposite_def)
    next
      case nrs: False
      then have h: "heap e2 q = heap e q" using ok False by (simp add: loop_ok_def e2(3))
      have b: "booked e q" using st q False h by (simp add: struct_ok_def flight_ok_def)
      have "\<not> (EventID (heap e q) = ?ev \<and> Outcome (heap e q) = ?oc \<and> Side (heap e q) \<noteq> ?sd)"
      proof
        assume "EventID (heap e q) = ?ev \<and> Outcome (heap e q) = ?oc \<and> Side (heap e q) \<noteq> ?sd"
        moreover from this have "Side (heap e q) = opposite ?sd"
          using sdq(1) [OF q(1)] sdq(1) [OF reg(2)] by (auto simp: opposite_def)
        ultimately show False using b nrs by (simp add: booked_def)
      qed
      then have "q \<in> set (newBooks (markets e) h1 p items (EventID (heap e q)) (Outcome (heap e q)) (Side (heap e q)))"
        using b by (intro newBooks_keeps) (simp_all add: booked_def s1)
      then show ?thesis using new sdq(1) [OF q(1)] by (simp add: booked_def h)
    qed
  qed
  ultimately show ?thesis by (auto simp: flight_ok_def e2(1))
qed

lemma matched_struct_ok:
  assumes st: "struct_ok e F" and p: "p \<in> F" and m: "matched e p h1 items ts e2"
  shows "struct_ok e2 (F - {p})"
proof -
  have "orders e (ID (heap e p)) = Some p" using st p by (simp add: struct_ok_def flight_ok_def)
  moreover from this have "p < nextPtr e" using st by (simp add: struct_ok_def orders_ok_def table_ok_def)
  ultimately show ?thesis
    using matched_orders_ok [OF st p m] matched_book_ok [OF st p m] matched_flight_ok [OF st p m]
    by (simp add: struct_ok_def)
qed

section \<open>Matching keeps the ledger\<close>

lemma ledger_ok_static:
  assumes "balances e' = balances e" "positions e' = positions e" "nextPtr e' = nextPtr e"
    and "\<And>q. static (heap e' q) = static (heap e q)"
  shows "ledger_ok e' = ledger_ok e" "totalCash e' = totalCash e" "totalShares e' = totalShares e"
proof -
  note s = static_eqD [OF assms(4)]
  have "lockedCash e' = lockedCash e" "lockedShares e' = lockedShares e"
    by (simp_all add: fun_eq_iff lockedCash_def lockedShares_def cashLock_def shareLock_def posKeyOf_def s assms(3)
        cong: if_cong)
  then show "ledger_ok e' = ledger_ok e" by (simp add: ledger_ok_def assms(1-3) s)
qed (simp_all add: totalCash_def totalShares_def assms(1,2))

lemma cover_status: "cover x n \<Longrightarrow> Status x = StatusPending \<Longrightarrow> cover (x\<lparr>Status := s\<rparr>) n"
  by (simp add: cover_def)

lemma match_setup_maker: "match_setup T h p rs \<Longrightarrow> r \<in> set rs \<Longrightarrow> maker_ok T h (h p) r"
  by (simp add: match_setup_def)

lemma matched_trade:
  assumes "matched e p h1 items ts e2" and "t \<in> set ts"
  obtains r where "pairTrade (heap e p) (heap e r) t"
    "r \<in> set (bookList (markets e) (EventID (heap e p)) (Outcome (heap e p)) (opposite (Side (heap e p))))"
  using assms unfolding matched_def loop_ok_def by blast

lemma matched_covered:
  assumes st: "struct_ok e F" and cv: "covered e []" and p: "p \<in> F" and m: "matched e p h1 items ts e2"
    and live: "Status (heap e p) \<noteq> StatusCanceled"
    and afford: "marketBuy (heap e p) \<Longrightarrow> owed (heap e p) ts \<le> LockedFunds (heap e p)"
  shows "covered e2 ts"
  unfolding covered_def
proof (intro allI impI)
  let ?rs = "bookList (markets e) (EventID (heap e p)) (Outcome (heap e p)) (opposite (Side (heap e p)))"
  fix i q
  assume q: "orders e2 i = Some q"
  have su: "match_setup (orders e) (heap e) p ?rs" by (rule struct_setup [OF st cv p live])
  have ok: "loop_ok (heap e) p ?rs h1 items ts" and e2: "orders e2 = orders e"
    "heap e2 = h1(p := (h1 p)\<lparr>Status := finalStatus (h1 p)\<rparr>)"
    using m by (simp_all add: matched_def)
  note st1 = matched_static [OF m] and s = static_eqD [OF matched_static(1) [OF m]]
  have ow: "owed (heap e2 x) ts = owed (heap e x) ts" "owed (h1 x) ts = owed (heap e x) ts" for x
    by (rule owed_static, rule st1)+
  have qid: "orders e (ID (heap e q)) = Some q" "cover (heap e q) 0"
    using q st covered_NilD [OF cv] by (auto simp: e2 struct_ok_def orders_ok_def table_ok_def)
  consider "q = p" | "q \<noteq> p" "q \<in> set ?rs" | "q \<noteq> p" "q \<notin> set ?rs" by blast
  then show "cover (heap e2 q) (owed (heap e2 q) ts)"
  proof cases
    case 1
    have pd: "Status (h1 p) = StatusPending" using ok by (simp add: loop_ok_def)
    show ?thesis
    proof (cases "marketBuy (heap e p)")
      case True
      with afford s [of p] 1 show ?thesis by (simp add: ow cover_def marketBuy_def)
    next
      case False
      then have "cover (h1 p) (owed (h1 p) ts)" using ok by (simp add: loop_ok_def)
      with 1 pd show ?thesis by (simp add: ow) (simp add: e2 cover_status)
    qed
  next
    case 2
    then show ?thesis using ok by (simp add: e2 loop_ok_def)
  next
    case 3
    have "ID (heap e q) \<noteq> OrderID t \<and> ID (heap e q) \<noteq> MatchOrderID t" if t: "t \<in> set ts" for t
    proof -
      obtain r where "pairTrade (heap e p) (heap e r) t" and r: "r \<in> set ?rs" by (rule matched_trade [OF m t])
      moreover have "orders e (ID (heap e r)) = Some r"
        using match_setup_maker [OF su r] by (simp add: maker_ok_def)
      moreover have "orders e (ID (heap e p)) = Some p" using su by (simp add: match_setup_def)
      ultimately show ?thesis using 3 qid(1) by (metis option.inject pairTrade_def)
    qed
    then have "owed (heap e q) ts = 0" unfolding owed_def by (induction ts) simp_all
    with 3 qid(2) ok show ?thesis by (simp add: ow) (simp add: e2 loop_ok_def)
  qed
qed

lemma matched_parties:
  assumes su: "match_setup (orders e) (heap e) p
      (bookList (markets e) (EventID (heap e p)) (Outcome (heap e p)) (opposite (Side (heap e p))))"
    and tb: "table_ok e" and m: "matched e p h1 items ts e2" and t: "t \<in> set ts"
  shows "\<exists>b s. parties e2 t b s"
proof -
  obtain r where pt: "pairTrade (heap e p) (heap e r) t"
    and r: "r \<in> set (bookList (markets e) (EventID (heap e p)) (Outcome (heap e p)) (opposite (Side (heap e p))))"
    by (rule matched_trade [OF m t])
  have mk: "maker_ok (orders e) (heap e) (heap e p) r" by (rule match_setup_maker [OF su r])
  have wp: "order_wf (heap e p)" and reg: "orders e (ID (heap e p)) = Some p"
    using su by (simp_all add: match_setup_def)
  have lt: "p < nextPtr e" "r < nextPtr e"
    using table_okD [OF tb reg] table_okD [OF tb, of "ID (heap e r)" r] mk by (simp_all add: maker_ok_def)
  have "0 < Price (heap e r)" using mk by (simp add: maker_ok_def order_wf_def)
  moreover have "orders e2 = orders e" "nextPtr e2 = nextPtr e" using m by (simp_all add: matched_def)
  ultimately have "if Side (heap e p) = SideBuy then parties e2 t p r else parties e2 t r p"
    using mk reg lt pt wp
    by (simp add: parties_def maker_ok_def pairTrade_def order_wf_def static_eqD [OF matched_static(1) [OF m]])
      blast
  then show ?thesis by (metis (full_types))
qed

text \<open>
  A market BUY reserves what the user has, and the loop does not look at it: the section keeps the
  ledger when the trades it made cost no more than that.
\<close>

definition affordable :: "World \<Rightarrow> Engine \<Rightarrow> ptr \<Rightarrow> bool" where
  "affordable w e p \<longleftrightarrow>
     (case snd (matchOrderLocked w e p) of None \<Rightarrow> True
      | Some ts \<Rightarrow> marketBuy (heap e p) \<longrightarrow> (\<Sum>t\<leftarrow>ts. tradeCost t) \<le> LockedFunds (heap e p))"

lemma owed_taker:
  "(\<forall>t\<in>set ts. OrderID t = ID x) \<Longrightarrow> Side x = SideBuy \<Longrightarrow> owed x ts = (\<Sum>t\<leftarrow>ts. tradeCost t)"
  by (induction ts) simp_all

text \<open>One run of the section on an order in flight, step by step under the invariant.\<close>

lemma match_steps:
  assumes inv: "inv e F" and p: "p \<in> F" and live: "Status (heap e p) \<noteq> StatusCanceled"
  obtains h1 items ts e2 e3 where
    "matched e p h1 items ts e2" "e3 = foldl settleTradeLocked e2 ts"
    "matchOrderLocked w e p =
       (if Status (heap e3 p) = StatusFilled \<or> Status (heap e3 p) = StatusCanceled
        then releaseOrderLocked e3 p else e3, Some ts)"
    "replaying e2 = replaying e"
proof -
  let ?rs = "bookList (markets e) (EventID (heap e p)) (Outcome (heap e p)) (opposite (Side (heap e p)))"
  have st: "struct_ok e F" and cv: "covered e []" using inv by (simp_all add: inv_def)
  note su = struct_setup [OF st cv p live]
  obtain e1 items ts where run: "matchSide w e ?rs p [] = (e1, items, ts)" by (metis prod_cases3)
  note lp = matchSide_loop_ok [OF su run]
  obtain h1 n1 where fr: "e1 = e\<lparr>heap := h1, tick := n1\<rparr>" using lp(2) by blast
  have wf: "order_wf (heap e p)" and reg: "orders e (ID (heap e p)) = Some p" using su by (simp_all add: match_setup_def)
  have "p < nextPtr e" using st table_okD [OF _ reg] by (simp add: struct_ok_def orders_ok_def)
  then obtain m where m: "markets e (EventID (heap e p)) = Some m"
    using st by (auto simp: struct_ok_def orders_ok_def)
  have st1: "static (heap e1 p) = static (heap e p)" and wf1: "order_wf (heap e1 p)"
    using lp(1) by (simp_all add: loop_ok_def)
  obtain ms e3 where e3: "e3 = foldl settleTradeLocked (e1\<lparr>heap := (heap e1)(p := (heap e1 p)\<lparr>Status := finalStatus (heap e1 p)\<rparr>),
        markets := ms\<rparr>) ts"
    and bl: "\<And>ev oc sd. sd \<in> {SideBuy, SideSell} \<Longrightarrow> bookList ms ev oc sd = newBooks (markets e) (heap e1) p items ev oc sd"
    and ms: "\<And>ev. ms ev = None \<longleftrightarrow> markets e ev = None"
    and res: "matchOrderLocked w e p =
       (if Status (heap e3 p) = StatusFilled \<or> Status (heap e3 p) = StatusCanceled
        then releaseOrderLocked e3 p else e3, Some ts)"
    by (rule matchOrderLocked_steps [OF wf live m run st1 wf1 fr]) (rule that)
  let ?e2 = "e1\<lparr>heap := (heap e1)(p := (heap e1 p)\<lparr>Status := finalStatus (heap e1 p)\<rparr>), markets := ms\<rparr>"
  have "matched e p (heap e1) items ts ?e2"
    unfolding matched_def using lp(1) ms bl matchSide_exhausts [OF run] by (simp add: fr eligible_def)
  then show thesis using e3 res by (rule that) (simp add: fr)
qed

lemma matched_others_released:
  assumes rl: "released e" and m: "matched e p h1 items ts e2" and q: "orders e i = Some q" "q \<noteq> p"
    and c: "Status (heap e2 q) = StatusCanceled"
  shows "LockedFunds (heap e2 q) = 0"
proof -
  let ?rs = "bookList (markets e) (EventID (heap e p)) (Outcome (heap e p)) (opposite (Side (heap e p)))"
  have ok: "loop_ok (heap e) p ?rs h1 items ts" and h2: "heap e2 q = h1 q" using m q by (simp_all add: matched_def)
  have "q \<notin> set ?rs"
  proof
    assume "q \<in> set ?rs"
    then have "live (h1 q) \<or> Status (h1 q) = StatusFilled" using ok by (simp add: loop_ok_def)
    with c h2 show False by (auto simp: live_def)
  qed
  then have "heap e2 q = heap e q" using ok q h2 by (simp add: loop_ok_def)
  with rl q c show ?thesis by (simp add: released_def)
qed

text \<open>Releasing a finished order keeps cover: a filled order needs nothing more.\<close>

lemma release_covered:
  assumes lg: "ledger_ok e" and st: "struct_ok e F" and cv: "covered e []" and lt: "p < nextPtr e"
    and fin: "Status (heap e p) = StatusFilled \<or> Status (heap e p) = StatusCanceled"
  shows "covered (releaseOrderLocked e p) []"
  unfolding covered_def releaseOrderLocked_frame owed_simps
proof (intro allI impI)
  fix i q
  assume "orders e i = Some q"
  then have c: "cover (heap e q) 0" by (rule covered_NilD [OF cv])
  have "status_ok (heap e p)" using st lt by (simp add: struct_ok_def orders_ok_def)
  with fin have "Status (heap e p) = StatusFilled \<Longrightarrow> RemainingQuantity (heap e p) = 0" by (auto simp: status_ok_def)
  then have "cover ((heap e p)\<lparr>LockedFunds := 0\<rparr>) 0" using fin by (auto simp: cover_def)
  with c show "cover (heap (releaseOrderLocked e p) q) 0"
    by (simp add: ledger_ok_release(4) [OF lg lt])
qed

lemma release_struct_ok:
  assumes "ledger_ok e" and "p < nextPtr e"
  shows "struct_ok (releaseOrderLocked e p) F = struct_ok e F"
  by (rule struct_ok_cong) (simp_all add: ledger_ok_release(4) [OF assms] unlocked_def)

text \<open>Settling and releasing write \<open>LockedFunds\<close> only, whatever the amounts.\<close>

lemma unlocked_settleLocked [simp]: "unlocked (heap (settleLocked c t e i) q) = unlocked (heap e q)"
  by (simp add: settleLocked_def setOrder_def unlocked_def split: option.split)

lemma unlocked_settle [simp]: "unlocked (heap (settleTradeLocked e t) q) = unlocked (heap e q)"
  by (simp add: settleTradeLocked_def onBalance_eq onPosition_eq Let_def)

lemma unlocked_foldl_settle [simp]: "unlocked (heap (foldl settleTradeLocked e ts) q) = unlocked (heap e q)"
  by (induction ts arbitrary: e) simp_all

lemma unlocked_release [simp]: "unlocked (heap (releaseOrderLocked e p) q) = unlocked (heap e q)"
  by (simp add: releaseOrderLocked_def setOrder_def onBalance_eq onPosition_eq Let_def unlocked_def)

lemma match_result:
  assumes "inv e F" and "p \<in> F" and "Status (heap e p) \<noteq> StatusCanceled"
    and "matchOrderLocked w e p = (e', r)"
  obtains h1 items ts e2 where "matched e p h1 items ts e2" "r = Some ts" "markets e' = markets e2"
    "orders e' = orders e" "nextPtr e' = nextPtr e" "\<And>q. unlocked (heap e' q) = unlocked (heap e2 q)"
proof -
  obtain h1 items ts e2 e3 where m: "matched e p h1 items ts e2" and e3: "e3 = foldl settleTradeLocked e2 ts"
    and res: "matchOrderLocked w e p =
       (if Status (heap e3 p) = StatusFilled \<or> Status (heap e3 p) = StatusCanceled
        then releaseOrderLocked e3 p else e3, Some ts)"
    by (rule match_steps [OF assms(1-3)]) (rule that)
  have "orders e2 = orders e" "nextPtr e2 = nextPtr e" using m by (simp_all add: matched_def)
  with m e3 res assms(4) show thesis by (intro that [OF m]) (auto split: if_splits)
qed

lemma match_inv:
  assumes inv: "inv e F" and p: "p \<in> F" and af: "affordable w e p"
  shows "inv (fst (matchOrderLocked w e p)) (F - {p})
    \<and> totalCash (fst (matchOrderLocked w e p)) = totalCash e
    \<and> totalShares (fst (matchOrderLocked w e p)) = totalShares e"
proof (cases "Status (heap e p) = StatusCanceled")
  case True
  have "\<not> live (heap e p)" using True by (simp add: live_def)
  then have "flight_ok e (F - {p})" using inv by (auto simp: inv_def struct_ok_def flight_ok_def)
  with inv True show ?thesis by (simp add: matchOrderLocked_def inv_def struct_ok_def)
next
  case False
  obtain h1 items ts e2 e3 where m: "matched e p h1 items ts e2" and e3: "e3 = foldl settleTradeLocked e2 ts"
    and res: "matchOrderLocked w e p =
       (if Status (heap e3 p) = StatusFilled \<or> Status (heap e3 p) = StatusCanceled
        then releaseOrderLocked e3 p else e3, Some ts)"
    by (rule match_steps [OF inv p False]) (rule that)
  have st: "struct_ok e F" and cv: "covered e []" and lg: "ledger_ok e" and rl: "released e"
    using inv by (simp_all add: inv_def)
  note su = struct_setup [OF st cv p False] and st2 = matched_struct_ok [OF st p m]
  have own: "OrderID t = ID (heap e p)" if t: "t \<in> set ts" for t
    by (rule matched_trade [OF m t]) (simp add: pairTrade_def)
  have "owed (heap e p) ts \<le> LockedFunds (heap e p)" if "marketBuy (heap e p)"
    using af that owed_taker [of ts "heap e p"] own by (simp add: affordable_def res marketBuy_def)
  then have cv2: "covered e2 ts" by (rule matched_covered [OF st cv p m False])
  have tb: "table_ok e" "table_ok e2" using st st2 by (simp_all add: struct_ok_def orders_ok_def)
  note lg2 = ledger_ok_static [OF _ _ _ matched_static(1) [OF m]]
  have fr: "balances e2 = balances e" "positions e2 = positions e" "nextPtr e2 = nextPtr e" "orders e2 = orders e"
    using m by (simp_all add: matched_def)
  have pt: "\<forall>t\<in>set ts. \<exists>b s. parties e2 t b s" by (rule ballI) (rule matched_parties [OF su tb(1) m])
  have "ledger_ok e2" using lg lg2(1) [OF fr(1-3)] by simp
  then have s: "ledger_ok e3 \<and> totalCash e3 = totalCash e2 \<and> totalShares e3 = totalShares e2 \<and> covered e3 []
      \<and> (\<forall>q. unlocked (heap e3 q) = unlocked (heap e2 q) \<and> LockedFunds (heap e3 q) \<le> LockedFunds (heap e2 q))"
    unfolding e3 by (rule foldl_settle [OF _ tb(2) cv2 pt])
  have fr3: "markets e3 = markets e2" "orders e3 = orders e2" "nextPtr e3 = nextPtr e2" by (simp_all add: e3)
  have un: "unlocked (heap e3 q) = unlocked (heap e2 q)" "LockedFunds (heap e3 q) \<le> LockedFunds (heap e2 q)" for q
    using s by blast+
  have st3: "struct_ok e3 (F - {p})" using st2 struct_ok_cong [OF fr3 un(1)] by simp
  have reg: "orders e (ID (heap e p)) = Some p" using su by (simp add: match_setup_def)
  have lt: "p < nextPtr e3" using table_okD [OF tb(1) reg] fr fr3 by simp
  have rl3: "LockedFunds (heap e3 q) = 0" if q: "orders e3 i = Some q" "q \<noteq> p" "Status (heap e3 q) = StatusCanceled" for i q
  proof -
    have "LockedFunds (heap e2 q) = 0"
      by (rule matched_others_released [OF rl m]) (use q fr fr3 unlocked_eqD(11) [OF un(1)] in simp_all)
    moreover have "q < nextPtr e3" using st3 table_okD [OF _ q(1)] by (simp add: struct_ok_def orders_ok_def)
    then have "0 \<le> LockedFunds (heap e3 q)" using s by (simp add: ledger_ok_def)
    ultimately show ?thesis using un(2) [of q] by simp
  qed
  have tot: "totalCash e3 = totalCash e" "totalShares e3 = totalShares e"
    using s lg2(2,3) [OF fr(1-3)] by simp_all
  show ?thesis
  proof (cases "Status (heap e3 p) = StatusFilled \<or> Status (heap e3 p) = StatusCanceled")
    case True
    have lg3: "ledger_ok e3" and cv3: "covered e3 []" using s by blast+
    note rel = ledger_ok_release [OF lg3 lt]
    have "released (releaseOrderLocked e3 p)" using rl3 by (simp add: released_def rel(4))
    moreover note release_covered [OF lg3 st3 cv3 lt True] release_struct_ok [OF lg3 lt, of "F - {p}"]
    ultimately show ?thesis using True rel st3 tot by (simp add: res inv_def)
  next
    case False
    then have "released e3" using rl3 unfolding released_def by blast
    with False s st3 tot show ?thesis by (simp add: res inv_def)
  qed
qed

end
