(* ===== verification/Match_Spec.thy ===== *)
theory Match_Spec
  imports Engine_Inv
begin

text \<open>
  A specification of the matching loop with no store, no indices and no rescanning: \<open>sweep\<close> walks the
  opposite side once, front to back, on plain order values. \<open>matchSide_sweep\<close> shows that the loop of
  the code, which searches from the front again after every executed pair, computes the same orders,
  the same remaining side and the same trades.
\<close>

section \<open>One pass over the opposite side\<close>

definition takes :: "Order \<Rightarrow> Order \<Rightarrow> bool" where
  "takes x y \<longleftrightarrow> Status y \<notin> {StatusFilled, StatusCanceled, StatusRejected} \<and> 0 < RemainingQuantity y
     \<and> UserID y \<noteq> UserID x \<and> canMatch x y"

fun sweep :: "World \<Rightarrow> nat \<Rightarrow> Order \<Rightarrow> Order list \<Rightarrow> Order \<times> Order list \<times> Trade list" where
  "sweep w n x [] = (x, [], [])"
| "sweep w n x (y # ys) =
     (if 0 < RemainingQuantity x \<and> takes x y then
        let q = min (RemainingQuantity x) (RemainingQuantity y);
            y' = restAfter q y;
            (x', ys', ts) = sweep w (Suc n) (fill q x) ys
        in (x', if RemainingQuantity y' \<le> 0 then ys' else y' # ys', buildTrade w n x y q # ts)
      else
        let (x', ys', ts) = sweep w n x ys in (x', y # ys', ts))"

lemma eligible_takes: "eligible e p r = takes (heap e p) (heap e r)"
  by (simp add: eligible_def takes_def)

lemma takes_static: "static x = static x' \<Longrightarrow> takes x y = takes x' y"
  using static_eqD [of x x'] by (simp add: takes_def canMatch_def)

lemma sweep_filled: "RemainingQuantity x \<le> 0 \<Longrightarrow> sweep w n x ys = (x, ys, [])"
  by (induction ys) simp_all

lemma sweep_skip:
  "(\<forall>y\<in>set pre. \<not> takes x y) \<Longrightarrow>
   sweep w n x (pre @ ys) = (case sweep w n x ys of (x', ys', ts) \<Rightarrow> (x', pre @ ys', ts))"
  by (induction pre) (simp_all add: case_prod_beta)

lemma sweep_none: "(\<forall>y\<in>set ys. \<not> takes x y) \<Longrightarrow> sweep w n x ys = (x, ys, [])"
  using sweep_skip [of ys x w n "[]"] by simp

section \<open>The loop computes the sweep\<close>

definition side_live :: "Engine \<Rightarrow> ptr \<Rightarrow> ptr list \<Rightarrow> bool" where
  "side_live e p items \<longleftrightarrow> distinct items \<and> p \<notin> set items \<and> order_wf (heap e p)
     \<and> (\<forall>r\<in>set items. order_wf (heap e r) \<and> 0 < RemainingQuantity (heap e r) \<and> live (heap e r))"

lemma side_live_prune: "side_live e p items \<Longrightarrow> dropWhile (invalidFront e) items = items"
  by (cases items) (auto simp: side_live_def invalidFront_def live_def)

lemma matchSide_sweep_step:
  assumes sl: "side_live e p items" and rem: "0 < RemainingQuantity (heap e p)"
    and i: "i < length items" "takes (heap e p) (heap e (items ! i))"
    and pre: "\<forall>j<i. \<not> takes (heap e p) (heap e (items ! j))"
    and q: "q = pairQuantity e p (items ! i)"
    and h1: "h1 = (heap e)(p := fill q (heap e p), items ! i := restAfter q (heap e (items ! i)))"
    and it: "items1 = (if RemainingQuantity (fill q (heap e (items ! i))) \<le> 0 then removeOrderIndex items i else items)"
  shows "sweep w n (heap e p) (map (heap e) items) =
    (case sweep w (Suc n) (h1 p) (map h1 items1) of (x, ys, ts) \<Rightarrow>
       (x, ys, buildTrade w n (heap e p) (heap e (items ! i)) q # ts))"
proof -
  let ?r = "items ! i" and ?x = "heap e p" and ?y = "heap e (items ! i)"
  let ?pre = "take i items" and ?post = "drop (Suc i) items"
  have split: "items = ?pre @ ?r # ?post" by (rule id_take_nth_drop [OF i(1)])
  have "distinct (?pre @ ?r # ?post)" using sl split by (simp add: side_live_def)
  then have r: "?r \<notin> set ?pre" "?r \<notin> set ?post" by auto
  have p: "p \<notin> set ?pre" "p \<notin> set ?post" "?r \<noteq> p"
    using sl i(1) set_take_subset [of i items] set_drop_subset [of "Suc i" items] nth_mem [OF i(1)]
    by (auto simp: side_live_def)
  have wf: "order_wf ?x" "order_wf ?y" "0 < RemainingQuantity ?y"
    using sl nth_mem [OF i(1)] by (auto simp: side_live_def)
  note qb = pairQuantity_bounds [OF rem wf(3)]
  have qm: "q = min (RemainingQuantity ?x) (RemainingQuantity ?y)" by (simp add: q pairQuantity_def minInt64_def min_def)
  have np: "\<forall>y\<in>set (map (heap e) ?pre). \<not> takes ?x y"
    using pre i(1) by (auto simp: in_set_conv_nth)
  have same: "map h1 ?pre = map (heap e) ?pre" "map h1 ?post = map (heap e) ?post" "h1 p = fill q ?x" "h1 ?r = restAfter q ?y"
    using r p by (auto simp: h1)
  have np1: "\<forall>y\<in>set (map h1 ?pre). \<not> takes (h1 p) y"
    using np takes_static [of "h1 p" ?x] by (simp add: same)
  have full: "RemainingQuantity (restAfter q ?y) \<le> 0 \<longleftrightarrow> RemainingQuantity (fill q ?y) \<le> 0"
    by (simp add: restAfter_def Let_def)
  have "sweep w n ?x (map (heap e) items) =
      (case sweep w (Suc n) (fill q ?x) (map (heap e) ?post) of (x', ys', ts) \<Rightarrow>
        (x', map (heap e) ?pre @ (if RemainingQuantity (restAfter q ?y) \<le> 0 then ys' else restAfter q ?y # ys'),
         buildTrade w n ?x ?y q # ts))"
    by (subst split) (simp add: sweep_skip [OF np] rem i(2) qm [symmetric] Let_def case_prod_beta)
  moreover have "sweep w (Suc n) (h1 p) (map h1 items1) =
      (case sweep w (Suc n) (fill q ?x) (map (heap e) ?post) of (x', ys', ts) \<Rightarrow>
        (x', map (heap e) ?pre @ (if RemainingQuantity (restAfter q ?y) \<le> 0 then ys' else restAfter q ?y # ys'), ts))"
  proof (cases "RemainingQuantity (fill q ?y) \<le> 0")
    case True
    then have "map h1 items1 = map h1 ?pre @ map h1 ?post" by (simp add: it removeOrderIndex_def)
    then show ?thesis using True sweep_skip [OF np1] full by (simp add: same)
  next
    case False
    then have "q \<noteq> RemainingQuantity ?y" using wf(2) qb q by (auto simp: fill_exact)
    then have "RemainingQuantity (fill q ?x) \<le> 0" using wf(1) qb q by (auto simp: fill_exact)
    moreover have "map h1 items1 = map h1 ?pre @ restAfter q ?y # map h1 ?post"
      using False same(4) arg_cong [OF split, of "map h1"] by (simp add: it)
    ultimately show ?thesis using False full by (simp add: sweep_filled same)
  qed
  ultimately show ?thesis by (simp add: case_prod_beta)
qed

lemma side_live_step:
  assumes sl: "side_live e p items" and rem: "0 < RemainingQuantity (heap e p)" and i: "i < length items"
    and q: "q = pairQuantity e p (items ! i)"
    and h1: "heap e1 = (heap e)(p := fill q (heap e p), items ! i := restAfter q (heap e (items ! i)))"
  shows "side_live e1 p (if RemainingQuantity (fill q (heap e (items ! i))) \<le> 0 then removeOrderIndex items i else items)"
proof -
  let ?r = "items ! i" and ?y = "heap e (items ! i)"
  have d: "distinct items" "?r \<in> set items" "?r \<noteq> p" using sl i by (auto simp: side_live_def)
  have wf: "order_wf (heap e p)" "order_wf ?y" "0 < RemainingQuantity ?y" using sl d(2) by (auto simp: side_live_def)
  note qb = pairQuantity_bounds [OF rem wf(3)]
  have p: "order_wf (heap e1 p)" using qb q wf(1) d(3) by (simp add: h1 fill_wf)
  have other: "heap e1 x = heap e x" if "x \<in> set items" "x \<noteq> ?r" for x
    using that sl by (auto simp: h1 side_live_def)
  show ?thesis
  proof (cases "RemainingQuantity (fill q ?y) \<le> 0")
    case True
    have "removeOrderIndex items i = filter (\<lambda>y. y \<noteq> ?r) items" by (rule removeOrderIndex_distinct [OF d(1) i])
    with True sl p other show ?thesis by (auto simp: side_live_def)
  next
    case False
    then have lt: "q < RemainingQuantity ?y" using wf(2) qb q by (auto simp: fill_exact)
    have "heap e1 ?r = restAfter q ?y" by (simp add: h1)
    moreover have "order_wf (restAfter q ?y)" "0 < RemainingQuantity (restAfter q ?y)" "live (restAfter q ?y)"
      using lt qb(1) q wf(2) by (simp_all add: restAfter_exact) (simp_all add: order_wf_def live_def)
    ultimately show ?thesis using False sl p other d by (auto simp: side_live_def) (metis+)
  qed
qed

lemma matchSide_sweep:
  "side_live e p items \<Longrightarrow> matchSide w e items p ts = (e', items', ts') \<Longrightarrow>
   (heap e' p, map (heap e') items', ts') =
     (case sweep w (tick e) (heap e p) (map (heap e) items) of (x, ys, us) \<Rightarrow> (x, ys, ts @ us))"
proof (induction w e items p ts arbitrary: e' items' ts' rule: matchSide.induct)
  case (1 w e items p ts)
  note pr = side_live_prune [OF "1.prems"(1)]
  show ?case
  proof (cases "0 < RemainingQuantity (heap e p)")
    case rem: True
    show ?thesis
    proof (cases "findCounterparty e items p")
      case None
      then have "\<forall>y\<in>set (map (heap e) items). \<not> takes (heap e p) y"
        by (auto simp: findCounterparty_None_iff eligible_takes)
      moreover have "(e', items', ts') = (e, items, ts)"
        using "1.prems"(2) rem None by (simp add: matchSide.simps [of w e items] pr)
      ultimately show ?thesis by (simp add: sweep_none)
    next
      case (Some i)
      then have i: "i < length items" "takes (heap e p) (heap e (items ! i))"
        "\<forall>j<i. \<not> takes (heap e p) (heap e (items ! j))"
        by (auto simp: findCounterparty_Some_iff eligible_takes)
      let ?q = "pairQuantity e p (items ! i)"
      let ?h = "(heap e)(p := fill ?q (heap e p), items ! i := restAfter ?q (heap e (items ! i)))"
      let ?e = "e\<lparr>heap := ?h, tick := Suc (tick e)\<rparr>"
      let ?it = "if RemainingQuantity (fill ?q (heap e (items ! i))) \<le> 0 then removeOrderIndex items i else items"
      let ?t = "buildTrade w (tick e) (heap e p) (heap e (items ! i)) ?q"
      have "0 < RemainingQuantity (heap e (items ! i))" "items ! i \<noteq> p"
        using i(2) by (auto simp: takes_def)
      note ex = executePair_eq [OF rem this, of w items i ts]
      have sl: "side_live ?e p ?it" by (rule side_live_step [OF "1.prems"(1) rem i(1) refl]) simp
      have "matchSide w ?e ?it p (ts @ [?t]) = (e', items', ts')"
        using "1.prems"(2) rem Some ex by (simp add: matchSide.simps [of w e items] pr)
      then have "(heap e' p, map (heap e') items', ts') =
          (case sweep w (tick ?e) (heap ?e p) (map (heap ?e) ?it) of (x, ys, us) \<Rightarrow> (x, ys, (ts @ [?t]) @ us))"
        using "1.IH" [unfolded pr, OF rem Some ex [symmetric] refl sl] by blast
      also have "\<dots> = (case sweep w (tick e) (heap e p) (map (heap e) items) of (x, ys, us) \<Rightarrow> (x, ys, ts @ us))"
        by (simp add: matchSide_sweep_step [OF "1.prems"(1) rem i refl refl refl] case_prod_beta)
      finally show ?thesis .
    qed
  next
    case False
    then show ?thesis using "1.prems"(2) by (simp add: matchSide.simps [of w e items] sweep_filled)
  qed
qed

end
