(* ===== verification/Sections.thy ===== *)
theory Sections
  imports Engine_Inv
begin

text \<open>
  Preservation of the engine invariant by the remaining locked sections: admitting an order, dropping
  it again, canceling, creating an event and opening a user's account.
\<close>

section \<open>Admission\<close>

text \<open>The requests whose reservation the code computes without wrap-around.\<close>

definition requestFits :: "CreateOrderReq \<Rightarrow> bool" where
  "requestFits req \<longleftrightarrow> reqQuantity req < 2 ^ 63
     \<and> (reqSide req = SideBuy \<longrightarrow> reqOrderType req \<noteq> OrderTypeMarket \<longrightarrow> reqQuantity req * reqPrice req < 2 ^ 63)"

lemma validateOrder_None:
  "validateOrder x = None \<longleftrightarrow> EventID x \<noteq> [] \<and> UserID x \<noteq> [] \<and> 0 < Quantity x
     \<and> Side x \<in> {SideBuy, SideSell} \<and> Outcome x \<in> {OutcomeYes, OutcomeNo}
     \<and> (OrderType x = OrderTypeLimit \<and> 0 < Price x \<or> OrderType x = OrderTypeMarket)"
  by (auto simp: validateOrder_def)

lemma newOrder_ok:
  assumes "validateOrder (newOrder w n req) = None" and "requestFits req"
  shows "order_wf (newOrder w n req)" "status_ok (newOrder w n req)" "noOverflow (newOrder w n req)"
proof -
  have v: "0 < reqQuantity req" "reqOrderType req = OrderTypeLimit \<and> 0 < reqPrice req \<or> reqOrderType req = OrderTypeMarket"
    "reqSide req \<in> {SideBuy, SideSell}" "reqOutcome req \<in> {OutcomeYes, OutcomeNo}"
    using assms(1) by (auto simp: validateOrder_None newOrder_def)
  then show "order_wf (newOrder w n req)" using assms(2) by (auto simp: order_wf_def newOrder_def requestFits_def)
  show "status_ok (newOrder w n req)" by (simp add: status_ok_def newOrder_def)
  show "noOverflow (newOrder w n req)" using v assms(2) by (auto simp: noOverflow_def newOrder_def requestFits_def)
qed

lemma struct_ok_new:
  assumes st: "struct_ok e F" and x: "order_wf x" "Status x = StatusPending" "FilledQuantity x = 0"
    and new: "orders e (ID x) = None" and mk: "markets e (EventID x) \<noteq> None"
    and e': "markets e' = markets e" "orders e' = (orders e)(ID x \<mapsto> nextPtr e)"
      "heap e' = (heap e)(nextPtr e := x)" "nextPtr e' = Suc (nextPtr e)"
  shows "struct_ok e' (insert (nextPtr e) F)"
proof -
  have tb: "table_ok e" and bk: "\<And>ev oc sd. sd \<in> {SideBuy, SideSell} \<Longrightarrow> book_ok e ev oc sd"
    and fl: "flight_ok e F" using st by (auto simp: struct_ok_def orders_ok_def)
  have reg: "i \<noteq> ID x" "p < nextPtr e" if "orders e i = Some p" for i p
    using that new table_okD [OF tb that] by auto
  have "orders_ok e'"
    using st x mk reg by (auto simp: struct_ok_def orders_ok_def table_ok_def status_ok_def e' less_Suc_eq)
  moreover have "book_ok e' ev oc sd" if "sd \<in> {SideBuy, SideSell}" for ev oc sd
  proof -
    have rs: "resting e r ev oc sd" if "r \<in> set (bookList (markets e) ev oc sd)" for r
      using book_member bk \<open>sd \<in> _\<close> that by blast
    then have "heap e' r = heap e r" "resting e' r ev oc sd" if "r \<in> set (bookList (markets e) ev oc sd)" for r
      using rs [OF that] reg(1) [of "ID (heap e r)" r] by (simp_all add: resting_def e')
    then show ?thesis using bk [OF that, of ev oc] by (simp add: book_ok_def e'(1) cong: map_cong)
  qed
  moreover have "flight_ok e' (insert (nextPtr e) F)"
  proof -
    have "\<not> booked e' (nextPtr e)"
    proof
      assume "booked e' (nextPtr e)"
      then have "nextPtr e \<in> set (bookList (markets e) (EventID x) (Outcome x) (Side x))"
        by (simp add: booked_def e')
      moreover have "Side x \<in> {SideBuy, SideSell}" using x(1) by (simp add: order_wf_def)
      ultimately have "resting e (nextPtr e) (EventID x) (Outcome x) (Side x)" using book_member bk by blast
      then show False by (simp add: resting_def)
    qed
    moreover have "booked e' q = booked e q" if "q < nextPtr e" for q using that by (simp add: booked_def e')
    ultimately show ?thesis
      using fl x reg unfolding flight_ok_def by (simp add: e') (metis less_irrefl)
  qed
  ultimately show ?thesis by (simp add: struct_ok_def)
qed

text \<open>What admission does: an answer at once with at most an empty ledger entry added, or a new order.\<close>

lemma admitOrder_cases:
  assumes ad: "admitOrder w e req = (e', r)" and fits: "requestFits req"
  obtains (answer) resp where "r = Inl resp" "e' = e \<or> e' = e\<lparr>tick := Suc (tick e)\<rparr>
      \<or> e' = touch (e\<lparr>tick := Suc (tick e)\<rparr>) (newOrder w (tick e) req)"
  | (enter) x d e1 where "r = Inr (nextPtr e)" "x = newOrder w (tick e) req" "d = demand e x" "d \<le> funds e x"
      "validateOrder x = None" "orders e (ID x) = None" "markets e (EventID x) \<noteq> None"
      "e1 = draw (e\<lparr>tick := Suc (tick e)\<rparr>) x d"
      "e' = e1\<lparr>heap := (heap e1)(nextPtr e1 := x\<lparr>LockedFunds := d\<rparr>), nextPtr := Suc (nextPtr e1),
         orders := (orders e1)(ID x \<mapsto> nextPtr e1)\<rparr>"
proof -
  let ?x = "newOrder w (tick e) req" and ?e = "e\<lparr>tick := Suc (tick e)\<rparr>"
  consider "reqQuantity req \<le> 0" | err where "0 < reqQuantity req" "validateOrder ?x = Some err"
    | p where "0 < reqQuantity req" "validateOrder ?x = None" "orders e (ID ?x) = Some p"
    | "0 < reqQuantity req" "validateOrder ?x = None" "orders e (ID ?x) = None" "markets e (EventID ?x) = None"
    | "0 < reqQuantity req" "validateOrder ?x = None" "orders e (ID ?x) = None" "markets e (EventID ?x) \<noteq> None"
    by (cases "validateOrder ?x"; cases "orders e (ID ?x)"; fastforce)
  then show thesis
  proof cases
    case 5
    have dm: "demand ?e ?x = demand e ?x" "funds ?e ?x = funds e ?x" by (simp_all add: demand_def funds_def)
    have nx: "nextPtr (draw ?e ?x d) = nextPtr e" for d by (simp add: draw_def)
    note rv = reserveOrderLocked_eq [OF newOrder_ok(3) [OF 5(2) fits], of ?e]
    show thesis
    proof (cases "demand e ?x \<le> funds e ?x")
      case True
      with 5 ad show thesis by (intro enter) (auto simp: admitOrder_def Let_def rv dm nx)
    next
      case False
      with 5 ad show thesis by (intro answer) (auto simp: admitOrder_def Let_def rv dm)
    qed
  qed (use ad in \<open>auto simp: admitOrder_def Let_def intro: answer\<close>)
qed

lemma touch_frame [simp]:
  "markets (touch e x) = markets e" "orders (touch e x) = orders e" "heap (touch e x) = heap e"
  "nextPtr (touch e x) = nextPtr e" "replaying (touch e x) = replaying e"
  by (simp_all add: touch_def)

lemma draw_frame [simp]:
  "markets (draw e x d) = markets e" "orders (draw e x d) = orders e" "heap (draw e x d) = heap e"
  "nextPtr (draw e x d) = nextPtr e" "replaying (draw e x d) = replaying e"
  by (simp_all add: draw_def)

text \<open>The invariant sees these fields only.\<close>

lemma inv_cong:
  assumes "markets e' = markets e" "orders e' = orders e" "heap e' = heap e" "nextPtr e' = nextPtr e"
    and "ledger_ok e'"
  shows "inv e F \<Longrightarrow> inv e' F"
proof -
  assume "inv e F"
  moreover have "struct_ok e' F = struct_ok e F" by (rule struct_ok_cong) (simp_all add: assms)
  ultimately show "inv e' F" using assms by (simp add: inv_def covered_def released_def)
qed

lemma ledger_ok_frame:
  assumes "balances e' = balances e" "positions e' = positions e" "heap e' = heap e" "nextPtr e' = nextPtr e"
  shows "ledger_ok e' = ledger_ok e" "totalCash e' = totalCash e" "totalShares e' = totalShares e"
  using ledger_ok_static [of e' e] assms by simp_all

lemma admit_inv:
  assumes inv: "inv e F" and fits: "requestFits req" and ad: "admitOrder w e req = (e', r)"
  shows "inv e' (case r of Inl _ \<Rightarrow> F | Inr p \<Rightarrow> insert p F)"
    and "totalCash e' = totalCash e" "totalShares e' = totalShares e"
    and "r = Inr p \<Longrightarrow> p = nextPtr e \<and> orders e' = (orders e)(ID (heap e' p) \<mapsto> p)"
proof -
  let ?e = "e\<lparr>tick := Suc (tick e)\<rparr>"
  have lg: "ledger_ok e" and st: "struct_ok e F" and cv: "covered e []" and rl: "released e"
    using inv by (simp_all add: inv_def)
  have lgt: "ledger_ok ?e" "totalCash ?e = totalCash e" "totalShares ?e = totalShares e"
    using ledger_ok_frame [of ?e e] lg by simp_all
  from ad fits have "inv e' (case r of Inl _ \<Rightarrow> F | Inr p \<Rightarrow> insert p F) \<and> totalCash e' = totalCash e
      \<and> totalShares e' = totalShares e \<and> (r = Inr p \<longrightarrow> p = nextPtr e \<and> orders e' = (orders e)(ID (heap e' p) \<mapsto> p))"
  proof (cases rule: admitOrder_cases)
    case (answer resp)
    let ?t = "touch ?e (newOrder w (tick e) req)"
    have "inv ?e F" by (rule inv_cong [OF _ _ _ _ lgt(1) inv]) simp_all
    moreover have "inv ?t F" by (rule inv_cong [OF _ _ _ _ ledger_ok_touch(1) [OF lgt(1)] inv]) simp_all
    ultimately show ?thesis using answer inv lgt ledger_ok_touch [OF lgt(1)] by auto
  next
    case (enter x d e1)
    have x: "order_wf x" "noOverflow x" using newOrder_ok [of w "tick e" req] enter(2,5) fits by simp_all
    have xs: "Status x = StatusPending" "FilledQuantity x = 0" by (simp_all add: enter(2) newOrder_def)
    have same: "demand ?e x = demand e x" "funds ?e x = funds e x" by (simp_all add: demand_def funds_def)
    have de: "demand ?e x = d" "d \<le> funds ?e x" using enter(3,4) by (simp_all only: same)
    have "0 \<le> Available (holding (balances e) (UserID x))" using lg by (simp add: ledger_ok_def backed_def)
    then have d0: "0 \<le> d" using x(2) enter(3) by (simp add: demand_def noOverflow_def)
    note dr = ledger_ok_draw [OF lgt(1), of x "(orders e1)(ID x \<mapsto> nextPtr e1)"]
    have lg': "ledger_ok e'" "totalCash e' = totalCash e" "totalShares e' = totalShares e"
      using dr d0 de enter(8,9) lgt(2,3) by simp_all
    have fr: "markets e' = markets e" "orders e' = (orders e)(ID x \<mapsto> nextPtr e)"
      "heap e' = (heap e)(nextPtr e := x\<lparr>LockedFunds := d\<rparr>)" "nextPtr e' = Suc (nextPtr e)"
      by (simp_all add: enter(8,9))
    have "struct_ok e' (insert (nextPtr e) F)"
      by (rule struct_ok_new [OF st, of "x\<lparr>LockedFunds := d\<rparr>"]) (use x(1) xs enter(6,7) fr in \<open>simp_all add: order_wf_def\<close>)
    moreover have "cover (x\<lparr>LockedFunds := d\<rparr>) 0"
      using d0 enter(3) by (simp add: cover_def demand_def)
    then have "covered e' []"
      using covered_NilD [OF cv] by (auto simp: covered_def fr split: if_splits)
    moreover have "released e'" using rl xs by (auto simp: released_def fr split: if_splits)
    ultimately show ?thesis using lg' enter(1) fr by (simp add: inv_def)
  qed
  then show "inv e' (case r of Inl _ \<Rightarrow> F | Inr p \<Rightarrow> insert p F)" "totalCash e' = totalCash e"
    "totalShares e' = totalShares e" "r = Inr p \<Longrightarrow> p = nextPtr e \<and> orders e' = (orders e)(ID (heap e' p) \<mapsto> p)"
    by blast+
qed

section \<open>Dropping an order that could not be streamed\<close>

lemma drop_inv:
  assumes inv: "inv e F" and p: "p \<in> F"
  shows "inv (dropOrder e p) (F - {p})" "totalCash (dropOrder e p) = totalCash e"
    "totalShares (dropOrder e p) = totalShares e"
proof -
  let ?e = "dropOrder e p"
  have fr: "markets ?e = markets e" "orders ?e = (orders e)(ID (heap e p) := None)" "nextPtr ?e = nextPtr e"
    "heap ?e = (heap e)(p := (heap e p)\<lparr>Status := StatusRejected\<rparr>)" "balances ?e = balances e" "positions ?e = positions e"
    by (simp_all add: dropOrder_def setStatus_def setOrder_def)
  have st: "struct_ok e F" and cv: "covered e []" and rl: "released e" and lg: "ledger_ok e"
    using inv by (simp_all add: inv_def)
  have tb: "table_ok e" using st by (simp add: struct_ok_def orders_ok_def)
  have reg: "orders e (ID (heap e p)) = Some p" "\<not> booked e p" using st p by (simp_all add: struct_ok_def flight_ok_def)
  have other: "q \<noteq> p" if "orders e i = Some q" "i \<noteq> ID (heap e p)" for i q
    using that table_okD [OF tb that(1)] by auto
  have "static (heap ?e q) = static (heap e q)" for q by (simp add: fr)
  note lg' = ledger_ok_static [OF fr(5,6,3) this]
  show "totalCash ?e = totalCash e" "totalShares ?e = totalShares e" by (rule lg')+
  have "orders_ok ?e"
    using st by (auto simp: struct_ok_def orders_ok_def table_ok_def order_wf_def status_ok_def fr)
  moreover have "book_ok ?e ev oc sd" if sd: "sd \<in> {SideBuy, SideSell}" for ev oc sd
  proof -
    have same: "resting ?e r ev oc sd \<and> r \<noteq> p" if "r \<in> set (bookList (markets e) ev oc sd)" for r
    proof -
      have rs: "resting e r ev oc sd" "booked e r" using book_member [OF struct_book [OF st sd] that] by simp_all
      then have "r \<noteq> p" using reg(2) by auto
      moreover from this have "ID (heap e r) \<noteq> ID (heap e p)" using rs(1) reg(1) by (auto simp: resting_def)
      ultimately show ?thesis using rs(1) by (simp add: resting_def fr)
    qed
    have "prio sd (heap ?e r) = prio sd (heap e r)" for r by (simp add: fr prio_def)
    then show ?thesis using struct_book [OF st sd, of ev oc] same by (simp add: book_ok_def fr(1))
  qed
  moreover have "flight_ok ?e (F - {p})"
  proof -
    have bk: "booked ?e q = booked e q" for q by (simp add: booked_def fr)
    have "f \<noteq> p \<Longrightarrow> f \<in> F \<Longrightarrow> ID (heap e f) \<noteq> ID (heap e p)" for f
      using st reg(1) by (auto simp: struct_ok_def flight_ok_def)
    then show ?thesis using st other unfolding struct_ok_def flight_ok_def bk by (simp add: fr)
  qed
  moreover have "covered ?e []" using covered_NilD [OF cv] other by (simp add: covered_def fr)
  moreover have "released ?e" using rl other by (simp add: released_def fr)
  ultimately show "inv ?e (F - {p})" using lg lg'(1) by (simp add: inv_def struct_ok_def)
qed

section \<open>Cancellation\<close>

lemma filter_neq_id: "p \<notin> set rs \<Longrightarrow> filter (\<lambda>r. r \<noteq> p) rs = rs"
  by (auto simp: filter_id_conv)

lemma removeOrderFromSlice_eq:
  "(\<forall>r\<in>set rs. orders e (ID (heap e r)) = Some r) \<Longrightarrow> distinct rs \<Longrightarrow> orders e (ID (heap e p)) = Some p \<Longrightarrow>
   removeOrderFromSlice e rs (ID (heap e p)) = (filter (\<lambda>r. r \<noteq> p) rs, p \<in> set rs)"
proof (induction rs)
  case Nil
  then show ?case by simp
next
  case (Cons r rs)
  show ?case
  proof (cases "r = p")
    case True
    with Cons.prems show ?thesis by (simp add: filter_neq_id)
  next
    case False
    then have "ID (heap e r) \<noteq> ID (heap e p)" using Cons.prems by auto
    with False Cons show ?thesis by auto
  qed
qed

text \<open>What a successful cancellation does.\<close>

lemma removeFromBook_books:
  assumes st: "struct_ok e F" and reg: "orders e i = Some p" and mk: "markets e (EventID (heap e p)) = Some m"
    and sd: "sd \<in> {SideBuy, SideSell}"
  shows "bookList ((markets e)(EventID (heap e p) \<mapsto> removeFromBook e m (heap e p))) ev oc sd =
    filter (\<lambda>r. r \<noteq> p) (bookList (markets e) ev oc sd)"
proof -
  let ?x = "heap e p"
  let ?ms = "(markets e)(EventID ?x \<mapsto> removeFromBook e m ?x)"
  have tb: "table_ok e" using st by (simp add: struct_ok_def orders_ok_def)
  have lt: "p < nextPtr e" and id: "ID ?x = i" using table_okD [OF tb reg] by simp_all
  have wf: "order_wf ?x" using st lt by (simp add: struct_ok_def orders_ok_def)
  then obtain b where b: "Book m (Outcome ?x) = Some b" using Book_Some_iff [of m "Outcome ?x"] by (auto simp: order_wf_def)
  have rm: "fst (removeOrderFromSlice e rs (ID ?x)) = filter (\<lambda>r. r \<noteq> p) rs"
    if "rs = bookList (markets e) (EventID ?x) (Outcome ?x) d" "d \<in> {SideBuy, SideSell}" for rs d
  proof -
    have "book_ok e (EventID ?x) (Outcome ?x) d" by (rule struct_book [OF st that(2)])
    then have "\<forall>r\<in>set rs. orders e (ID (heap e r)) = Some r" "distinct rs"
      unfolding book_ok_def resting_def that(1) by blast+
    then show ?thesis using removeOrderFromSlice_eq [of rs e p] reg id by simp
  qed
  have old: "bookList (markets e) (EventID ?x) (Outcome ?x) d = (if d = SideBuy then Bids b else Asks b)" for d
    by (simp add: bookList_def mk b)
  have "bookList ?ms ev oc sd = (if ev = EventID ?x \<and> oc = Outcome ?x \<and> sd = Side ?x
      then filter (\<lambda>r. r \<noteq> p) (bookList (markets e) ev oc sd) else bookList (markets e) ev oc sd)"
    using wf sd rm [of "Bids b" SideBuy] rm [of "Asks b" SideSell]
    by (simp add: removeFromBook_def b bookList_setBook [where ms = "markets e", OF mk b] old order_wf_def) (auto simp: old)
  moreover have "p \<notin> set (bookList (markets e) ev oc sd)" if "\<not> (ev = EventID ?x \<and> oc = Outcome ?x \<and> sd = Side ?x)"
    using book_member [OF struct_book [OF st sd], of p] that by (auto simp: resting_def)
  ultimately show ?thesis using filter_neq_id [of p "bookList (markets e) ev oc sd"] by (simp split: if_splits)
qed

text \<open>The branches of the cancellation section.\<close>

lemma cancelLocked_shape:
  assumes run: "cancelLocked e i ev = (e', r)"
  obtains err where "r = Inl err" "e' = e"
  | p m where "orders e i = Some p" "Status (heap e p) \<notin> {StatusFilled, StatusCanceled, StatusRejected}"
      "markets e (EventID (heap e p)) = Some m" "r = Inr p"
      "e' = releaseOrderLocked (setStatus (e\<lparr>markets := (markets e)
         (EventID (heap e p) \<mapsto> removeFromBook e m (heap e p))\<rparr>) p StatusCanceled) p"
proof (cases "orders e i")
  case None
  then have "cancelLocked e i ev = (e, Inl ErrOrderNotFound)" by (simp add: cancelLocked_def)
  with run that(1) show thesis by (metis prod.inject)
next
  case (Some p)
  show thesis
  proof (cases "ev \<noteq> [] \<and> EventID (heap e p) \<noteq> ev \<or> Status (heap e p) \<in> {StatusFilled, StatusCanceled, StatusRejected}
      \<or> markets e (EventID (heap e p)) = None")
    case True
    then have "\<exists>err. cancelLocked e i ev = (e, Inl err)" by (auto simp: cancelLocked_def Some Let_def)
    with run that(1) show thesis by (metis prod.inject)
  next
    case False
    then obtain m where "markets e (EventID (heap e p)) = Some m" by blast
    moreover from this have "cancelLocked e i ev = (releaseOrderLocked (setStatus (e\<lparr>markets := (markets e)
        (EventID (heap e p) \<mapsto> removeFromBook e m (heap e p))\<rparr>) p StatusCanceled) p, Inr p)"
      using False by (auto simp: cancelLocked_def Some Let_def)
    ultimately show thesis using False Some run by (intro that(2) [of p m]) simp_all
  qed
qed

lemma cancelLocked_cases:
  assumes st: "struct_ok e F" and run: "cancelLocked e i ev = (e', r)"
  obtains (refused) err where "r = Inl err" "e' = e"
  | (canceled) p e1 where "r = Inr p" "orders e i = Some p" "live (heap e p)" "e' = releaseOrderLocked e1 p"
      "heap e1 = (heap e)(p := (heap e p)\<lparr>Status := StatusCanceled\<rparr>)" "orders e1 = orders e"
      "nextPtr e1 = nextPtr e" "balances e1 = balances e" "positions e1 = positions e"
      "\<And>ev. markets e1 ev = None \<longleftrightarrow> markets e ev = None"
      "\<And>ev oc sd. sd \<in> {SideBuy, SideSell} \<Longrightarrow>
         bookList (markets e1) ev oc sd = filter (\<lambda>r. r \<noteq> p) (bookList (markets e) ev oc sd)"
  using run
proof (cases rule: cancelLocked_shape)
  case (1 err)
  then show thesis by (rule refused)
next
  case (2 p m)
  have tb: "table_ok e" using st by (simp add: struct_ok_def orders_ok_def)
  have "status_ok (heap e p)" using st table_okD [OF tb 2(1)] by (simp add: struct_ok_def orders_ok_def)
  then have lv: "live (heap e p)" using 2(2) by (auto simp: status_ok_def live_def)
  show thesis
    by (intro canceled [OF 2(4,1) lv 2(5)])
      (simp_all add: setStatus_def setOrder_def 2(3) removeFromBook_books [OF st 2(1,3)])
qed

lemma cancel_inv:
  assumes inv: "inv e F" and run: "cancelLocked e i ev = (e', r)"
  shows "inv e' F \<and> totalCash e' = totalCash e \<and> totalShares e' = totalShares e"
proof -
  have st: "struct_ok e F" and cv: "covered e []" and rl: "released e" and lg: "ledger_ok e"
    using inv by (simp_all add: inv_def)
  have tb: "table_ok e" using st by (simp add: struct_ok_def orders_ok_def)
  from st run show ?thesis
  proof (cases rule: cancelLocked_cases)
    case (refused err)
    with inv show ?thesis by simp
  next
    case (canceled p e1)
    have lt: "p < nextPtr e" using table_okD [OF tb canceled(2)] by simp
    have wf: "order_wf (heap e p)" "status_ok (heap e p)" using st lt by (simp_all add: struct_ok_def orders_ok_def)
    have "static (heap e1 q) = static (heap e q)" for q by (simp add: canceled(5))
    note lg1 = ledger_ok_static [OF canceled(8,9,7) this]
    have lt1: "p < nextPtr e1" and lgo: "ledger_ok e1" using lt lg lg1(1) canceled(7) by simp_all
    note rel = ledger_ok_release [OF lgo lt1]
    have "orders_ok e1"
      using st order_positive_remaining [OF wf canceled(3)]
      by (auto simp: struct_ok_def orders_ok_def table_ok_def canceled(5-7,10) order_wf_def status_ok_def)
    moreover have "book_ok e1 ev oc sd" if sd: "sd \<in> {SideBuy, SideSell}" for ev oc sd
    proof -
      have "resting e1 r ev oc sd" if "r \<in> set (bookList (markets e) ev oc sd)" "r \<noteq> p" for r
        using book_member [OF struct_book [OF st sd] that(1)] that(2) by (simp add: resting_def canceled(5-7))
      moreover have "prio sd (heap e1 r) = prio sd (heap e r)" for r by (simp add: canceled(5) prio_def)
      ultimately show ?thesis
        using struct_book [OF st sd, of ev oc] by (simp add: book_ok_def canceled(11) [OF sd] sorted_filter)
    qed
    moreover have "flight_ok e1 F"
    proof -
      have sdq: "Side (heap e q) \<in> {SideBuy, SideSell}" if "orders e j = Some q" for j q
        using st table_okD [OF tb that] by (simp add: struct_ok_def orders_ok_def order_wf_def)
      have bk: "booked e1 q \<longleftrightarrow> booked e q \<and> q \<noteq> p" if "orders e j = Some q" for j q
        using canceled(11) [OF sdq [OF that]] by (cases "q = p") (simp_all add: booked_def canceled(5))
      have "\<not> live ((heap e p)\<lparr>Status := StatusCanceled\<rparr>)" by (simp add: live_def)
      with st bk show ?thesis unfolding struct_ok_def flight_ok_def canceled(5,6) by simp blast
    qed
    ultimately have st1: "struct_ok e1 F" by (simp add: struct_ok_def)
    have "cover ((heap e p)\<lparr>Status := StatusCanceled\<rparr>) 0"
      using covered_NilD [OF cv canceled(2)] by (simp add: cover_def)
    then have "covered e1 []" using covered_NilD [OF cv] by (simp add: covered_def canceled(5,6))
    note cv' = release_covered [OF lgo st1 this lt1]
    have "released e'" using rl by (simp add: released_def canceled(4-6) rel(4))
    with cv' rel st1 lg1 show ?thesis
      by (simp add: inv_def canceled(4,5) release_struct_ok [OF lgo lt1])
  qed
qed

section \<open>Events and users\<close>

lemma createEvent_inv:
  assumes inv: "inv e F"
  shows "inv (fst (handleCreateEvent e payload)) F"
    "totalCash (fst (handleCreateEvent e payload)) = totalCash e"
    "totalShares (fst (handleCreateEvent e payload)) = totalShares e"
proof -
  have "fst (handleCreateEvent e payload) = e \<or> (\<exists>ev. markets e ev = None
      \<and> fst (handleCreateEvent e payload) = e\<lparr>markets := (markets e)(ev \<mapsto> NewMarket)\<rparr>)"
    by (simp add: handleCreateEvent_def split: option.split) metis
  then consider "fst (handleCreateEvent e payload) = e"
    | ev where "markets e ev = None" "fst (handleCreateEvent e payload) = e\<lparr>markets := (markets e)(ev \<mapsto> NewMarket)\<rparr>"
    by blast
  then have "inv (fst (handleCreateEvent e payload)) F \<and> totalCash (fst (handleCreateEvent e payload)) = totalCash e
      \<and> totalShares (fst (handleCreateEvent e payload)) = totalShares e"
  proof cases
    case 1
    with inv show ?thesis by simp
  next
    case (2 ev)
    let ?e = "e\<lparr>markets := (markets e)(ev \<mapsto> NewMarket)\<rparr>"
    have bl: "bookList ((markets e)(ev \<mapsto> NewMarket)) = bookList (markets e)"
      by (rule ext)+ (simp add: bookList_def 2(1) Book_def NewMarket_def)
    have "struct_ok ?e F"
      using inv by (auto simp: inv_def struct_ok_def orders_ok_def table_ok_def book_ok_def resting_def flight_ok_def
          booked_def bl)
    with inv 2(2) ledger_ok_frame [of ?e e] show ?thesis by (simp add: inv_def covered_def released_def)
  qed
  then show "inv (fst (handleCreateEvent e payload)) F"
    "totalCash (fst (handleCreateEvent e payload)) = totalCash e"
    "totalShares (fst (handleCreateEvent e payload)) = totalShares e" by blast+
qed

text \<open>The starting balance is the one inflow of cash.\<close>

lemma userCreated_inv:
  assumes inv: "inv e F" and room: "totalCash e + DefaultStartingBalance < 2 ^ 63"
  shows "inv (fst (handleUserCreated e payload)) F"
    "totalCash (fst (handleUserCreated e payload)) \<in> {totalCash e, totalCash e + DefaultStartingBalance}"
    "totalShares (fst (handleUserCreated e payload)) = totalShares e"
proof -
  have lg: "ledger_ok e" using inv by (simp add: inv_def)
  then have b: "backed (balances e) (lockedCash e)" by (simp add: ledger_ok_def)
  have "fst (handleUserCreated e payload) = e \<or> (\<exists>u. balances e u = None \<and> fst (handleUserCreated e payload) =
        e\<lparr>balances := (balances e)(u \<mapsto> \<lparr>Available = DefaultStartingBalance, Reserved = 0\<rparr>)\<rparr>)"
    by (simp add: handleUserCreated_def Let_def split: option.split) metis
  then consider "fst (handleUserCreated e payload) = e"
    | u where "balances e u = None" "fst (handleUserCreated e payload) =
        e\<lparr>balances := (balances e)(u \<mapsto> \<lparr>Available = DefaultStartingBalance, Reserved = 0\<rparr>)\<rparr>"
    by blast
  then have "inv (fst (handleUserCreated e payload)) F
      \<and> totalCash (fst (handleUserCreated e payload)) \<in> {totalCash e, totalCash e + DefaultStartingBalance}
      \<and> totalShares (fst (handleUserCreated e payload)) = totalShares e"
  proof cases
    case 1
    with inv show ?thesis by simp
  next
    case (2 u)
    let ?b = "\<lparr>Available = DefaultStartingBalance, Reserved = 0\<rparr>"
    let ?e = "e\<lparr>balances := (balances e)(u \<mapsto> ?b)\<rparr>"
    have h: "holding (balances e) u = emptyHolding" by (simp add: holding_def 2(1))
    then have "lockedCash e u = 0" using backedD(5) [OF b, of u] by simp
    then have "backed (balances ?e) (lockedCash e)"
      using room h by (simp, intro backed_upd [OF b]) (simp_all add: DefaultStartingBalance_def PriceScale_def total_def totalCash_def)
    then have lg': "ledger_ok ?e" using lg by (simp add: ledger_ok_def)
    have "inv ?e F" by (rule inv_cong [OF _ _ _ _ lg' inv]) simp_all
    moreover have "totalCash ?e = totalCash e + DefaultStartingBalance"
      using h backedD(1) [OF b] by (simp add: totalCash_def msum_total_upd total_def del: msum_upd)
    ultimately show ?thesis using 2(2) by (simp add: totalShares_def)
  qed
  then show "inv (fst (handleUserCreated e payload)) F"
    "totalCash (fst (handleUserCreated e payload)) \<in> {totalCash e, totalCash e + DefaultStartingBalance}"
    "totalShares (fst (handleUserCreated e payload)) = totalShares e" by blast+
qed

end
