(* ===== verification/Transition.thy ===== *)
theory Transition
  imports Main
begin

text \<open>
  Runs of a labelled step relation whose labels satisfy a guard, and the contract of an invariant
  kept by guarded steps. The engine's locked sections, the partition leases and the websocket hub
  are interpretations.
\<close>

inductive runs ::
    "('s \<Rightarrow> 'a \<Rightarrow> bool) \<Rightarrow> ('s \<Rightarrow> 'a \<Rightarrow> 's \<Rightarrow> bool) \<Rightarrow> 's \<Rightarrow> 'a list \<Rightarrow> 's \<Rightarrow> bool"
  for guard :: "'s \<Rightarrow> 'a \<Rightarrow> bool" and step :: "'s \<Rightarrow> 'a \<Rightarrow> 's \<Rightarrow> bool" where
  runs_nil: "runs guard step s [] s"
| runs_snoc: "runs guard step s as s' \<Longrightarrow> guard s' a \<Longrightarrow> step s' a s'' \<Longrightarrow> runs guard step s (as @ [a]) s''"

lemma runs_append:
  "runs guard step s' bs s'' \<Longrightarrow> runs guard step s as s' \<Longrightarrow> runs guard step s (as @ bs) s''"
proof (induction rule: runs.induct)
  case (runs_snoc s' bs t b t')
  then show ?case using runs.runs_snoc [of guard step s "as @ bs" t b t'] by simp
qed simp

lemma runs_single: "guard s a \<Longrightarrow> step s a s' \<Longrightarrow> runs guard step s [a] s'"
  using runs_snoc [OF runs_nil, of guard s a step s'] by simp

lemma runs_cons:
  "guard s a \<Longrightarrow> step s a s' \<Longrightarrow> runs guard step s' as s'' \<Longrightarrow> runs guard step s (a # as) s''"
  using runs_append [of guard step s' as s'' s "[a]"] runs_single [of guard s a step s'] by simp

lemma runs_mono:
  "runs guard step s as s' \<Longrightarrow> (\<And>t a. a \<in> set as \<Longrightarrow> guard t a \<Longrightarrow> guard' t a) \<Longrightarrow> runs guard' step s as s'"
proof (induction rule: runs.induct)
  case (runs_snoc s as s' a s'')
  then show ?case by (intro runs.runs_snoc [of guard' step s as s' a s'']) simp_all
qed (rule runs.runs_nil)

locale guarded_system =
  fixes guard :: "'s \<Rightarrow> 'a \<Rightarrow> bool" and step :: "'s \<Rightarrow> 'a \<Rightarrow> 's \<Rightarrow> bool" and invariant :: "'s \<Rightarrow> bool"
  assumes step_invariant: "invariant s \<Longrightarrow> guard s a \<Longrightarrow> step s a s' \<Longrightarrow> invariant s'"
begin

lemma runs_invariant: "runs guard step s as s' \<Longrightarrow> invariant s \<Longrightarrow> invariant s'"
proof (induction rule: runs.induct)
  case (runs_snoc s as s' a s'')
  then show ?case using step_invariant [of s' a s''] by simp
qed simp

text \<open>A measure that no step changes by more than its label allows changes by no more than their sum.\<close>

lemma runs_measure:
  assumes "\<And>s a s'. invariant s \<Longrightarrow> guard s a \<Longrightarrow> step s a s' \<Longrightarrow> R a (f s) (f s')"
    and "runs guard step s as s'" and "invariant s"
    and "Q [] (f s)" and "\<And>as a x y. Q as x \<Longrightarrow> R a x y \<Longrightarrow> Q (as @ [a]) y"
  shows "Q as (f s')"
  using assms(2-4)
proof (induction rule: runs.induct)
  case (runs_snoc s as s' a s'')
  then have "Q as (f s')" "invariant s'" using runs_invariant [of s as s'] by simp_all
  then show ?case using assms(1) [of s' a s''] assms(5) [of as "f s'" a "f s''"] runs_snoc.hyps by simp
qed simp

end

end
