(* ===== verification/Interleaving.thy ===== *)
theory Interleaving
  imports Sections Transition
begin

text \<open>
  The partition workers share one engine. Each worker runs its handler in steps: the sections it runs
  under \<^verbatim>\<open>e.mu\<close> and the emits between them. \<open>step\<close> interleaves them in any order; \<open>flying\<close> holds, per
  partition, the order its worker has admitted and not yet matched or dropped. A handler call is a
  sequence of such steps (\<open>handleMessage_steps\<close>), so what holds after every step sequence holds of every
  schedule of the workers.
\<close>

section \<open>Steps\<close>

record Sys =
  eng :: Engine
  flying :: "int \<Rightarrow> ptr option"

datatype Act = Admit int CreateOrderReq | Match int | Drop int | Cancel string string
  | CreateEvent raw | UserCreated raw | Emit int string json bool | Count Metrics

inductive step :: "World \<Rightarrow> Sys \<Rightarrow> Act \<Rightarrow> Sys \<Rightarrow> bool" for w where
  answered: "flying s pid = None \<Longrightarrow> admitOrder w (eng s) req = (e', Inl resp) \<Longrightarrow>
    step w s (Admit pid req) (s\<lparr>eng := e'\<rparr>)"
| admitted: "flying s pid = None \<Longrightarrow> admitOrder w (eng s) req = (e', Inr p) \<Longrightarrow>
    step w s (Admit pid req) (s\<lparr>eng := e', flying := (flying s)(pid := Some p)\<rparr>)"
| matched: "flying s pid = Some p \<Longrightarrow>
    step w s (Match pid) (s\<lparr>eng := fst (matchOrderLocked w (eng s) p), flying := (flying s)(pid := None)\<rparr>)"
| dropped: "flying s pid = Some p \<Longrightarrow>
    step w s (Drop pid) (s\<lparr>eng := dropOrder (eng s) p, flying := (flying s)(pid := None)\<rparr>)"
| cancel: "step w s (Cancel i ev) (s\<lparr>eng := fst (cancelLocked (eng s) i ev)\<rparr>)"
| event: "step w s (CreateEvent payload) (s\<lparr>eng := fst (handleCreateEvent (eng s) payload)\<rparr>)"
| user: "step w s (UserCreated payload) (s\<lparr>eng := fst (handleUserCreated (eng s) payload)\<rparr>)"
| emit: "step w s (Emit pid ty d b) (s\<lparr>eng := fst (emitEventP w (eng s) pid ty d b)\<rparr>)"
| count: "step w s (Count m) (s\<lparr>eng := (eng s)\<lparr>metrics := m\<rparr>\<rparr>)"

text \<open>The sizes for which the \<^verbatim>\<open>int64\<close> arithmetic of the ledger is exact.\<close>

fun within :: "World \<Rightarrow> Sys \<Rightarrow> Act \<Rightarrow> bool" where
  "within w s (Admit pid req) = requestFits req"
| "within w s (Match pid) = (case flying s pid of None \<Rightarrow> True | Some p \<Rightarrow> affordable w (eng s) p)"
| "within w s (UserCreated payload) = (totalCash (eng s) + DefaultStartingBalance < 2 ^ 63)"
| "within w s _ = True"

text \<open>No two workers have the same order in flight.\<close>

definition one_each :: "(int \<rightharpoonup> ptr) \<Rightarrow> bool" where
  "one_each m \<longleftrightarrow> (\<forall>k l p. m k = Some p \<longrightarrow> m l = Some p \<longrightarrow> k = l)"

definition sys_ok :: "Sys \<Rightarrow> bool" where
  "sys_ok s \<longleftrightarrow> inv (eng s) (ran (flying s)) \<and> one_each (flying s)"

section \<open>Every step keeps the invariant\<close>

lemma ran_clear:
  assumes one: "one_each m" and "m k = Some v"
  shows "ran (m(k := None)) = ran m - {v}" "one_each (m(k := None))"
proof -
  have "m x \<noteq> Some v" if "x \<noteq> k" for x using assms that unfolding one_each_def by blast
  then have "(\<exists>a. a \<noteq> k \<and> m a = Some x) \<longleftrightarrow> (\<exists>a. m a = Some x) \<and> x \<noteq> v" for x
    using assms(2) by (metis option.inject)
  then show "ran (m(k := None)) = ran m - {v}" by (auto simp: ran_def)
  show "one_each (m(k := None))" using one by (simp add: one_each_def)
qed

lemma one_each_add: "one_each m \<Longrightarrow> v \<notin> ran m \<Longrightarrow> one_each (m(k := Some v))"
  unfolding one_each_def ran_def by simp blast

lemma flying_lt: "inv e F \<Longrightarrow> p \<in> F \<Longrightarrow> p < nextPtr e"
  using table_okD by (auto simp: inv_def struct_ok_def orders_ok_def flight_ok_def)

lemma inv_metrics: "inv e F \<Longrightarrow> inv (e\<lparr>metrics := m\<rparr>) F"
  by (rule inv_cong [of _ e]) (simp_all add: ledger_ok_frame [of "e\<lparr>metrics := m\<rparr>" e] inv_def)

lemma inv_emit: "inv e F \<Longrightarrow> inv (fst (emitEventP w e p ty d b)) F"
  by (rule inv_cong [of _ e]) (simp_all add: ledger_ok_frame [of "fst (emitEventP w e p ty d b)" e] inv_def)

lemma step_facts:
  assumes "step w s a s'" and "sys_ok s" and "within w s a"
  shows "sys_ok s' \<and> totalShares (eng s') = totalShares (eng s)
    \<and> totalCash (eng s') \<in> {totalCash (eng s)} \<union>
        (case a of UserCreated _ \<Rightarrow> {totalCash (eng s) + DefaultStartingBalance} | _ \<Rightarrow> {})"
  using assms
proof (induction rule: step.induct)
  case (answered s pid req e' resp)
  then show ?case using admit_inv [of "eng s" "ran (flying s)" req w e' "Inl resp"] by (simp add: sys_ok_def)
next
  case (admitted s pid req e' p)
  note ad = admit_inv [of "eng s" "ran (flying s)" req w e' "Inr p"]
  from admitted have i: "inv (eng s) (ran (flying s))" and inj: "one_each (flying s)"
    by (simp_all add: sys_ok_def)
  have "requestFits req" using admitted(4) by simp
  then have "p = nextPtr (eng s)" using ad(4) [OF i _ admitted(2)] by simp
  then have "p \<notin> ran (flying s)" using flying_lt [OF i] by blast
  then have "one_each ((flying s)(pid := Some p))"
    by (rule one_each_add [OF inj])
  moreover have "ran ((flying s)(pid := Some p)) = insert p (ran (flying s))" using admitted(1) by (simp add: ran_map_upd)
  ultimately show ?case using ad i admitted by (simp add: sys_ok_def)
next
  case (matched s pid p)
  then have i: "inv (eng s) (ran (flying s))" "p \<in> ran (flying s)" "one_each (flying s)"
    by (auto simp: sys_ok_def ran_def)
  have af: "affordable w (eng s) p" using matched by simp
  show ?case using match_inv [OF i(1,2) af] ran_clear [OF i(3) matched(1)] by (simp add: sys_ok_def)
next
  case (dropped s pid p)
  then have i: "inv (eng s) (ran (flying s))" "p \<in> ran (flying s)" "one_each (flying s)"
    by (auto simp: sys_ok_def ran_def)
  show ?case using drop_inv [OF i(1,2)] ran_clear [OF i(3) dropped(1)] by (simp add: sys_ok_def)
next
  case (cancel s i ev)
  then show ?case
    using cancel_inv [of "eng s" "ran (flying s)" i ev] by (cases "cancelLocked (eng s) i ev") (simp add: sys_ok_def)
next
  case (event s payload)
  then show ?case using createEvent_inv [of "eng s" "ran (flying s)" payload] by (simp add: sys_ok_def)
next
  case (user s payload)
  then show ?case using userCreated_inv [of "eng s" "ran (flying s)" payload] by (simp add: sys_ok_def) blast
next
  case (emit s pid ty d b)
  then show ?case using inv_emit [of "eng s" "ran (flying s)"] ledger_ok_frame [of "fst (emitEventP w (eng s) pid ty d b)" "eng s"]
    by (simp add: sys_ok_def)
next
  case (count s m)
  then show ?case using inv_metrics [of "eng s" "ran (flying s)"] ledger_ok_frame [of "(eng s)\<lparr>metrics := m\<rparr>" "eng s"]
    by (simp add: sys_ok_def)
qed

interpretation engine: guarded_system "within w" "step w" sys_ok for w
  by unfold_locales (use step_facts in blast)

section \<open>Handlers are sequences of steps\<close>

definition reaches :: "World \<Rightarrow> Sys \<Rightarrow> Sys \<Rightarrow> bool" where
  "reaches w s s' \<longleftrightarrow> (\<exists>as. runs (\<lambda>_ _. True) (step w) s as s')"

lemma reaches_refl: "reaches w s s"
  unfolding reaches_def by (rule exI) (rule runs_nil)

lemma reaches_step: "step w s a s' \<Longrightarrow> reaches w s s'"
  unfolding reaches_def by (rule exI) (rule runs_single, simp_all)

lemma reaches_trans: "reaches w s s' \<Longrightarrow> reaches w s' s'' \<Longrightarrow> reaches w s s''"
  unfolding reaches_def using runs_append by fast

abbreviation sys :: "Engine \<Rightarrow> (int \<Rightarrow> ptr option) \<Rightarrow> Sys" where
  "sys e f \<equiv> \<lparr>eng = e, flying = f\<rparr>"

lemma reaches_count: "reaches w (sys e f) (sys (e\<lparr>metrics := m\<rparr>) f)"
  using reaches_step [OF step.count [of w "sys e f" m]] by simp

lemma reaches_emit: "reaches w (sys e f) (sys (fst (emitEventP w e pid ty d b)) f)"
  using reaches_step [OF step.emit [of w "sys e f"]] by simp

lemma reaches_report: "reaches w (sys e f) (sys (foldl (reportTrade w pid) e ts) f)"
proof (induction ts arbitrary: e)
  case Nil
  show ?case by (simp add: reaches_refl)
next
  case (Cons t ts)
  have "reaches w (sys e f) (sys (reportTrade w pid e t) f)"
    unfolding reportTrade_def publishTrade_def by (rule reaches_trans [OF reaches_count reaches_emit])
  then show ?case using Cons.IH reaches_trans by simp
qed

lemma matchOrder_eq:
  "matchOrderLocked w e p = (e1, None) \<Longrightarrow> fst (matchOrder w e p pid) = e1"
  "matchOrderLocked w e p = (e1, Some ts) \<Longrightarrow> fst (matchOrder w e p pid) =
     (if pid \<in> replaying e1 then e1 else foldl (reportTrade w pid)
        (if Status (heap e1 p) = StatusFilled
         then e1\<lparr>metrics := (metrics e1)\<lparr>OrdersFilled := Suc (OrdersFilled (metrics e1))\<rparr>\<rparr> else e1) ts)"
  by (simp_all add: matchOrder_def Let_def)

lemma reaches_match:
  "reaches w (sys e (f(pid := Some p))) (sys (fst (matchOrder w e p pid)) (f(pid := None)))"
proof -
  obtain e1 r where r: "matchOrderLocked w e p = (e1, r)" by (metis surj_pair)
  have m: "reaches w (sys e (f(pid := Some p))) (sys e1 (f(pid := None)))"
    using reaches_step [OF step.matched [of "sys e (f(pid := Some p))" pid p w]] by (simp add: r)
  have "reaches w (sys e1 g) (sys (fst (matchOrder w e p pid)) g)" for g
  proof (cases r)
    case None
    then show ?thesis using matchOrder_eq(1) [of w e p e1 pid] r by (simp add: reaches_refl)
  next
    case (Some ts)
    then show ?thesis
      using matchOrder_eq(2) [of w e p e1 ts pid] r reaches_refl reaches_report
        reaches_trans [OF reaches_count reaches_report] by simp
  qed
  with m show ?thesis by (rule reaches_trans)
qed

lemma reaches_createOrder:
  assumes "f pid = None"
  shows "reaches w (sys e f) (sys (fst (handleCreateOrderCore w e pid payload)) f)"
proof (cases "createOrderReqOfJson payload")
  case None
  then show ?thesis by (simp add: handleCreateOrderCore_def reaches_refl)
next
  case (Some req)
  obtain e1 r where r: "admitOrder w e req = (e1, r)" by (metis surj_pair)
  show ?thesis
  proof (cases r)
    case (Inl resp)
    have "reaches w (sys e f) (sys e1 f)"
      using reaches_step [OF step.answered [of "sys e f" pid w req e1 resp]] assms r Inl by simp
    then show ?thesis by (simp add: handleCreateOrderCore_def Some r Inl)
  next
    case (Inr p)
    have a: "reaches w (sys e f) (sys e1 (f(pid := Some p)))"
      using reaches_step [OF step.admitted [of "sys e f" pid w req e1 p]] assms r Inr by simp
    obtain e2 err where em: "emitEventP w e1 pid EventOrderCreated (orderToJson (heap e1 p)) False = (e2, err)"
      by (metis surj_pair)
    have b: "reaches w (sys e1 (f(pid := Some p))) (sys e2 (f(pid := Some p)))"
      using reaches_emit [of w e1 _ pid EventOrderCreated "orderToJson (heap e1 p)" False] by (simp add: em)
    have f: "f(pid := None) = f" using assms by (simp add: fun_upd_idem)
    have c: "reaches w (sys e2 (f(pid := Some p))) (sys (fst (handleCreateOrderCore w e pid payload)) f)"
    proof (cases err)
      case True
      then show ?thesis
        using reaches_step [OF step.dropped [of "sys e2 (f(pid := Some p))" pid p w]]
        by (simp add: handleCreateOrderCore_def Some r Inr em f)
    next
      case False
      then show ?thesis
        using reaches_trans [OF reaches_match [of w e2 f pid p] reaches_count]
        by (simp add: handleCreateOrderCore_def Some r Inr em f Let_def)
    qed
    show ?thesis by (rule reaches_trans [OF a reaches_trans [OF b c]])
  qed
qed

lemma reaches_cancelOrder: "reaches w (sys e f) (sys (fst (handleCancelOrderP w e pid payload)) f)"
proof -
  have step: "reaches w (sys e f) (sys e1 f)" if "cancelLocked e i ev = (e1, r)" for i ev e1 r
    using reaches_step [OF step.cancel [of w "sys e f" i ev]] by (simp add: that)
  note tail = reaches_trans [OF reaches_trans [OF step reaches_count] reaches_emit] reaches_trans [OF step reaches_emit]
  show ?thesis
    by (simp add: handleCancelOrderP_def Let_def reaches_refl step tail split: option.split prod.split sum.split)
qed

lemma handleMessage_reaches:
  assumes "f pid = None"
  shows "reaches w (sys e f) (sys (fst (handleMessage w e pid msg)) f)"
proof -
  have "reaches w (sys e f) (sys (fst (handleCreateOrderP w e pid payload)) f)" for payload
    using reaches_createOrder [of f pid w e payload] reaches_trans [OF _ reaches_count] assms
    by (simp add: handleCreateOrderP_def Let_def case_prod_beta)
  moreover have "reaches w (sys e f) (sys (fst (handleCreateEvent e payload)) f)" for payload
    using reaches_step [OF step.event [of w "sys e f" payload]] by simp
  moreover have "reaches w (sys e f) (sys (fst (handleUserCreated e payload)) f)" for payload
    using reaches_step [OF step.user [of w "sys e f" payload]] by simp
  ultimately show ?thesis
    by (simp add: handleMessage_def reaches_refl reaches_cancelOrder)
qed

end
