(* ===== verification/Scenario.thy ===== *)
theory Scenario
  imports Interleaving
begin

text \<open>
  A small concrete market the witnesses are evaluated on: user \<open>s\<close> holds ten YES shares of event \<open>e\<close>
  and sells five at 10, user \<open>b\<close> holds cash and buys three at up to 12. \<open>at0\<close> to \<open>at4\<close> are the engine
  states before and after the two admissions and the two matching sections.
\<close>

section \<open>The environment and the requests\<close>

definition world0 :: World where
  "world0 = \<lparr>NewString = (\<lambda>n. replicate (Suc n) CHR ''x''), Now = int, WriteErr = (\<lambda>_. False), SyncErr = (\<lambda>_. False),
     TruncateErr = (\<lambda>_. False), XAddErr = (\<lambda>_. False), PublishErr = (\<lambda>_. False),
     RangeLevels = (\<lambda>x. x), RangeOrders = (\<lambda>_. [])\<rparr>"

definition fresh :: Engine where
  "fresh = \<lparr>markets = Map.empty, orders = Map.empty, heap = (\<lambda>_. nilOrder), nextPtr = 0,
     balances = Map.empty, positions = Map.empty, redisManager = True,
     metrics = NewMetrics, engineID = ''engine-0'', leaseTTL = defaultLeaseTTL,
     leaseRenewInterval = defaultLeaseRenewInterval, router = NewRouter 1 ''commands'',
     partitionSeq = [0], partitionToken = Map.empty, partitions = {}, replaying = {},
     eventStream = EventStream, wsChannel = WSChannel, outbox = Some [],
     xadds = [], publishes = [], tick = 0\<rparr>"

lemma fresh_newEngine: "newEngine True True (Some []) = Inr fresh"
  by (simp add: newEngine_def fresh_def)

definition sellReq :: CreateOrderReq where
  "sellReq = \<lparr>reqOrderID = ''1'', reqEventID = ''e'', reqUserID = ''s'', reqOrderType = OrderTypeLimit,
     reqOutcome = OutcomeYes, reqSide = SideSell, reqQuantity = 5, reqPrice = 10\<rparr>"

definition buyReq :: CreateOrderReq where
  "buyReq = \<lparr>reqOrderID = ''2'', reqEventID = ''e'', reqUserID = ''b'', reqOrderType = OrderTypeLimit,
     reqOutcome = OutcomeYes, reqSide = SideBuy, reqQuantity = 3, reqPrice = 12\<rparr>"

definition sellJson :: raw where
  "sellJson = Some (JObj [(''orderId'', JStr ''1''), (''eventId'', JStr ''e''), (''userId'', JStr ''s''),
     (''orderType'', JStr OrderTypeLimit), (''outcome'', JStr OutcomeYes), (''side'', JStr SideSell),
     (''quantity'', JNum 5), (''price'', JNum 10)])"

lemma sellJson_decodes: "createOrderReqOfJson sellJson = Some sellReq"
  by (simp add: createOrderReqOfJson_def sellJson_def sellReq_def int64_def)

section \<open>The states\<close>

abbreviation keyS :: string where "keyS \<equiv> positionKey ''s'' ''e'' OutcomeYes"
abbreviation keyB :: string where "keyB \<equiv> positionKey ''b'' ''e'' OutcomeYes"

definition at0 :: Engine where
  "at0 = fresh\<lparr>markets := [''e'' \<mapsto> NewMarket], balances := [''b'' \<mapsto> \<lparr>Available = 100, Reserved = 0\<rparr>],
     positions := [keyS \<mapsto> \<lparr>Available = 10, Reserved = 0\<rparr>]\<rparr>"

definition sell1 :: Order where
  "sell1 = (newOrder world0 0 sellReq)\<lparr>LockedFunds := 5\<rparr>"

definition at1 :: Engine where
  "at1 = at0\<lparr>tick := 1, positions := [keyS \<mapsto> \<lparr>Available = 5, Reserved = 5\<rparr>],
     heap := (\<lambda>_. nilOrder)(0 := sell1), nextPtr := 1, orders := [''1'' \<mapsto> 0]\<rparr>"

definition at2 :: Engine where
  "at2 = at1\<lparr>markets := [''e'' \<mapsto> NewMarket\<lparr>YES := \<lparr>Bids = [], Asks = [0]\<rparr>\<rparr>]\<rparr>"

definition buy2 :: Order where
  "buy2 = (newOrder world0 1 buyReq)\<lparr>LockedFunds := 36\<rparr>"

definition at3 :: Engine where
  "at3 = at2\<lparr>tick := 2, balances := [''b'' \<mapsto> \<lparr>Available = 64, Reserved = 36\<rparr>],
     heap := (\<lambda>_. nilOrder)(0 := sell1, 1 := buy2), nextPtr := 2, orders := [''1'' \<mapsto> 0, ''2'' \<mapsto> 1]\<rparr>"

definition trade1 :: Trade where
  "trade1 = buildTrade world0 2 buy2 sell1 3"

definition at4 :: Engine where
  "at4 = at3\<lparr>tick := 3,
     balances := [''s'' \<mapsto> \<lparr>Available = 30, Reserved = 0\<rparr>, ''b'' \<mapsto> \<lparr>Available = 70, Reserved = 0\<rparr>],
     positions := [keyB \<mapsto> \<lparr>Available = 3, Reserved = 0\<rparr>, keyS \<mapsto> \<lparr>Available = 5, Reserved = 2\<rparr>],
     heap := (\<lambda>_. nilOrder)
       (0 := sell1\<lparr>RemainingQuantity := 2, FilledQuantity := 3, Status := StatusPartial, LockedFunds := 2\<rparr>,
        1 := buy2\<lparr>RemainingQuantity := 0, FilledQuantity := 3, Status := StatusFilled, LockedFunds := 0\<rparr>)\<rparr>"

lemmas scenario_defs = at0_def at1_def at2_def at3_def at4_def fresh_def sell1_def buy2_def sellReq_def buyReq_def
  newOrder_def trade1_def buildTrade_def

section \<open>Evaluation\<close>

lemma admit_at0: "admitOrder world0 at0 sellReq = (at1, Inr 0)"
  by (simp add: admitOrder_def scenario_defs validateOrder_def reserveOrderLocked_def getOrCreatePosition_def
      onPosition_def freeze_def i64_def Let_def const_defs)

lemma match_at1: "matchOrderLocked world0 at1 0 = (at2, Some [])"
  by (simp add: matchOrderLocked_def matchAgainstBook.simps scenario_defs removeInvalidBids_def restOrFinish_def
      Let_def const_defs Book_def setBook_def NewMarket_def setStatus_def setOrder_def addToBook_def)

lemma admit_at2: "admitOrder world0 at2 buyReq = (at3, Inr 1)"
  by (simp add: admitOrder_def scenario_defs validateOrder_def reserveOrderLocked_def getOrCreateBalance_def
      onBalance_def freeze_def i64_def Let_def const_defs)

lemma match_at3: "matchOrderLocked world0 at3 1 = (at4, Some [trade1])"
  by (simp add: matchOrderLocked_def matchAgainstBook.simps scenario_defs removeInvalidAsks_def restOrFinish_def
      Let_def const_defs Book_def setBook_def NewMarket_def setStatus_def setOrder_def addToBook_def
      invalidFront_def canMatch_def executePair_def minInt64_def fill_def i64_def settleTradeLocked_def
      settleLocked_def onBalance_eq onPosition_eq holding_def emptyHolding_def spend_def credit_def clamp0_def
      releaseOrderLocked_def unfreeze_def positionKey_def world0_def)

section \<open>The invariant along the scenario\<close>

lemma ledger_ok_no_orders:
  assumes "nextPtr e = 0" and "finite (dom (balances e))" "finite (dom (positions e))"
    and "msum total (balances e) < 2 ^ 63" "msum total (positions e) < 2 ^ 63"
    and "\<And>k. Reserved (holding (balances e) k) = 0 \<and> 0 \<le> Available (holding (balances e) k)"
    and "\<And>k. Reserved (holding (positions e) k) = 0 \<and> 0 \<le> Available (holding (positions e) k)"
  shows "ledger_ok e"
  using assms by (simp add: ledger_ok_def backed_def lockedCash_def lockedShares_def)

text \<open>An engine that holds no order satisfies the invariant as soon as its ledger does.\<close>

lemma inv_no_orders:
  assumes "nextPtr e = 0" "orders e = Map.empty" "\<And>ev oc sd. bookList (markets e) ev oc sd = []" "ledger_ok e"
  shows "inv e {}"
  using assms
  by (simp add: inv_def struct_ok_def orders_ok_def table_ok_def book_ok_def flight_ok_def covered_def released_def)

lemma at0_inv: "inv at0 {}"
proof (rule inv_no_orders)
  show "bookList (markets at0) ev oc sd = []" for ev oc sd
    by (simp add: at0_def bookList_def Book_def NewMarket_def)
  show "ledger_ok at0"
    by (rule ledger_ok_no_orders)
      (simp_all add: at0_def fresh_def holding_def total_def emptyHolding_def)
qed (simp_all add: at0_def fresh_def)

lemma requests_fit: "requestFits sellReq" "requestFits buyReq"
  by (simp_all add: requestFits_def sellReq_def buyReq_def const_defs)

lemma at1_inv: "inv at1 {0}"
  using admit_inv(1) [OF at0_inv requests_fit(1) admit_at0] by simp

lemma at1_affordable: "affordable world0 at1 0"
  unfolding affordable_def match_at1 by (simp add: marketBuy_def at1_def sell1_def newOrder_def sellReq_def)

lemma at2_inv: "inv at2 {}"
  using match_inv [OF at1_inv _ at1_affordable] by (simp add: match_at1)

lemma at3_inv: "inv at3 {1}"
  using admit_inv(1) [OF at2_inv requests_fit(2) admit_at2] by simp

lemma at3_affordable: "affordable world0 at3 1"
  unfolding affordable_def match_at3 by (simp add: marketBuy_def at3_def buy2_def newOrder_def buyReq_def)

lemma at4_inv: "inv at4 {}"
  using match_inv [OF at3_inv _ at3_affordable] unfolding match_at3 by simp

text \<open>The scenario as a run of two workers, first up to the matching of the second order.\<close>

definition placing :: "Act list" where
  "placing = [Admit 0 sellReq, Match 0, Admit 1 buyReq]"

definition trading :: "Act list" where
  "trading = placing @ [Match 1]"

lemma placing_runs: "runs (within world0) (step world0) (sys at0 Map.empty) placing (sys at3 [1 \<mapsto> 1])"
  unfolding placing_def
proof (rule runs_cons)
  show "step world0 (sys at0 Map.empty) (Admit 0 sellReq) (sys at1 [0 \<mapsto> 0])"
    using step.admitted [of "sys at0 Map.empty" 0 world0 sellReq at1 0] admit_at0 by simp
  show "runs (within world0) (step world0) (sys at1 [0 \<mapsto> 0]) [Match 0, Admit 1 buyReq] (sys at3 [1 \<mapsto> 1])"
  proof (rule runs_cons)
    show "step world0 (sys at1 [0 \<mapsto> 0]) (Match 0) (sys at2 Map.empty)"
      using step.matched [of "sys at1 [0 \<mapsto> 0]" 0 0 world0] by (simp add: match_at1)
    have "step world0 (sys at2 Map.empty) (Admit 1 buyReq) (sys at3 [1 \<mapsto> 1])"
      using step.admitted [of "sys at2 Map.empty" 1 world0 buyReq at3 1] admit_at2 by simp
    then show "runs (within world0) (step world0) (sys at2 Map.empty) [Admit 1 buyReq] (sys at3 [1 \<mapsto> 1])"
      by (rule runs_single [rotated]) (simp add: requests_fit)
  qed (simp add: at1_affordable)
qed (simp add: requests_fit)

lemma trading_runs: "runs (within world0) (step world0) (sys at0 Map.empty) trading (sys at4 Map.empty)"
proof -
  have "step world0 (sys at3 [1 \<mapsto> 1]) (Match 1) (sys at4 Map.empty)"
    using step.matched [of "sys at3 [1 \<mapsto> 1]" 1 1 world0] by (simp add: match_at3 [unfolded One_nat_def])
  moreover have "within world0 (sys at3 [1 \<mapsto> 1]) (Match 1)" using at3_affordable by simp
  ultimately show ?thesis unfolding trading_def by (intro runs_snoc [OF placing_runs])
qed

lemma at0_sys_ok: "sys_ok (sys at0 Map.empty)"
  using at0_inv by (simp add: sys_ok_def one_each_def)

end
