(* ===== verification/Matching_Props.thy ===== *)
theory Matching_Props
  imports Match_Spec Scenario "HOL-Library.Sublist"
begin

text \<open>
  What one matching section promises, stated over the definitions of the code: the loop is a single
  sweep of the opposite side, the counterparty is the best one, insertion is first-in first-out, each
  trade is legal, the order's quantities and status are final, and nothing that could trade is left.
\<close>

section \<open>The loop\<close>

lemma inv_setup:
  assumes "inv e F" and "p \<in> F" and "Status (heap e p) \<noteq> StatusCanceled"
  shows "match_setup (orders e) (heap e) p
    (bookList (markets e) (EventID (heap e p)) (Outcome (heap e p)) (opposite (Side (heap e p))))"
  using assms struct_setup [of e F p] by (simp add: inv_def)

lemma inv_side_live:
  assumes "inv e F" and "p \<in> F" and "Status (heap e p) \<noteq> StatusCanceled"
  shows "side_live e p
    (bookList (markets e) (EventID (heap e p)) (Outcome (heap e p)) (opposite (Side (heap e p))))"
    (is "side_live e p ?rs")
proof -
  note su = inv_setup [OF assms]
  have "order_wf (heap e r) \<and> 0 < RemainingQuantity (heap e r) \<and> live (heap e r)" if r: "r \<in> set ?rs" for r
    using match_setup_maker [OF su r] by (simp add: maker_ok_def)
  moreover have "distinct ?rs" "p \<notin> set ?rs" "order_wf (heap e p)" using su by (simp_all add: match_setup_def)
  ultimately show ?thesis unfolding side_live_def by blast
qed

lemma oppositeSide_bookList:
  assumes "markets e (EventID (heap e p)) = Some m" and "Book m (Outcome (heap e p)) = Some b"
  shows "oppositeSide e p b =
    bookList (markets e) (EventID (heap e p)) (Outcome (heap e p)) (opposite (Side (heap e p)))"
  using assms by (simp add: oppositeSide_def bookList_def opposite_def)

lemma loop_sweep:
  assumes "inv e F" and "p \<in> F" and "Status (heap e p) \<noteq> StatusCanceled"
    and "markets e (EventID (heap e p)) = Some m" and "Book m (Outcome (heap e p)) = Some b"
    and "matchAgainstBook w e b p [] = (e', b', ts)"
  shows "sweep w (tick e) (heap e p) (map (heap e) (oppositeSide e p b)) =
    (heap e' p, map (heap e') (oppositeSide e p b'), ts)"
proof -
  let ?rs = "oppositeSide e p b"
  obtain xs where run: "matchSide w e ?rs p [] = (e', xs, ts)" and b': "b' = putOpposite e p xs b"
    using assms(6) by (auto simp: matchAgainstBook_eq split: prod.splits)
  have "oppositeSide e p b' = xs" by (simp add: b' oppositeSide_def putOpposite_def)
  then show ?thesis
    using matchSide_sweep [OF _ run] inv_side_live [OF assms(1-3)] oppositeSide_bookList [OF assms(4,5)]
    by (simp add: case_prod_beta prod_eq_iff)
qed

text \<open>
  C3. The matching loop, which rescans the book after every executed pair, is equivalent to one pass
  over the opposite side on plain order values: same incoming order, same remaining side, same trades.
\<close>

theorem matchAgainstBook_sweep:
  assumes "inv e F" and "p \<in> F" and "Status (heap e p) \<noteq> StatusCanceled"
    and "markets e (EventID (heap e p)) = Some m" and "Book m (Outcome (heap e p)) = Some b"
    and "matchAgainstBook w e b p [] = (e', b', ts)"
  shows "sweep w (tick e) (heap e p) (map (heap e) (oppositeSide e p b)) =
    (heap e' p, map (heap e') (oppositeSide e p b'), ts)"
  using assms by (rule loop_sweep)

theorem matchAgainstBook_sweep_witness:
  "inv at3 {1} \<and> sweep world0 (tick at3) (heap at3 1) [sell1] =
     (buy2\<lparr>RemainingQuantity := 0, FilledQuantity := 3\<rparr>,
      [sell1\<lparr>RemainingQuantity := 2, FilledQuantity := 3, Status := StatusPartial\<rparr>], [trade1])"
proof -
  let ?b = "\<lparr>Bids = [], Asks = [0]\<rparr>" and ?m = "NewMarket\<lparr>YES := \<lparr>Bids = [], Asks = [0]\<rparr>\<rparr>"
  have ev: "EventID (heap at3 1) = ''e''" "Outcome (heap at3 1) = OutcomeYes" "Side (heap at3 1) = SideBuy"
    "Status (heap at3 1) \<noteq> StatusCanceled"
    by (simp_all add: at3_def buy2_def newOrder_def buyReq_def)
  have m: "markets at3 (EventID (heap at3 1)) = Some ?m" "Book ?m (Outcome (heap at3 1)) = Some ?b"
    unfolding ev by (simp_all add: at3_def at2_def Book_def)
  have "matchAgainstBook world0 at3 ?b 1 [] =
      (at3\<lparr>tick := 3, heap := (\<lambda>_. nilOrder)
        (1 := buy2\<lparr>RemainingQuantity := 0, FilledQuantity := 3\<rparr>,
         0 := sell1\<lparr>RemainingQuantity := 2, FilledQuantity := 3, Status := StatusPartial\<rparr>)\<rparr>, ?b, [trade1])"
    by (simp add: matchAgainstBook.simps scenario_defs removeInvalidAsks_def Let_def const_defs invalidFront_def
        canMatch_def executePair_def minInt64_def fill_def i64_def setOrder_def)
  note sw = matchAgainstBook_sweep [OF at3_inv _ ev(4) m this]
  have "heap at3 0 = sell1" by (simp add: at3_def)
  then show ?thesis using sw at3_inv ev(3) by (simp add: oppositeSide_def del: sweep.simps)
qed

section \<open>How long it runs\<close>

lemma sweep_makers: "subseq (map MatchOrderID (snd (snd (sweep w n x ys)))) (map ID ys)"
  by (induction ys arbitrary: n x) (auto simp: Let_def case_prod_beta buildTrade_def)

text \<open>
  C11. The matching loop ends after at most one pair per resting order: it takes its makers in the order of
  the book and none of them twice, so a section executes no more trades than the opposite side has
  orders.
\<close>

theorem match_bounded:
  assumes "inv e F" and "p \<in> F" and "matchOrderLocked w e p = (e', Some ts)"
  defines "side \<equiv> bookList (markets e) (EventID (heap e p)) (Outcome (heap e p)) (opposite (Side (heap e p)))"
  shows "subseq (map MatchOrderID ts) (map (\<lambda>r. ID (heap e r)) side) \<and> length ts \<le> length side"
proof -
  have live: "Status (heap e p) \<noteq> StatusCanceled" using assms(3) by (auto simp: matchOrderLocked_def)
  then obtain m b where mb: "markets e (EventID (heap e p)) = Some m" "Book m (Outcome (heap e p)) = Some b"
    and ts: "ts = snd (snd (matchAgainstBook w e b p []))"
    using assms(3) by (auto simp: matchOrderLocked_def Let_def case_prod_beta split: option.splits)
  obtain e1 b1 where run: "matchAgainstBook w e b p [] = (e1, b1, ts)" using ts by (metis prod.collapse)
  have "snd (snd (sweep w (tick e) (heap e p) (map (heap e) side))) = ts"
    using loop_sweep [OF assms(1,2) live mb run] oppositeSide_bookList [OF mb] by (simp add: side_def)
  then have "subseq (map MatchOrderID ts) (map (\<lambda>r. ID (heap e r)) side)"
    using sweep_makers [of w "tick e" "heap e p" "map (heap e) side"] by (simp add: comp_def)
  then show ?thesis using list_emb_length by fastforce
qed

theorem match_bounded_witness:
  "inv at3 {1} \<and> matchOrderLocked world0 at3 1 = (at4, Some [trade1]) \<and> subseq [MatchOrderID trade1] [''1'']"
proof -
  have "bookList (markets at3) (EventID (heap at3 1)) (Outcome (heap at3 1)) (opposite (Side (heap at3 1))) = [0]"
    by (simp add: at3_def buy2_def newOrder_def buyReq_def) (simp add: bookList_def at2_def Book_def opposite_def)
  moreover have "ID (heap at3 0) = ''1''" by (simp add: at3_def sell1_def newOrder_def sellReq_def)
  ultimately show ?thesis using match_bounded [OF at3_inv _ match_at3] at3_inv match_at3 by simp
qed

section \<open>Priority\<close>



text \<open>
  C12. A new order queues behind every order of its side whose price is as good or better and before
  every order with a worse price, so orders at one price stay first-in first-out.
\<close>

theorem addToBook_fifo:
  assumes "inv e F" and "markets e ev = Some m" and "Book m oc = Some b" and "Side (heap e p) \<in> {SideBuy, SideSell}"
  defines "sd \<equiv> Side (heap e p)"
  defines "rs \<equiv> bookList (markets e) ev oc sd"
  shows "(if sd = SideBuy then Bids (addToBook e b p) else Asks (addToBook e b p)) =
    takeWhile (\<lambda>r. prio sd (heap e r) \<le> prio sd (heap e p)) rs @ p #
    dropWhile (\<lambda>r. prio sd (heap e r) \<le> prio sd (heap e p)) rs"
proof -
  have "struct_ok e F" using assms(1) by (simp add: inv_def)
  then have "book_ok e ev oc sd" unfolding sd_def using assms(4) by (rule struct_book)
  then have s: "sorted (map (\<lambda>r. prio sd (heap e r)) rs)" by (simp add: book_ok_def rs_def)
  have rs: "rs = (if sd = SideBuy then Bids b else Asks b)" by (simp add: rs_def bookList_def assms(2,3))
  show ?thesis
  proof (cases "sd = SideBuy")
    case True
    with s rs have "bids.in_order e (Bids b)" by (simp add: bids.in_order_def prio_def)
    then show ?thesis using bids.add_position [of e b p] True rs by (simp add: prio_def sd_def)
  next
    case False
    with assms(4) have sell: "Side (heap e p) = SideSell" by (simp add: sd_def)
    from False s rs have "asks.in_order e (Asks b)" by (simp add: asks.in_order_def prio_def)
    then show ?thesis using asks.add_position [of e b p] False rs sell by (simp add: prio_def sd_def)
  qed
qed

theorem addToBook_fifo_witness:
  "inv at3 {1} \<and> Bids (addToBook at3 \<lparr>Bids = [], Asks = [0]\<rparr> 1) = [1]"
proof -
  have sd: "Side (heap at3 1) = SideBuy" by (simp add: at3_def buy2_def newOrder_def buyReq_def)
  have m: "markets at3 ''e'' = Some (NewMarket\<lparr>YES := \<lparr>Bids = [], Asks = [0]\<rparr>\<rparr>)"
    "Book (NewMarket\<lparr>YES := \<lparr>Bids = [], Asks = [0]\<rparr>\<rparr>) OutcomeYes = Some \<lparr>Bids = [], Asks = [0]\<rparr>"
    by (simp_all add: at3_def at2_def Book_def)
  show ?thesis
    using addToBook_fifo [OF at3_inv m, of 1] at3_inv sd by (simp add: bookList_def m)
qed

section \<open>Trades\<close>

text \<open>What a limit order allows: a buy no higher, a sell no lower than its own price.\<close>

definition withinLimit :: "Order \<Rightarrow> int \<Rightarrow> bool" where
  "withinLimit x price \<longleftrightarrow> OrderType x = OrderTypeLimit \<longrightarrow>
     (Side x = SideBuy \<longrightarrow> price \<le> Price x) \<and> (Side x = SideSell \<longrightarrow> Price x \<le> price)"

text \<open>
  C4. Every trade a matching section reports is legal: it pairs the incoming order with an order that
  rested on the opposite side of the same book and belongs to another user, at the resting order's
  price, which is positive and within the limits of both, for a positive quantity no larger
  than either order, with buyer and seller assigned by side.
\<close>

theorem trades_legal:
  assumes "inv e F" and "p \<in> F" and "matchOrderLocked w e p = (e', Some ts)" and "t \<in> set ts"
  shows "\<exists>r\<in>set (bookList (markets e) (EventID (heap e p)) (Outcome (heap e p)) (opposite (Side (heap e p)))).
    pairTrade (heap e p) (heap e r) t \<and> Outcome (heap e r) = Outcome (heap e p)
    \<and> withinLimit (heap e p) (tradePrice t) \<and> withinLimit (heap e r) (tradePrice t) \<and> 0 < tradePrice t"
proof -
  have live: "Status (heap e p) \<noteq> StatusCanceled" using assms(3) by (auto simp: matchOrderLocked_def)
  obtain h1 items us e2 where m: "matched e p h1 items us e2" and "Some ts = Some us"
    by (rule match_result [OF assms(1,2) live assms(3)])
  then have t: "t \<in> set us" using assms(4) by simp
  obtain r where pt: "pairTrade (heap e p) (heap e r) t" and r:
    "r \<in> set (bookList (markets e) (EventID (heap e p)) (Outcome (heap e p)) (opposite (Side (heap e p))))"
    by (rule matched_trade [OF m t])
  have "0 < Price (heap e r)"
    using match_setup_maker [OF inv_setup [OF assms(1,2) live] r] by (simp add: maker_ok_def order_wf_def)
  then have "0 < tradePrice t" using pt by (simp add: pairTrade_def)
  moreover have "Outcome (heap e r) = Outcome (heap e p)" "withinLimit (heap e p) (tradePrice t)" "withinLimit (heap e r) (tradePrice t)"
    using pt by (auto simp: pairTrade_def canMatch_def withinLimit_def split: if_splits)
  ultimately have "pairTrade (heap e p) (heap e r) t \<and> Outcome (heap e r) = Outcome (heap e p)
    \<and> withinLimit (heap e p) (tradePrice t) \<and> withinLimit (heap e r) (tradePrice t) \<and> 0 < tradePrice t"
    using pt by blast
  with r show ?thesis by blast
qed

theorem trades_legal_witness:
  "inv at3 {1} \<and> matchOrderLocked world0 at3 1 = (at4, Some [trade1])
   \<and> pairTrade (heap at3 1) (heap at3 0) trade1 \<and> withinLimit (heap at3 1) (tradePrice trade1) \<and> 0 < tradePrice trade1"
proof -
  have "bookList (markets at3) (EventID (heap at3 1)) (Outcome (heap at3 1)) (opposite (Side (heap at3 1))) = [0]"
    by (simp add: at3_def buy2_def newOrder_def buyReq_def) (simp add: bookList_def at2_def Book_def opposite_def)
  then show ?thesis using trades_legal [OF at3_inv _ match_at3, of trade1] at3_inv match_at3 by simp
qed

section \<open>Outcome\<close>

lemma matched_traded:
  assumes "matched e p h1 items ts e2"
  shows "0 < (\<Sum>t\<leftarrow>ts. tradeQuantity t) \<longleftrightarrow> ts \<noteq> []"
proof (cases ts)
  case (Cons t us)
  have "0 < tradeQuantity u" if u: "u \<in> set ts" for u
    by (rule matched_trade [OF assms u]) (simp add: pairTrade_def)
  then have "0 < tradeQuantity t" "\<forall>u\<in>set us. 0 \<le> tradeQuantity u" using Cons by (auto intro: less_imp_le)
  moreover from this(2) have "0 \<le> (\<Sum>u\<leftarrow>us. tradeQuantity u)" by (intro sum_list_nonneg) auto
  ultimately show ?thesis using Cons by simp
qed simp

lemma matched_booked:
  assumes st: "struct_ok e F" and p: "p \<in> F" and m: "matched e p h1 items ts e2"
  shows "booked e2 p \<longleftrightarrow> rests (h1 p)"
proof -
  have st2: "struct_ok e2 (F - {p})" by (rule matched_struct_ok [OF st p m])
  have h2: "heap e2 p = (h1 p)\<lparr>Status := finalStatus (h1 p)\<rparr>" and wf: "order_wf (h1 p)" "Status (h1 p) = StatusPending"
    using m by (simp_all add: matched_def loop_ok_def)
  note fs = finalStatus_ok(3) [OF wf]
  have "orders e (ID (heap e p)) = Some p" using st p by (simp add: struct_ok_def flight_ok_def)
  moreover have "orders e2 = orders e" using m by (simp add: matched_def)
  ultimately have "orders e2 (ID (heap e2 p)) = Some p" by (simp add: static_eqD(1) [OF matched_static(1) [OF m]])
  then have "live (heap e2 p) \<Longrightarrow> booked e2 p" using st2 by (simp add: struct_ok_def flight_ok_def)
  moreover have "live (heap e2 p)" if "booked e2 p"
  proof -
    have "Side (heap e2 p) \<in> {SideBuy, SideSell}" using wf(1) by (simp add: h2 order_wf_def)
    then have "resting e2 p (EventID (heap e2 p)) (Outcome (heap e2 p)) (Side (heap e2 p))"
      using that book_member [OF struct_book [OF st2]] unfolding booked_def by blast
    then show ?thesis by (simp add: resting_def)
  qed
  ultimately show ?thesis using fs by (auto simp: h2)
qed

text \<open>
  C6. After matching, an order's filled quantity is the sum of its trades, filled and remaining add up
  to what was asked, and its status and place follow: FILLED when nothing remains; a market order with
  a remainder is CANCELED and rests nowhere; a limit order with a remainder is PARTIAL or PENDING and
  stands in its book.
\<close>

theorem match_outcome:
  assumes "inv e F" and "p \<in> F" and "matchOrderLocked w e p = (e', Some ts)"
  shows "FilledQuantity (heap e' p) = (\<Sum>t\<leftarrow>ts. tradeQuantity t)
    \<and> FilledQuantity (heap e' p) + RemainingQuantity (heap e' p) = Quantity (heap e p)
    \<and> Status (heap e' p) =
        (if RemainingQuantity (heap e' p) = 0 then StatusFilled
         else if OrderType (heap e p) = OrderTypeMarket then StatusCanceled
         else if ts = [] then StatusPending else StatusPartial)
    \<and> (booked e' p \<longleftrightarrow> RemainingQuantity (heap e' p) \<noteq> 0 \<and> OrderType (heap e p) = OrderTypeLimit)"
proof -
  have live: "Status (heap e p) \<noteq> StatusCanceled" using assms(3) by (auto simp: matchOrderLocked_def)
  obtain h1 items us e2 where m: "matched e p h1 items us e2" and us: "Some ts = Some us" and mk: "markets e' = markets e2"
    and un: "\<And>q. unlocked (heap e' q) = unlocked (heap e2 q)"
    by (rule match_result [OF assms(1,2) live assms(3)]) (rule that)
  note u = unlocked_eqD [OF un] and s = static_eqD [OF matched_static(1) [OF m]]
  have h2: "heap e2 p = (h1 p)\<lparr>Status := finalStatus (h1 p)\<rparr>" and
    lp: "order_wf (h1 p)" "FilledQuantity (h1 p) = (\<Sum>t\<leftarrow>ts. tradeQuantity t)"
    using m us by (simp_all add: matched_def loop_ok_def)
  have e': "FilledQuantity (heap e' p) = FilledQuantity (h1 p)" "RemainingQuantity (heap e' p) = RemainingQuantity (h1 p)"
    "Status (heap e' p) = finalStatus (h1 p)" "Quantity (h1 p) = Quantity (heap e p)" "OrderType (h1 p) = OrderType (heap e p)"
    using u s [of p] by (simp_all add: h2)
  have "struct_ok e F" using assms(1) by (simp add: inv_def)
  then have "booked e' p \<longleftrightarrow> rests (h1 p)"
    using matched_booked [OF _ assms(2) m] by (simp add: booked_def mk u)
  then show ?thesis
    using e' lp matched_traded [OF m] us by (simp add: finalStatus_def rests_def order_wf_def)
qed

theorem match_outcome_witness:
  "inv at3 {1} \<and> matchOrderLocked world0 at3 1 = (at4, Some [trade1])
   \<and> FilledQuantity (heap at4 1) = tradeQuantity trade1 \<and> Status (heap at4 1) = StatusFilled \<and> \<not> booked at4 1"
  using match_outcome [OF at3_inv _ match_at3] at3_inv match_at3 by (simp add: at4_def)

end
