(* ===== verification/Uncrossed.thy ===== *)
theory Uncrossed
  imports Scenario
begin



section \<open>Matching\<close>




section \<open>The other sections\<close>










end
