(* ===== verification/Frames.thy ===== *)
theory Frames
  imports Engine
begin

text \<open>
  What the sections leave alone. \<open>wire\<close> is the part of the engine that publishing reads and writes;
  no ledger or matching operation touches it.
\<close>

definition wire ::
    "Engine \<Rightarrow> (raw list option \<times> (string \<times> json) list \<times> (string \<times> json) list \<times> u64 list)
      \<times> (int \<rightharpoonup> u64) \<times> int set \<times> bool \<times> Router \<times> string \<times> string" where
  "wire e = ((outbox e, xadds e, publishes e, partitionSeq e), partitionToken e, replaying e, redisManager e,
     router e, eventStream e, wsChannel e)"

lemma wire_upd [simp]:
  "wire (e\<lparr>markets := a\<rparr>) = wire e" "wire (e\<lparr>orders := b\<rparr>) = wire e" "wire (e\<lparr>heap := c\<rparr>) = wire e"
  "wire (e\<lparr>nextPtr := d\<rparr>) = wire e" "wire (e\<lparr>balances := f\<rparr>) = wire e" "wire (e\<lparr>positions := f\<rparr>) = wire e"
  "wire (e\<lparr>metrics := g\<rparr>) = wire e" "wire (e\<lparr>tick := d\<rparr>) = wire e"
  by (simp_all add: wire_def)

lemma wire_setOrder [simp]: "wire (setOrder e p f) = wire e" "wire (setStatus e p s) = wire e"
  by (simp_all add: setStatus_def setOrder_def)

lemma setOrder_frame [simp]:
  "orders (setOrder e p f) = orders e" "orders (setStatus e p s) = orders e"
  "markets (setOrder e p f) = markets e" "markets (setStatus e p s) = markets e"
  by (simp_all add: setStatus_def setOrder_def)

lemma wire_ledger [simp]:
  "wire (onBalance e u g) = wire e" "wire (onPosition e u ev oc g) = wire e"
  "wire (fst (getOrCreateBalance e u)) = wire e" "wire (fst (getOrCreatePosition e u ev oc)) = wire e"
  by (simp_all add: onBalance_def onPosition_def getOrCreateBalance_def getOrCreatePosition_def Let_def split: option.split)

lemma wire_reserve [simp]: "wire (fst (reserveOrderLocked e x)) = wire e"
  by (simp add: reserveOrderLocked_def getOrCreateBalance_def getOrCreatePosition_def Let_def split: option.split)

lemma wire_settleLocked [simp]: "wire (settleLocked c t e i) = wire e"
  by (simp add: settleLocked_def split: option.split)

lemma wire_settle [simp]: "wire (settleTradeLocked e t) = wire e"
  by (simp add: settleTradeLocked_def Let_def)

lemma wire_foldl_settle [simp]: "wire (foldl settleTradeLocked e ts) = wire e"
  by (induction ts arbitrary: e) simp_all

lemma wire_release [simp]: "wire (releaseOrderLocked e p) = wire e"
  by (simp add: releaseOrderLocked_def Let_def)

lemma executePair_outer:
  "wire (fst (executePair w e p r items i ts)) = wire e" "orders (fst (executePair w e p r items i ts)) = orders e"
  by (simp_all add: executePair_def Let_def)

lemma matchAgainstBook_outer:
  "wire (fst (matchAgainstBook w e book p ts)) = wire e \<and> orders (fst (matchAgainstBook w e book p ts)) = orders e"
proof (induction w e book p ts rule: matchAgainstBook.induct)
  case (1 w e book p ts)
  note IH = 1(1) [OF _ _ refl _ _ prod.collapse prod.collapse]
    1(2) [OF _ _ refl _ _ prod.collapse prod.collapse]
  show ?case
    unfolding matchAgainstBook.simps [of w e book p ts]
    using IH executePair_outer [of w e p]
    by (simp add: Let_def case_prod_beta split: option.split)
qed

lemma restOrFinish_outer [simp]:
  "wire (fst (restOrFinish e b p)) = wire e" "orders (fst (restOrFinish e b p)) = orders e"
  by (simp_all add: restOrFinish_def Let_def)

lemma wire_match [simp]: "wire (fst (matchOrderLocked w e p)) = wire e"
  using matchAgainstBook_outer [of w e _ p]
  by (simp add: matchOrderLocked_def Let_def case_prod_beta split: option.split)

lemma wire_admit [simp]: "wire (fst (admitOrder w e req)) = wire e"
proof -
  have "wire e' = wire (e\<lparr>tick := n\<rparr>)" if "reserveOrderLocked (e\<lparr>tick := n\<rparr>) x = (e', r)" for e' r n x
    using wire_reserve [of "e\<lparr>tick := n\<rparr>" x] that by simp
  then show ?thesis by (simp add: admitOrder_def Let_def split: option.split prod.split sum.split)
qed

lemma wire_drop [simp]: "wire (dropOrder e p) = wire e"
  by (simp add: dropOrder_def)

lemma wire_cancel [simp]: "wire (fst (cancelLocked e i ev)) = wire e"
  by (simp add: cancelLocked_def Let_def split: option.split)

lemma wire_createEvent [simp]: "wire (fst (handleCreateEvent e payload)) = wire e"
  by (simp add: handleCreateEvent_def split: option.split)

lemma wire_userCreated [simp]: "wire (fst (handleUserCreated e payload)) = wire e"
  by (simp add: handleUserCreated_def Let_def split: option.split)

end
