(* ===== verification/Limits.thy ===== *)
theory Limits
  imports Scenario Frames
begin

text \<open>
  Where the engine does less than it means to. Each theorem pins down one behaviour of the code as it
  is: nobody can ever sell, a reservation that wraps around, a market order that spends more than it
  reserved, funds that stay locked, and a starting balance that is lost.
\<close>

section \<open>No shares are ever issued\<close>

text \<open>
  Users start with cash and no shares, shares enter a position only by a trade, and a trade needs a
  sell order, which needs shares.
\<close>

definition shareless :: "Sys \<Rightarrow> bool" where
  "shareless s \<longleftrightarrow> (\<forall>k. holding (positions (eng s)) k = emptyHolding)
     \<and> (\<forall>p<nextPtr (eng s). Side (heap (eng s) p) = SideBuy)
     \<and> (\<forall>i p. orders (eng s) i = Some p \<longrightarrow> p < nextPtr (eng s))
     \<and> (\<forall>pid p. flying s pid = Some p \<longrightarrow> p < nextPtr (eng s))
     \<and> (\<forall>ev m oc b. markets (eng s) ev = Some m \<longrightarrow> Book m oc = Some b \<longrightarrow> Asks b = [])"

lemma shareless_sell_refused:
  assumes "\<forall>k. holding (positions e) k = emptyHolding" and "admitOrder w e req = (e', Inr p)"
  shows "reqSide req = SideBuy"
  using assms
  by (auto simp: admitOrder_def reserveOrderLocked_def getOrCreatePosition_eq newOrder_def Let_def
      split: if_splits option.splits prod.splits)

lemma match_no_asks:
  assumes "Side (heap e p) = SideBuy" and "Asks b = []"
  shows "matchAgainstBook w e b p ts = (e, b, ts)"
  using assms by (simp add: matchAgainstBook.simps [of w e b] removeInvalidAsks_def)

lemma release_buy:
  assumes "Side (heap e p) = SideBuy"
  shows "positions (releaseOrderLocked e p) = positions e" "Side (heap (releaseOrderLocked e p) q) = Side (heap e q)"
  using assms by (simp_all add: releaseOrderLocked_def Let_def onBalance_eq setOrder_def)

lemma restOrFinish_buy:
  assumes "Side (heap e p) = SideBuy" and "restOrFinish e b p = (e', b')"
  shows "Asks b' = Asks b" "positions e' = positions e" "nextPtr e' = nextPtr e" "orders e' = orders e"
    "markets e' = markets e" "Side (heap e' q) = Side (heap e q)" "EventID (heap e' q) = EventID (heap e q)"
    "Outcome (heap e' q) = Outcome (heap e q)"
  using assms by (auto simp: restOrFinish_def Let_def setStatus_def setOrder_def addToBook_def split: if_splits)

text \<open>A matching section in such a state: no trade, and at most a bid is added.\<close>

lemma match_shareless:
  assumes buy: "Side (heap e p) = SideBuy"
    and asks: "\<And>m b oc. markets e (EventID (heap e p)) = Some m \<Longrightarrow> Book m oc = Some b \<Longrightarrow> Asks b = []"
    and run: "matchOrderLocked w e p = (e', r)"
  shows "r \<in> {None, Some []} \<and> positions e' = positions e \<and> nextPtr e' = nextPtr e \<and> orders e' = orders e
    \<and> (\<forall>q. Side (heap e' q) = Side (heap e q))
    \<and> (markets e' = markets e \<or> (\<exists>m b b'. markets e (EventID (heap e p)) = Some m \<and> Book m (Outcome (heap e p)) = Some b
        \<and> Asks b' = [] \<and> markets e' = (markets e)(EventID (heap e p) \<mapsto> setBook m (Outcome (heap e p)) b')))"
proof (cases "Status (heap e p) = StatusCanceled \<or> (\<forall>m. markets e (EventID (heap e p)) = Some m \<longrightarrow> Book m (Outcome (heap e p)) = None)")
  case True
  then show ?thesis using run
    by (auto simp: matchOrderLocked_def setStatus_def setOrder_def split: if_splits option.splits)
next
  case False
  then obtain m b where m: "markets e (EventID (heap e p)) = Some m" "Book m (Outcome (heap e p)) = Some b" by auto
  have loop: "matchAgainstBook w e b p [] = (e, b, [])" by (rule match_no_asks [OF buy asks [OF m]])
  obtain e1 b1 where rf: "restOrFinish e b p = (e1, b1)" by (metis surj_pair)
  note r1 = restOrFinish_buy [OF buy rf]
  let ?e2 = "e1\<lparr>markets := (markets e1)(EventID (heap e p) \<mapsto> setBook m (Outcome (heap e p)) b1)\<rparr>"
  have res: "r = Some [] \<and> (e' = ?e2 \<or> e' = releaseOrderLocked ?e2 p)"
    using run False m loop rf r1(7,8) by (auto simp: matchOrderLocked_def Let_def split: if_splits)
  have "Side (heap ?e2 p) = SideBuy" using r1(6) buy by simp
  note rel = release_buy [OF this]
  have "Asks b1 = []" using r1(1) asks [OF m] by simp
  then have "\<exists>m' c c'. markets e (EventID (heap e p)) = Some m' \<and> Book m' (Outcome (heap e p)) = Some c \<and> Asks c' = []
      \<and> markets ?e2 = (markets e)(EventID (heap e p) \<mapsto> setBook m' (Outcome (heap e p)) c')"
    using m r1(5) by auto
  then show ?thesis using res r1 rel by (elim conjE disjE) simp_all
qed

lemma asks_setBook:
  assumes "\<forall>ev m oc b. ms ev = Some m \<longrightarrow> Book m oc = Some b \<longrightarrow> Asks b = []"
    and "ms ev0 = Some m0" and "Book m0 oc0 = Some b0" and "Asks b' = []"
  shows "\<forall>ev m oc b. (ms(ev0 \<mapsto> setBook m0 oc0 b')) ev = Some m \<longrightarrow> Book m oc = Some b \<longrightarrow> Asks b = []"
proof (intro allI impI)
  fix ev m oc b
  assume m: "(ms(ev0 \<mapsto> setBook m0 oc0 b')) ev = Some m" and b: "Book m oc = Some b"
  show "Asks b = []"
  proof (cases "ev = ev0")
    case True
    then have "(if oc = oc0 then Some b' else Book m0 oc) = Some b" using m b Book_setBook [OF assms(3), of b' oc] by auto
    then show ?thesis using assms by (auto split: if_splits)
  next
    case False
    then show ?thesis using m b assms(1) by simp
  qed
qed

lemma shareless_sell: "admitOrder w e req = (e', Inr p) \<Longrightarrow> reqSide req = SideBuy \<Longrightarrow>
    markets e' = markets e \<and> positions e' = positions e \<and> p = nextPtr e \<and> nextPtr e' = Suc p
    \<and> Side (heap e' p) = SideBuy \<and> (\<forall>q<p. heap e' q = heap e q)
    \<and> (\<forall>i q. orders e' i = Some q \<longrightarrow> q = p \<or> orders e i = Some q)"
  by (auto simp: admitOrder_def reserveOrderLocked_def getOrCreateBalance_eq onBalance_eq newOrder_def Let_def
      split: if_splits option.splits prod.splits)

lemma shareless_refused: "admitOrder w e req = (e', Inl resp) \<Longrightarrow>
    markets e' = markets e \<and> orders e' = orders e \<and> heap e' = heap e \<and> nextPtr e' = nextPtr e
    \<and> (\<forall>k. holding (positions e') k = holding (positions e) k)"
  by (auto simp: admitOrder_def reserveOrderLocked_def getOrCreateBalance_eq getOrCreatePosition_eq Let_def
      split: if_splits option.splits prod.splits sum.splits)

lemma cancel_shareless:
  assumes buy: "\<And>p. orders e i = Some p \<Longrightarrow> Side (heap e p) = SideBuy"
    and asks: "\<forall>ev m oc b. markets e ev = Some m \<longrightarrow> Book m oc = Some b \<longrightarrow> Asks b = []"
    and run: "cancelLocked e i ev = (e', r)"
  shows "positions e' = positions e \<and> nextPtr e' = nextPtr e \<and> orders e' = orders e
    \<and> (\<forall>q. Side (heap e' q) = Side (heap e q))
    \<and> (\<forall>ev m oc b. markets e' ev = Some m \<longrightarrow> Book m oc = Some b \<longrightarrow> Asks b = [])"
proof (cases r)
  case (Inl err)
  then have "e' = e" using run by (auto simp: cancelLocked_def Let_def split: option.splits if_splits)
  with asks show ?thesis by simp
next
  case (Inr p)
  then obtain m where p: "orders e i = Some p" and m: "markets e (EventID (heap e p)) = Some m"
    and e': "e' = releaseOrderLocked (setStatus (e\<lparr>markets := (markets e)
      (EventID (heap e p) \<mapsto> removeFromBook e m (heap e p))\<rparr>) p StatusCanceled) p"
    using run by (auto simp: cancelLocked_def Let_def split: option.splits if_splits)
  let ?e1 = "setStatus (e\<lparr>markets := (markets e)(EventID (heap e p) \<mapsto> removeFromBook e m (heap e p))\<rparr>) p StatusCanceled"
  have f1: "positions ?e1 = positions e" "nextPtr ?e1 = nextPtr e" "orders ?e1 = orders e"
    "Side (heap ?e1 q) = Side (heap e q)" "markets ?e1 = (markets e)(EventID (heap e p) \<mapsto> removeFromBook e m (heap e p))" for q
    by (simp_all add: setStatus_def setOrder_def)
  have "Side (heap ?e1 p) = SideBuy" using buy [OF p] f1(4) by simp
  note rel = release_buy [OF this]
  have "\<forall>ev m' oc b. ((markets e)(EventID (heap e p) \<mapsto> removeFromBook e m (heap e p))) ev = Some m' \<longrightarrow> Book m' oc = Some b \<longrightarrow> Asks b = []"
  proof (cases "Book m (Outcome (heap e p))")
    case None
    then show ?thesis using asks m by (simp add: removeFromBook_def fun_upd_idem)
  next
    case (Some b)
    have a: "Asks b = []" using asks m Some by blast
    have rb: "removeFromBook e m (heap e p) = setBook m (Outcome (heap e p))
        (b\<lparr>Bids := fst (removeOrderFromSlice e (Bids b) (ID (heap e p)))\<rparr>)"
      using buy [OF p] by (simp add: removeFromBook_def Some)
    show ?thesis unfolding rb by (rule asks_setBook [OF asks m Some]) (simp add: a)
  qed
  then show ?thesis using f1 rel by (simp add: e')
qed

lemma shareless_step:
  assumes "step w s a s'" and "shareless s"
  shows "shareless s'"
  using assms
proof (induction rule: step.induct)
  case (answered s pid req e' resp)
  then show ?case using shareless_refused [of w "eng s" req e' resp] by (simp add: shareless_def)
next
  case (admitted s pid req e' p)
  then have "reqSide req = SideBuy" by (intro shareless_sell_refused) (simp_all add: shareless_def)
  then show ?case using admitted shareless_sell [of w "eng s" req e' p]
    by (simp add: shareless_def less_Suc_eq) (metis less_Suc_eq)
next
  case (matched s pid p)
  obtain e' r where run: "matchOrderLocked w (eng s) p = (e', r)" by (metis surj_pair)
  have "Side (heap (eng s) p) = SideBuy" using matched by (simp add: shareless_def)
  note m = match_shareless [OF this _ run]
  have as: "\<forall>ev m oc b. markets (eng s) ev = Some m \<longrightarrow> Book m oc = Some b \<longrightarrow> Asks b = []"
    using matched(2) by (simp add: shareless_def)
  then have "\<forall>ev m oc b. markets e' ev = Some m \<longrightarrow> Book m oc = Some b \<longrightarrow> Asks b = []"
    using m asks_setBook [OF as] by metis
  then show ?case using matched m as by (simp add: run shareless_def)
next
  case (dropped s pid p)
  then show ?case by (simp add: shareless_def dropOrder_def setStatus_def setOrder_def)
next
  case (cancel s i ev)
  obtain e' r where run: "cancelLocked (eng s) i ev = (e', r)" by (metis surj_pair)
  show ?case using cancel_shareless [OF _ _ run] cancel by (simp add: run shareless_def)
next
  case (event s payload)
  then show ?case by (auto simp: shareless_def handleCreateEvent_def split: option.split dest!: Book_NewMarket)
next
  case (user s payload)
  then show ?case by (simp add: shareless_def handleUserCreated_def Let_def split: option.split)
qed (simp_all add: shareless_def)

interpretation issue: guarded_system "\<lambda>_ _. True" "step w" shareless for w
  by unfold_locales (use shareless_step in blast)

text \<open>
  C30. From a newly built engine, whatever commands arrive in whatever interleaving, every sell order is
  refused, every position stays empty, and no matching section ever executes a trade.
\<close>

theorem no_trade_from_scratch:
  assumes "newEngine rm mk file = Inr e0" and "runs (\<lambda>_ _. True) (step w) (sys e0 Map.empty) as s"
  shows "(reqSide req = SideSell \<longrightarrow> (\<exists>resp. snd (admitOrder w (eng s) req) = Inl resp))
    \<and> fst (GetPosition (eng s) u ev oc) = 0
    \<and> (flying s pid = Some p \<longrightarrow> snd (matchOrderLocked w (eng s) p) \<in> {None, Some []})"
proof -
  have "shareless (sys e0 Map.empty)"
    using assms(1) by (auto simp: newEngine_def shareless_def holding_def split: if_splits option.splits)
  then have ok: "shareless s" using issue.runs_invariant [OF assms(2)] by simp
  have "reqSide req = SideSell \<Longrightarrow> \<exists>resp. snd (admitOrder w (eng s) req) = Inl resp"
    using ok shareless_sell_refused [of "eng s" w req]
    by (cases "admitOrder w (eng s) req"; cases "snd (admitOrder w (eng s) req)") (auto simp: shareless_def)
  moreover have "fst (GetPosition (eng s) u ev oc) = Available (holding (positions (eng s)) (positionKey u ev oc))"
    by (simp add: GetPosition_def holding_def split: option.split)
  moreover have "snd (matchOrderLocked w (eng s) p) \<in> {None, Some []}" if f: "flying s pid = Some p"
  proof -
    have "Side (heap (eng s) p) = SideBuy" using ok f by (simp add: shareless_def)
    from match_shareless [OF this _ prod.collapse [symmetric]] show ?thesis using ok unfolding shareless_def by blast
  qed
  ultimately show ?thesis using ok by (simp add: shareless_def)
qed

theorem no_trade_from_scratch_witness:
  "newEngine True True (Some []) = Inr fresh
   \<and> (\<exists>as s. runs (\<lambda>_ _. True) (step world0) (sys fresh Map.empty) as s \<and> balances (eng s) ''s'' \<noteq> None
       \<and> (\<exists>resp. snd (admitOrder world0 (eng s) sellReq) = Inl resp))"
proof -
  let ?s = "sys (fst (handleUserCreated fresh (Some (JObj [(''userId'', JStr ''s'')])))) Map.empty"
  have run: "runs (\<lambda>_ _. True) (step world0) (sys fresh Map.empty) [UserCreated (Some (JObj [(''userId'', JStr ''s'')]))] ?s"
    using runs_single [of "\<lambda>_ _. True" "sys fresh Map.empty" _ "step world0", OF _ step.user] by simp
  moreover have "balances (eng ?s) ''s'' \<noteq> None" by (simp add: handleUserCreated_def fresh_def)
  moreover have "\<exists>resp. snd (admitOrder world0 (eng ?s) sellReq) = Inl resp"
    using no_trade_from_scratch [OF fresh_newEngine run, of sellReq] by (simp add: sellReq_def)
  ultimately show ?thesis using fresh_newEngine by blast
qed

section \<open>Reservations\<close>










text \<open>
  C34. When the creation of an admitted order cannot be streamed, the order leaves the table but what it
  had locked stays reserved: the client is told the creation failed, and a cancellation finds no order.
\<close>

theorem failed_emit_keeps_lock:
  assumes "createOrderReqOfJson payload = Some req" and "admitOrder w e req = (e1, Inr p)"
    and "emitEventP w e1 pid EventOrderCreated (orderToJson (heap e1 p)) False = (e2, True)"
  shows "\<exists>e'. handleCreateOrderCore w e pid payload = (e', failure ''failed to stream order creation'')
    \<and> balances e' = balances e1 \<and> positions e' = positions e1 \<and> LockedFunds (heap e' p) = LockedFunds (heap e1 p)
    \<and> cancelLocked e' (ID (heap e1 p)) ev = (e', Inl ErrOrderNotFound)"
proof -
  have e2: "heap e2 = heap e1" "balances e2 = balances e1" "positions e2 = positions e1"
    using emitEventP_frame [of w e1 pid EventOrderCreated "orderToJson (heap e1 p)" False] by (simp_all add: assms(3))
  show ?thesis
    by (simp add: handleCreateOrderCore_def assms dropOrder_def setStatus_def setOrder_def e2 cancelLocked_def)
qed

definition failing :: World where
  "failing = world0\<lparr>XAddErr := \<lambda>_. True\<rparr>"

theorem failed_emit_keeps_lock_witness:
  "GetPosition (fst (handleCreateOrderCore failing at0 0 sellJson)) ''s'' ''e'' OutcomeYes = (5, 5, True)"
proof -
  have "newOrder failing n req = newOrder world0 n req" for n req by (simp add: newOrder_def failing_def)
  then have ad: "admitOrder failing at0 sellReq = (at1, Inr 0)"
    using admit_at0 unfolding admitOrder_def by (simp only:)
  obtain e2 err where em: "emitEventP failing at1 0 EventOrderCreated (orderToJson (heap at1 0)) False = (e2, err)"
    by (metis surj_pair)
  moreover have "snd (emitEventP failing at1 0 EventOrderCreated (orderToJson (heap at1 0)) False)"
    by (simp add: emitEventP_def failing_def world0_def at1_def at0_def fresh_def Let_def Append_def)
  ultimately have "emitEventP failing at1 0 EventOrderCreated (orderToJson (heap at1 0)) False = (e2, True)" by simp
  then obtain e' where "fst (handleCreateOrderCore failing at0 0 sellJson) = e'" "positions e' = positions at1"
    using failed_emit_keeps_lock [OF sellJson_decodes ad] by (metis fst_conv)
  then show ?thesis by (simp add: GetPosition_def at1_def)
qed

section \<open>Accounts\<close>

text \<open>
  A buy order of a user whose account the engine has not opened yet leaves an empty account behind, and
  the later user-creation command then grants nothing.
\<close>

theorem early_order_loses_grant:
  assumes "balances e u = None" and "admitOrder w e req = (e1, Inl (failure ErrInsufficientFunds))"
    and "reqUserID req = u" and "u \<noteq> []"
  shows "GetBalances (fst (handleUserCreated e1 (Some (JObj [(''userId'', JStr u)])))) u = (0, 0, True)
    \<and> GetBalances (fst (handleUserCreated e (Some (JObj [(''userId'', JStr u)])))) u = (DefaultStartingBalance, 0, True)"
proof -
  let ?e = "e\<lparr>tick := Suc (tick e)\<rparr>" and ?x = "newOrder w (tick e) req"
  have "validateOrder x \<noteq> Some ErrInsufficientFunds" for x by (simp add: validateOrder_def ErrInsufficientFunds_def)
  then have "reserveOrderLocked ?e ?x = (e1, Inl ErrInsufficientFunds)"
    using assms(2)
    by (auto simp: admitOrder_def Let_def failure_def successJSON_def ErrInsufficientFunds_def ErrEventNotFound_def
        split: if_splits option.splits prod.splits sum.splits)
  moreover have "UserID ?x = u" by (simp add: newOrder_def assms(3))
  ultimately have "balances e1 u = Some emptyHolding"
    using assms(1)
    by (auto simp: reserveOrderLocked_def getOrCreateBalance_eq getOrCreatePosition_eq holding_def Let_def
        ErrInsufficientFunds_def ErrInsufficientShares_def split: if_splits)
  then show ?thesis using assms(1,4) by (simp add: handleUserCreated_def GetBalances_def)
qed

theorem early_order_loses_grant_witness:
  "GetBalances (fst (handleUserCreated (fst (admitOrder world0 at0 (buyReq\<lparr>reqUserID := ''n''\<rparr>)))
     (Some (JObj [(''userId'', JStr ''n'')])))) ''n'' = (0, 0, True)"
proof -
  have ad: "snd (admitOrder world0 at0 (buyReq\<lparr>reqUserID := ''n''\<rparr>)) = Inl (failure ErrInsufficientFunds)"
    by (simp add: admitOrder_def scenario_defs validateOrder_def reserveOrderLocked_def getOrCreateBalance_def
        i64_def Let_def const_defs emptyHolding_def)
  have "admitOrder world0 at0 (buyReq\<lparr>reqUserID := ''n''\<rparr>) =
      (fst (admitOrder world0 at0 (buyReq\<lparr>reqUserID := ''n''\<rparr>)), Inl (failure ErrInsufficientFunds))"
    using ad by (simp add: prod_eq_iff)
  from early_order_loses_grant [OF _ this, of "''n''"] show ?thesis by (simp add: at0_def)
qed

end
