(* ===== verification/Database.thy ===== *)
theory Database
  imports Types
begin

text \<open>
  The tables and the queries of \<^verbatim>\<open>internal/repository\<close> (the SQL of \<^verbatim>\<open>db/migrations\<close> and of the
  query files). A table is a map from its primary key to a row, the ledger of transactions a list in
  insertion order. \<^verbatim>\<open>DECIMAL(20,8)\<close> columns hold the integer number of units of \<open>10 ^ -8\<close>; a value
  with more than twelve digits before the point is an error. Timestamps other than the expiry of an
  event and the creation of a trade are left out.

  Postgres, \<^verbatim>\<open>pgx\<close> and \<^verbatim>\<open>google/uuid\<close> enter as a parameter \<open>Pg\<close>, indexed by the number of round trips made
  so far: which of them fail, whether a commit whose answer was lost took effect, generated ids and
  the clock, parsing of ids (a \<^verbatim>\<open>uuid.UUID\<close> is its canonical text), the rounding of a quotient to
  eight decimals, \<^verbatim>\<open>Float64Value\<close> of a column followed by the conversion to \<^verbatim>\<open>int64\<close>, and the order in
  which a scan meets the rows of a table.
\<close>

type_synonym uuid = string
type_synonym numeric = int

section \<open>The environment and the rows\<close>

record UserRow =
  userEmail :: string
  passwordHash :: string
  userBalance :: numeric
  userCreatedAt :: int

record EventRow =
  title :: string
  description :: string
  question :: string
  thumbnail :: string
  isActive :: bool
  expiresAt :: int
  volume :: numeric

record OrderRow =
  rowEventID :: uuid
  rowUserID :: uuid
  rowOrderType :: string
  rowOutcome :: string
  rowSide :: string
  rowQuantity :: numeric
  rowPrice :: numeric
  rowStatus :: string
  rowFilled :: numeric
  rowRemaining :: numeric

record TradeRow =
  trEventID :: uuid
  trOutcome :: string
  trTakerOrderID :: uuid
  trMakerOrderID :: uuid
  trBuyerID :: uuid
  trSellerID :: uuid
  trTakerSide :: string
  trQuantity :: numeric
  trPrice :: numeric
  trCreatedAt :: int

record PositionRow =
  shares :: numeric
  avgPrice :: numeric

record TransactionRow =
  txUserID :: uuid
  txOrderID :: uuid
  txTradeID :: uuid
  txType :: string
  txQuantity :: numeric
  txPrice :: numeric
  txAmount :: numeric
  txOutcome :: string

record Tables =
  usersT :: "uuid \<rightharpoonup> UserRow"
  eventsT :: "uuid \<rightharpoonup> EventRow"
  ordersT :: "uuid \<rightharpoonup> OrderRow"
  tradesT :: "uuid \<rightharpoonup> TradeRow"
  positionsT :: "uuid \<times> uuid \<times> string \<rightharpoonup> PositionRow"
  transactionsT :: "TransactionRow list"

record Pg =
  Fault :: "nat \<Rightarrow> bool"
  Landed :: "nat \<Rightarrow> bool"
  GenUUID :: "nat \<Rightarrow> uuid"
  PgNow :: "nat \<Rightarrow> int"
  ParseUUID :: "string \<Rightarrow> uuid option"
  Quot :: "int \<Rightarrow> int \<Rightarrow> numeric"
  Float64Int :: "numeric \<Rightarrow> int"
  ScanEvents :: "(uuid \<rightharpoonup> EventRow) \<Rightarrow> uuid list"
  ScanTrades :: "(uuid \<rightharpoonup> TradeRow) \<Rightarrow> uuid list"
  ScanOrders :: "(uuid \<rightharpoonup> OrderRow) \<Rightarrow> uuid list"
  ScanPositions :: "(uuid \<times> uuid \<times> string \<rightharpoonup> PositionRow) \<Rightarrow> (uuid \<times> uuid \<times> string) list"
  UserByEmail :: "(uuid \<rightharpoonup> UserRow) \<Rightarrow> string \<Rightarrow> uuid option"

record DB =
  tables :: Tables
  trips :: nat

datatype db_error = UniqueViolation | ForeignKeyViolation | CheckViolation | NumericOverflow | NoRows | ConnError

section \<open>Statements\<close>

text \<open>A statement takes effect as a whole or not at all.\<close>

definition query :: "Pg \<Rightarrow> (Tables \<Rightarrow> db_error + Tables \<times> 'a) \<Rightarrow> DB \<Rightarrow> DB \<times> (db_error + 'a)" where
  "query g q d =
     (let n = trips d; d = d\<lparr>trips := Suc n\<rparr> in
      if Fault g n then (d, Inl ConnError)
      else case q (tables d) of Inl err \<Rightarrow> (d, Inl err) | Inr (t, a) \<Rightarrow> (d\<lparr>tables := t\<rparr>, Inr a))"

definition fits :: "numeric \<Rightarrow> bool" where
  "fits v \<longleftrightarrow> \<bar>v\<bar> < 10 ^ 20"

definition AddBalance :: "uuid \<Rightarrow> numeric \<Rightarrow> Tables \<Rightarrow> db_error + Tables \<times> unit" where
  "AddBalance i amount t = (case usersT t i of
       None \<Rightarrow> Inr (t, ())
     | Some u \<Rightarrow>
         if fits (userBalance u + amount)
         then Inr (t\<lparr>usersT := (usersT t)(i \<mapsto> u\<lparr>userBalance := userBalance u + amount\<rparr>)\<rparr>, ())
         else Inl NumericOverflow)"

text \<open>The result is the number of rows changed.\<close>

definition DeductBalance :: "uuid \<Rightarrow> numeric \<Rightarrow> Tables \<Rightarrow> db_error + Tables \<times> nat" where
  "DeductBalance i amount t = (case usersT t i of
       None \<Rightarrow> Inr (t, 0)
     | Some u \<Rightarrow>
         if userBalance u < amount then Inr (t, 0)
         else if fits (userBalance u - amount)
         then Inr (t\<lparr>usersT := (usersT t)(i \<mapsto> u\<lparr>userBalance := userBalance u - amount\<rparr>)\<rparr>, 1)
         else Inl NumericOverflow)"

definition startingBalance :: numeric where
  "startingBalance = 100 * 10 ^ 8"

definition GetUserByEmail :: "Pg \<Rightarrow> string \<Rightarrow> Tables \<Rightarrow> db_error + Tables \<times> (uuid \<times> UserRow)" where
  "GetUserByEmail g email t =
     (case Option.bind (UserByEmail g (usersT t) email) (\<lambda>i. map_option (Pair i) (usersT t i)) of
        None \<Rightarrow> Inl NoRows
      | Some u \<Rightarrow> Inr (t, u))"

text \<open>\<open>email\<close> is \<^verbatim>\<open>UNIQUE\<close>; \<open>gen_random_uuid\<close> can collide with a key only in principle.\<close>

definition CreateUser :: "Pg \<Rightarrow> nat \<Rightarrow> string \<Rightarrow> string \<Rightarrow> Tables \<Rightarrow> db_error + Tables \<times> (uuid \<times> UserRow)" where
  "CreateUser g n email hash t =
     (let i = GenUUID g n;
          u = \<lparr>userEmail = email, passwordHash = hash, userBalance = startingBalance, userCreatedAt = PgNow g n\<rparr> in
      if usersT t i \<noteq> None \<or> UserByEmail g (usersT t) email \<noteq> None then Inl UniqueViolation
      else Inr (t\<lparr>usersT := (usersT t)(i \<mapsto> u)\<rparr>, (i, u)))"

definition InsertOrder :: "uuid \<Rightarrow> OrderRow \<Rightarrow> Tables \<Rightarrow> db_error + Tables \<times> unit" where
  "InsertOrder i r t =
     (if \<not> (fits (rowQuantity r) \<and> fits (rowPrice r) \<and> fits (rowFilled r) \<and> fits (rowRemaining r))
      then Inl NumericOverflow
      else if rowOrderType r \<notin> {OrderTypeLimit, OrderTypeMarket} \<or> rowOutcome r \<notin> {OutcomeYes, OutcomeNo}
        \<or> rowSide r \<notin> {SideBuy, SideSell} \<or> rowQuantity r \<le> 0 \<or> rowPrice r < 0
        \<or> rowStatus r \<notin> {StatusPending, StatusPartial, StatusFilled, StatusCanceled, StatusRejected}
      then Inl CheckViolation
      else if ordersT t i \<noteq> None then Inl UniqueViolation
      else if eventsT t (rowEventID r) = None \<or> usersT t (rowUserID r) = None then Inl ForeignKeyViolation
      else Inr (t\<lparr>ordersT := (ordersT t)(i \<mapsto> r)\<rparr>, ()))"

definition GetOrderByID :: "uuid \<Rightarrow> Tables \<Rightarrow> db_error + Tables \<times> OrderRow" where
  "GetOrderByID i t = (case ordersT t i of None \<Rightarrow> Inl NoRows | Some r \<Rightarrow> Inr (t, r))"

text \<open>The right-hand sides of \<^verbatim>\<open>SET\<close> see the old row. The status passed is one of the allowed ones.\<close>

definition UpdateOrderFill :: "uuid \<Rightarrow> numeric \<Rightarrow> string \<Rightarrow> Tables \<Rightarrow> db_error + Tables \<times> unit" where
  "UpdateOrderFill i q status t = (case ordersT t i of
       None \<Rightarrow> Inr (t, ())
     | Some r \<Rightarrow>
         let filled = rowFilled r + q; remaining = max (rowQuantity r - (rowFilled r + q)) 0 in
         if fits filled \<and> fits remaining
         then Inr (t\<lparr>ordersT := (ordersT t)
                (i \<mapsto> r\<lparr>rowFilled := filled, rowRemaining := remaining, rowStatus := status\<rparr>)\<rparr>, ())
         else Inl NumericOverflow)"

definition UpdateOrderStatus :: "uuid \<Rightarrow> string \<Rightarrow> Tables \<Rightarrow> db_error + Tables \<times> unit" where
  "UpdateOrderStatus i status t = (case ordersT t i of
       None \<Rightarrow> Inr (t, ())
     | Some r \<Rightarrow> Inr (t\<lparr>ordersT := (ordersT t)(i \<mapsto> r\<lparr>rowStatus := status\<rparr>)\<rparr>, ()))"

definition InsertTrade :: "uuid \<Rightarrow> TradeRow \<Rightarrow> Tables \<Rightarrow> db_error + Tables \<times> unit" where
  "InsertTrade i r t =
     (if \<not> (fits (trQuantity r) \<and> fits (trPrice r)) then Inl NumericOverflow
      else if trOutcome r \<notin> {OutcomeYes, OutcomeNo} \<or> trTakerSide r \<notin> {SideBuy, SideSell} then Inl CheckViolation
      else if tradesT t i \<noteq> None then Inl UniqueViolation
      else if eventsT t (trEventID r) = None \<or> ordersT t (trTakerOrderID r) = None
        \<or> ordersT t (trMakerOrderID r) = None \<or> usersT t (trBuyerID r) = None \<or> usersT t (trSellerID r) = None
      then Inl ForeignKeyViolation
      else Inr (t\<lparr>tradesT := (tradesT t)(i \<mapsto> r)\<rparr>, ()))"

definition UpsertPosition ::
    "Pg \<Rightarrow> uuid \<Rightarrow> uuid \<Rightarrow> string \<Rightarrow> numeric \<Rightarrow> numeric \<Rightarrow> Tables \<Rightarrow> db_error + Tables \<times> unit" where
  "UpsertPosition g u ev oc sh price t =
     (let row = (case positionsT t (u, ev, oc) of
          None \<Rightarrow> \<lparr>shares = sh, avgPrice = price\<rparr>
        | Some p \<Rightarrow>
            \<lparr>shares = shares p + sh,
             avgPrice = (if shares p + sh = 0 then price
                else Quot g (avgPrice p * shares p + price * sh) (shares p + sh))\<rparr>) in
      if oc \<notin> {OutcomeYes, OutcomeNo} then Inl CheckViolation
      else if \<not> (fits (shares row) \<and> fits (avgPrice row)) then Inl NumericOverflow
      else if usersT t u = None \<or> eventsT t ev = None then Inl ForeignKeyViolation
      else Inr (t\<lparr>positionsT := (positionsT t)((u, ev, oc) \<mapsto> row)\<rparr>, ()))"

definition DecreasePosition :: "uuid \<Rightarrow> uuid \<Rightarrow> string \<Rightarrow> numeric \<Rightarrow> Tables \<Rightarrow> db_error + Tables \<times> nat" where
  "DecreasePosition u ev oc sh t = (case positionsT t (u, ev, oc) of
       None \<Rightarrow> Inr (t, 0)
     | Some p \<Rightarrow>
         if shares p < sh then Inr (t, 0)
         else if fits (shares p - sh)
         then Inr (t\<lparr>positionsT := (positionsT t)((u, ev, oc) \<mapsto> p\<lparr>shares := shares p - sh\<rparr>)\<rparr>, 1)
         else Inl NumericOverflow)"

definition InsertTransaction :: "TransactionRow \<Rightarrow> Tables \<Rightarrow> db_error + Tables \<times> unit" where
  "InsertTransaction r t =
     (if \<not> (fits (txQuantity r) \<and> fits (txPrice r) \<and> fits (txAmount r)) then Inl NumericOverflow
      else if usersT t (txUserID r) = None \<or> ordersT t (txOrderID r) = None \<or> tradesT t (txTradeID r) = None
      then Inl ForeignKeyViolation
      else Inr (t\<lparr>transactionsT := transactionsT t @ [r]\<rparr>, ()))"

definition IncrementEventVolume :: "uuid \<Rightarrow> numeric \<Rightarrow> Tables \<Rightarrow> db_error + Tables \<times> unit" where
  "IncrementEventVolume i v t = (case eventsT t i of
       None \<Rightarrow> Inr (t, ())
     | Some r \<Rightarrow>
         if fits (volume r + v) then Inr (t\<lparr>eventsT := (eventsT t)(i \<mapsto> r\<lparr>volume := volume r + v\<rparr>)\<rparr>, ())
         else Inl NumericOverflow)"

definition InsertEvent ::
    "Pg \<Rightarrow> nat \<Rightarrow> string \<Rightarrow> string \<Rightarrow> string \<Rightarrow> string \<Rightarrow> int \<Rightarrow> Tables \<Rightarrow> db_error + Tables \<times> (uuid \<times> EventRow)" where
  "InsertEvent g n ti de qu th ex t =
     (let i = GenUUID g n;
          r = \<lparr>title = ti, description = de, question = qu, thumbnail = th, isActive = True, expiresAt = ex, volume = 0\<rparr> in
      if eventsT t i \<noteq> None then Inl UniqueViolation
      else Inr (t\<lparr>eventsT := (eventsT t)(i \<mapsto> r)\<rparr>, (i, r)))"

text \<open>
  Orders of the event go with it (\<^verbatim>\<open>ON DELETE CASCADE\<close>); trades and positions of it, and ledger
  entries of its orders, forbid the deletion.
\<close>

definition DeleteEvent :: "Pg \<Rightarrow> uuid \<Rightarrow> Tables \<Rightarrow> db_error + Tables \<times> unit" where
  "DeleteEvent g ev t =
     (let ofEvent = (\<lambda>i. case ordersT t i of None \<Rightarrow> False | Some r \<Rightarrow> rowEventID r = ev) in
      if (\<exists>i\<in>set (ScanTrades g (tradesT t)). case tradesT t i of None \<Rightarrow> False | Some r \<Rightarrow>
            trEventID r = ev \<or> ofEvent (trTakerOrderID r) \<or> ofEvent (trMakerOrderID r))
        \<or> (\<exists>(u, e, oc)\<in>set (ScanPositions g (positionsT t)). e = ev)
        \<or> (\<exists>x\<in>set (transactionsT t). ofEvent (txOrderID x))
      then Inl ForeignKeyViolation
      else Inr (t\<lparr>eventsT := (eventsT t)(ev := None),
                  ordersT := (\<lambda>i. if ofEvent i then None else ordersT t i)\<rparr>, ()))"

definition GetEventByID :: "uuid \<Rightarrow> Tables \<Rightarrow> db_error + Tables \<times> EventRow" where
  "GetEventByID i t = (case eventsT t i of None \<Rightarrow> Inl NoRows | Some r \<Rightarrow> Inr (t, r))"

definition GetActiveEvents :: "Pg \<Rightarrow> Tables \<Rightarrow> db_error + Tables \<times> (uuid \<times> EventRow) list" where
  "GetActiveEvents g t = Inr (t, sort_key (\<lambda>(i, r). expiresAt r) (filter (\<lambda>(i, r). isActive r)
     (map (\<lambda>i. (i, the (eventsT t i))) (ScanEvents g (eventsT t)))))"

definition GetTradesByEvent :: "Pg \<Rightarrow> uuid \<Rightarrow> nat \<Rightarrow> nat \<Rightarrow> Tables \<Rightarrow> db_error + Tables \<times> (uuid \<times> TradeRow) list" where
  "GetTradesByEvent g ev limit offset t = Inr (t, take limit (drop offset (sort_key (\<lambda>(i, r). - trCreatedAt r)
     (filter (\<lambda>(i, r). trEventID r = ev) (map (\<lambda>i. (i, the (tradesT t i))) (ScanTrades g (tradesT t)))))))"

definition GetOrdersByUserAndEvent :: "Pg \<Rightarrow> uuid \<Rightarrow> uuid \<Rightarrow> Tables \<Rightarrow> db_error + Tables \<times> (uuid \<times> OrderRow) list" where
  "GetOrdersByUserAndEvent g u ev t = Inr (t, filter (\<lambda>(i, r). rowUserID r = u \<and> rowEventID r = ev)
     (map (\<lambda>i. (i, the (ordersT t i))) (ScanOrders g (ordersT t))))"

text \<open>The two \<^verbatim>\<open>:one\<close> reads of a single value.\<close>

definition GetUserBalance :: "uuid \<Rightarrow> Tables \<Rightarrow> db_error + Tables \<times> numeric" where
  "GetUserBalance i t = (case usersT t i of None \<Rightarrow> Inl NoRows | Some u \<Rightarrow> Inr (t, userBalance u))"

definition GetPositionRow :: "uuid \<Rightarrow> uuid \<Rightarrow> string \<Rightarrow> Tables \<Rightarrow> db_error + Tables \<times> PositionRow" where
  "GetPositionRow u ev oc t = (case positionsT t (u, ev, oc) of None \<Rightarrow> Inl NoRows | Some p \<Rightarrow> Inr (t, p))"

end
