(* ===== verification/DB_Worker.thy ===== *)
theory DB_Worker
  imports Database Events Partition
begin

text \<open>
  \<^verbatim>\<open>internal/dbworker/worker.go\<close>: the consumer that reflects the engine's events in Postgres. What
  \<^verbatim>\<open>GET\<close> returns for a fencing key is a parameter (\<open>Inl\<close> an error, \<open>Inr None\<close> no such key). Logging is
  left out. A result \<open>Inl\<close> is a non-nil error.
\<close>

datatype work_error = Err string | DbErr string db_error

definition numericFromInt :: "int \<Rightarrow> numeric" where
  "numericFromInt v = v * 10 ^ 8"

definition numericFromScaled :: "int \<Rightarrow> numeric" where
  "numericFromScaled v = v * 10 ^ 4"

text \<open>The columns read are \<^verbatim>\<open>NOT NULL\<close>, so the value is always valid.\<close>

definition numericToInt64 :: "Pg \<Rightarrow> numeric \<Rightarrow> int" where
  "numericToInt64 g n = Float64Int g n"

section \<open>Fencing\<close>

datatype fencingDecision = fencingAccept | fencingStale

definition fencingDecisionForToken :: "u64 \<Rightarrow> u64 \<Rightarrow> fencingDecision" where
  "fencingDecisionForToken token current =
     (if token = 0 then fencingAccept else if token < current then fencingStale else fencingAccept)"

definition fencingDecisionOf :: "(string \<Rightarrow> unit + u64 option) \<Rightarrow> EventEnvelope \<Rightarrow> work_error + fencingDecision" where
  "fencingDecisionOf get envelope = (case get (FencingKey (PartitionID envelope)) of
       Inl _ \<Rightarrow> Inl (Err ''read fencing token'')
     | Inr None \<Rightarrow> Inr fencingAccept
     | Inr (Some current) \<Rightarrow> Inr (fencingDecisionForToken (FencingToken envelope) current))"

section \<open>Settling a trade\<close>

definition validateTrade :: "Trade \<Rightarrow> string option" where
  "validateTrade trade =
     (if tradeID trade = [] then Some ''trade id is required''
      else if tradeEventID trade = [] then Some ''event id is required''
      else if OrderID trade = [] then Some ''taker order id is required''
      else if MatchOrderID trade = [] then Some ''maker order id is required''
      else if BuyerID trade = [] then Some ''buyer id is required''
      else if SellerID trade = [] then Some ''seller id is required''
      else if tradeOutcome trade \<noteq> ''YES'' \<and> tradeOutcome trade \<noteq> ''NO'' then Some ''invalid outcome''
      else if tradeQuantity trade \<le> 0 then Some ''quantity must be greater than zero''
      else if tradePrice trade < 0 then Some ''price cannot be negative''
      else None)"

text \<open>A query whose error ends the function with a wrapped error.\<close>

definition run ::
    "(DB \<Rightarrow> DB \<times> (db_error + 'a)) \<Rightarrow> string \<Rightarrow> ('a \<Rightarrow> DB \<Rightarrow> DB \<times> (work_error + 'b)) \<Rightarrow> DB \<Rightarrow> DB \<times> (work_error + 'b)" where
  "run q what k d = (case q d of (d, Inl err) \<Rightarrow> (d, Inl (DbErr what err)) | (d, Inr a) \<Rightarrow> k a d)"

definition andThen :: "(DB \<Rightarrow> DB \<times> (work_error + 'a)) \<Rightarrow> ('a \<Rightarrow> DB \<Rightarrow> DB \<times> (work_error + 'b)) \<Rightarrow> DB \<Rightarrow> DB \<times> (work_error + 'b)" where
  "andThen m k d = (case m d of (d, Inl err) \<Rightarrow> (d, Inl err) | (d, Inr a) \<Rightarrow> k a d)"

definition applyOrderFill :: "Pg \<Rightarrow> uuid \<Rightarrow> int \<Rightarrow> DB \<Rightarrow> DB \<times> (work_error + unit)" where
  "applyOrderFill g orderID fillQuantity =
     run (query g (GetOrderByID orderID)) ''load order'' (\<lambda>order.
       let current = numericToInt64 g (rowFilled order);
           quantity = numericToInt64 g (rowQuantity order);
           newFilled = i64 (current + fillQuantity);
           status = (if newFilled \<ge> quantity then StatusFilled else StatusPartial)
       in run (query g (UpdateOrderFill orderID (numericFromInt fillQuantity) status)) ''update order''
            (\<lambda>_ d. (d, Inr ())))"

record TradeIDs =
  tidTrade :: uuid
  tidEvent :: uuid
  tidBuyer :: uuid
  tidSeller :: uuid
  tidTaker :: uuid
  tidMaker :: uuid

definition parseID :: "Pg \<Rightarrow> string \<Rightarrow> string \<Rightarrow> (uuid \<Rightarrow> work_error + 'a) \<Rightarrow> work_error + 'a" where
  "parseID g what s k = (case ParseUUID g s of None \<Rightarrow> Inl (Err (''invalid '' @ what)) | Some i \<Rightarrow> k i)"

definition tradeIDs :: "Pg \<Rightarrow> Trade \<Rightarrow> work_error + TradeIDs" where
  "tradeIDs g trade =
     parseID g ''trade id'' (tradeID trade) (\<lambda>tradeID.
     parseID g ''event id'' (tradeEventID trade) (\<lambda>eventID.
     parseID g ''buyer id'' (BuyerID trade) (\<lambda>buyerID.
     parseID g ''seller id'' (SellerID trade) (\<lambda>sellerID.
     parseID g ''taker order id'' (OrderID trade) (\<lambda>takerOrderID.
     parseID g ''maker order id'' (MatchOrderID trade) (\<lambda>makerOrderID.
       Inr \<lparr>tidTrade = tradeID, tidEvent = eventID, tidBuyer = buyerID, tidSeller = sellerID,
            tidTaker = takerOrderID, tidMaker = makerOrderID\<rparr>))))))"

definition tradeRow :: "Pg \<Rightarrow> nat \<Rightarrow> TradeIDs \<Rightarrow> Trade \<Rightarrow> TradeRow" where
  "tradeRow g n ids trade =
     \<lparr>trEventID = tidEvent ids, trOutcome = tradeOutcome trade, trTakerOrderID = tidTaker ids,
      trMakerOrderID = tidMaker ids, trBuyerID = tidBuyer ids, trSellerID = tidSeller ids,
      trTakerSide = TakerSide trade, trQuantity = numericFromInt (tradeQuantity trade),
      trPrice = numericFromScaled (tradePrice trade), trCreatedAt = PgNow g n\<rparr>"

definition ledgerRow :: "TradeIDs \<Rightarrow> Trade \<Rightarrow> uuid \<Rightarrow> uuid \<Rightarrow> string \<Rightarrow> int \<Rightarrow> TransactionRow" where
  "ledgerRow ids trade user order typ amount =
     \<lparr>txUserID = user, txOrderID = order, txTradeID = tidTrade ids, txType = typ,
      txQuantity = numericFromInt (tradeQuantity trade), txPrice = numericFromScaled (tradePrice trade),
      txAmount = numericFromScaled amount, txOutcome = tradeOutcome trade\<rparr>"

text \<open>Everything after the insertion of the trade: fills, cash, positions, ledger, volume.\<close>

definition reflectTrade :: "Pg \<Rightarrow> TradeIDs \<Rightarrow> Trade \<Rightarrow> DB \<Rightarrow> DB \<times> (work_error + unit)" where
  "reflectTrade g ids trade =
     andThen (applyOrderFill g (tidTaker ids) (tradeQuantity trade)) (\<lambda>_.
     andThen (applyOrderFill g (tidMaker ids) (tradeQuantity trade)) (\<lambda>_.
     let total = i64 (tradeQuantity trade * tradePrice trade) in
     run (query g (DeductBalance (tidBuyer ids) (numericFromScaled total))) ''deduct buyer balance'' (\<lambda>tag.
     if tag = 0 then (\<lambda>d. (d, Inl (Err ''insufficient buyer balance''))) else
     run (query g (AddBalance (tidSeller ids) (numericFromScaled total))) ''credit seller balance'' (\<lambda>_.
     run (query g (UpsertPosition g (tidBuyer ids) (tidEvent ids) (tradeOutcome trade)
       (numericFromInt (tradeQuantity trade)) (numericFromScaled (tradePrice trade)))) ''update buyer position'' (\<lambda>_.
     run (query g (UpsertPosition g (tidSeller ids) (tidEvent ids) (tradeOutcome trade)
       (numericFromInt (i64 (- tradeQuantity trade))) (numericFromScaled (tradePrice trade)))) ''update seller position'' (\<lambda>_.
     run (query g (InsertTransaction (ledgerRow ids trade (tidBuyer ids) (tidTaker ids) ''BUY'' total)))
       ''insert buyer transaction'' (\<lambda>_.
     run (query g (InsertTransaction (ledgerRow ids trade (tidSeller ids) (tidMaker ids) ''SELL'' total)))
       ''insert seller transaction'' (\<lambda>_.
     run (query g (IncrementEventVolume (tidEvent ids) (numericFromScaled total))) ''update event volume''
       (\<lambda>_ d. (d, Inr ()))))))))))"

text \<open>The body of the transaction: \<open>Inr True\<close> asks for the commit, \<open>Inr False\<close> is a trade settled before.\<close>

definition settleBody :: "Pg \<Rightarrow> Trade \<Rightarrow> DB \<Rightarrow> DB \<times> (work_error + bool)" where
  "settleBody g trade d = (case tradeIDs g trade of
       Inl err \<Rightarrow> (d, Inl err)
     | Inr ids \<Rightarrow>
         (case query g (InsertTrade (tidTrade ids) (tradeRow g (trips d) ids trade)) d of
            (d, Inl UniqueViolation) \<Rightarrow> (d, Inr False)
          | (d, Inl err) \<Rightarrow> (d, Inl (DbErr ''insert trade'' err))
          | (d, Inr _) \<Rightarrow> andThen (reflectTrade g ids trade) (\<lambda>_ d. (d, Inr True)) d))"

text \<open>
  Begin, body, commit. Every return without a commit rolls back, by the deferred call; the answer to a
  commit can be lost after it took effect.
\<close>

definition settleTrade :: "Pg \<Rightarrow> DB \<Rightarrow> Trade \<Rightarrow> DB \<times> (work_error + unit)" where
  "settleTrade g d trade =
     (let old = tables d in
      run (query g (\<lambda>t. Inr (t, ()))) ''begin transaction'' (\<lambda>_ d.
        case settleBody g trade d of
          (d, Inl err) \<Rightarrow> (d\<lparr>tables := old\<rparr>, Inl err)
        | (d, Inr False) \<Rightarrow> (d\<lparr>tables := old\<rparr>, Inr ())
        | (d, Inr True) \<Rightarrow>
            let n = trips d; d = d\<lparr>trips := Suc n\<rparr> in
            if Fault g n then (if Landed g n then d else d\<lparr>tables := old\<rparr>, Inl (DbErr ''commit settlement'' ConnError))
            else (d, Inr ())) d)"

section \<open>The handlers\<close>

definition handleTradeExecuted :: "Pg \<Rightarrow> DB \<Rightarrow> EventEnvelope \<Rightarrow> DB \<times> (work_error + unit)" where
  "handleTradeExecuted g d envelope = (case tradeOfJson (envData envelope) of
       None \<Rightarrow> (d, Inl (Err ''decode trade''))
     | Some trade \<Rightarrow>
         (case validateTrade trade of
            Some err \<Rightarrow> (d, Inl (Err err))
          | None \<Rightarrow> settleTrade g d trade))"

definition orderRow :: "uuid \<Rightarrow> uuid \<Rightarrow> Order \<Rightarrow> OrderRow" where
  "orderRow eid uid order =
     \<lparr>rowEventID = eid, rowUserID = uid, rowOrderType = OrderType order, rowOutcome = Outcome order,
      rowSide = Side order, rowQuantity = numericFromInt (Quantity order), rowPrice = numericFromScaled (Price order),
      rowStatus = Status order, rowFilled = numericFromInt (FilledQuantity order),
      rowRemaining = numericFromInt (RemainingQuantity order)\<rparr>"

definition handleOrderCreated :: "Pg \<Rightarrow> DB \<Rightarrow> EventEnvelope \<Rightarrow> DB \<times> (work_error + unit)" where
  "handleOrderCreated g d envelope = (case orderOfJson (envData envelope) of
       None \<Rightarrow> (d, Inl (Err ''decode order''))
     | Some order \<Rightarrow>
         (case parseID g ''order id'' (ID order) (\<lambda>oid. parseID g ''event id'' (EventID order) (\<lambda>eid.
               parseID g ''user id'' (UserID order) (\<lambda>uid. Inr (oid, orderRow eid uid order)))) of
            Inl err \<Rightarrow> (d, Inl err)
          | Inr (oid, row) \<Rightarrow>
              (case query g (InsertOrder oid row) d of
                 (d, Inl UniqueViolation) \<Rightarrow> (d, Inr ())
               | (d, Inl err) \<Rightarrow> (d, Inl (DbErr ''insert order'' err))
               | (d, Inr _) \<Rightarrow> (d, Inr ()))))"

definition handleOrderCanceled :: "Pg \<Rightarrow> DB \<Rightarrow> EventEnvelope \<Rightarrow> DB \<times> (work_error + unit)" where
  "handleOrderCanceled g d envelope =
     (case Option.bind (unmarshalObj (envData envelope)) (\<lambda>fs. field decStr ''orderId'' fs []) of
        None \<Rightarrow> (d, Inl (Err ''decode cancel payload''))
      | Some orderID \<Rightarrow>
          (case parseID g ''order id'' orderID Inr of
             Inl err \<Rightarrow> (d, Inl err)
           | Inr oid \<Rightarrow> run (query g (UpdateOrderStatus oid StatusCanceled)) ''update order status'' (\<lambda>_ d. (d, Inr ())) d))"

definition handleEnvelope ::
    "Pg \<Rightarrow> (string \<Rightarrow> unit + u64 option) \<Rightarrow> DB \<Rightarrow> EventEnvelope \<Rightarrow> DB \<times> (work_error + unit)" where
  "handleEnvelope g get d envelope = (case fencingDecisionOf get envelope of
       Inl err \<Rightarrow> (d, Inl err)
     | Inr fencingStale \<Rightarrow> (d, Inr ())
     | Inr fencingAccept \<Rightarrow>
         if envType envelope = EventTradeExecuted then handleTradeExecuted g d envelope
         else if envType envelope = EventOrderCreated then handleOrderCreated g d envelope
         else if envType envelope = EventOrderCanceled then handleOrderCanceled g d envelope
         else (d, Inr ()))"

text \<open>\<open>rawEvent\<close> is the text under \<^verbatim>\<open>event\<close>, empty when missing. The last component tells whether the entry was acknowledged.\<close>

definition processEvent ::
    "Pg \<Rightarrow> (string \<Rightarrow> unit + u64 option) \<Rightarrow> bool \<Rightarrow> DB \<Rightarrow> raw \<Rightarrow> DB \<times> (work_error + unit) \<times> bool" where
  "processEvent g get ackErr d rawEvent = (case envelopeOfJson rawEvent of
       None \<Rightarrow> (d, Inl (Err ''decode event envelope''), False)
     | Some envelope \<Rightarrow>
         (case handleEnvelope g get d envelope of
            (d, Inl err) \<Rightarrow> (d, Inl err, False)
          | (d, Inr _) \<Rightarrow> if ackErr then (d, Inl (Err ''xack''), False) else (d, Inr (), True)))"

text \<open>
  One pass of \<^verbatim>\<open>Run\<close> over the entries it was given (those reclaimed, then each batch read): it stops at
  the first error. What \<^verbatim>\<open>GET\<close> and \<^verbatim>\<open>XACK\<close> answer can differ from entry to entry. The entries acknowledged
  are returned by their ids.
\<close>

fun processBatch ::
    "Pg \<Rightarrow> (string \<Rightarrow> string \<Rightarrow> unit + u64 option) \<Rightarrow> (string \<Rightarrow> bool) \<Rightarrow> DB \<Rightarrow> (string \<times> raw) list
      \<Rightarrow> DB \<times> string list \<times> (work_error + unit)" where
  "processBatch g get ackErr d [] = (d, [], Inr ())"
| "processBatch g get ackErr d ((entryID, rawEvent) # entries) =
     (case processEvent g (get entryID) (ackErr entryID) d rawEvent of
        (d, Inl err, _) \<Rightarrow> (d, [], Inl err)
      | (d, Inr _, _) \<Rightarrow>
          (case processBatch g get ackErr d entries of (d, acked, r) \<Rightarrow> (d, entryID # acked, r)))"

end
