(* ===== verification/DB_Scenario.thy ===== *)
theory DB_Scenario
  imports DB_Worker
begin

text \<open>
  A small database for the witnesses: two users with 100 each, one event, a resting sell order \<open>1\<close> of
  user \<open>s\<close> and a buy order \<open>2\<close> of user \<open>b\<close>, and the trade of three shares at 10 between them. Every
  non-empty text parses as an id, no round trip fails, and whole-share columns convert exactly.
\<close>

definition pg0 :: Pg where
  "pg0 = \<lparr>Fault = (\<lambda>_. False), Landed = (\<lambda>_. False), GenUUID = (\<lambda>n. replicate (Suc n) CHR ''g''), PgNow = int,
     ParseUUID = (\<lambda>s. if s = [] then None else Some s), Quot = (\<lambda>a b. a div b), Float64Int = (\<lambda>v. v div 10 ^ 8),
     ScanEvents = (\<lambda>_. []), ScanTrades = (\<lambda>_. []), ScanOrders = (\<lambda>_. []), ScanPositions = (\<lambda>_. []),
     UserByEmail = (\<lambda>_ _. None)\<rparr>"

definition user0 :: UserRow where
  "user0 = \<lparr>userEmail = ''u'', passwordHash = ''h'', userBalance = startingBalance, userCreatedAt = 0\<rparr>"

definition event0 :: EventRow where
  "event0 = \<lparr>title = ''t'', description = ''d'', question = ''q'', thumbnail = [], isActive = True, expiresAt = 9, volume = 0\<rparr>"

definition order0 :: "string \<Rightarrow> string \<Rightarrow> int \<Rightarrow> int \<Rightarrow> OrderRow" where
  "order0 u sd q p = \<lparr>rowEventID = ''e'', rowUserID = u, rowOrderType = OrderTypeLimit, rowOutcome = OutcomeYes, rowSide = sd,
     rowQuantity = numericFromInt q, rowPrice = numericFromScaled p, rowStatus = StatusPending, rowFilled = 0,
     rowRemaining = numericFromInt q\<rparr>"

definition db0 :: DB where
  "db0 = \<lparr>tables = \<lparr>usersT = [''b'' \<mapsto> user0, ''s'' \<mapsto> user0], eventsT = [''e'' \<mapsto> event0],
     ordersT = [''1'' \<mapsto> order0 ''s'' SideSell 5 10, ''2'' \<mapsto> order0 ''b'' SideBuy 3 12],
     tradesT = Map.empty, positionsT = Map.empty, transactionsT = []\<rparr>, trips = 0\<rparr>"

definition tradeA :: Trade where
  "tradeA = \<lparr>tradeID = ''t'', OrderID = ''2'', MatchOrderID = ''1'', tradeEventID = ''e'', tradeOutcome = OutcomeYes,
     BuyerID = ''b'', SellerID = ''s'', TakerSide = SideBuy, tradeQuantity = 3, tradePrice = 10, tradeCreatedAt = 0\<rparr>"

definition tradeEnv :: "u64 \<Rightarrow> Trade \<Rightarrow> EventEnvelope" where
  "tradeEnv tok t = NewEnvelope ''x'' 0 EventTradeExecuted (tradeToJson t) 0 tok 1"

definition noToken :: "string \<Rightarrow> unit + u64 option" where
  "noToken _ = Inr None"

lemma settle_db0: "snd (settleTrade pg0 db0 tradeA) = Inr ()"
  by code_simp

lemma handle_db0: "snd (handleEnvelope pg0 noToken db0 (tradeEnv 1 tradeA)) = Inr ()"
  by code_simp

lemma db0_finite: "finite (dom (usersT (tables db0)))" "finite (dom (positionsT (tables db0)))"
  by (simp_all add: db0_def)

lemma tradeEnv_decodes: "tradeOfJson (envData (tradeEnv tok tradeA)) = Some tradeA"
  by (simp add: tradeEnv_def NewEnvelope_def trade_json_roundtrip tradeA_def int64_def)

end
