(* ===== verification/Hub.thy ===== *)
theory Hub
  imports Types Events
begin

text \<open>
  The WebSocket server, \<^verbatim>\<open>internal/websocket\<close>: the hub of connected clients, their subscriptions and
  send buffers, the messages of a client, and the fan-out of the envelopes received from Redis. A
  \<^verbatim>\<open>*Client\<close> is a number; a \<^verbatim>\<open>map[...]struct{}\<close> is a set. Writing to the socket is outside the model:
  a message is delivered once it is in the buffer of the client. Times are nanoseconds.
\<close>

section \<open>Clients\<close>

record Client =
  send :: "json list"
  subscriptions :: "string set"
  closed :: bool
  sendClosed :: bool

definition sendBufferSize :: nat where "sendBufferSize = 256"

definition NewClient :: Client where
  "NewClient = \<lparr>send = [], subscriptions = {}, closed = False, sendClosed = False\<rparr>"

text \<open>Closing a closed channel and sending on one panic, which ends the process.\<close>

datatype panic = CloseOfClosed | SendOnClosed

definition closeClient :: "Client \<Rightarrow> Client \<times> panic option" where
  "closeClient c =
     (if closed c then (c, None)
      else let c = c\<lparr>closed := True\<rparr> in
           if sendClosed c then (c, Some CloseOfClosed) else (c\<lparr>sendClosed := True\<rparr>, None))"

text \<open>The \<^verbatim>\<open>select\<close> picks the send whenever the channel is closed, and panics, or has room.\<close>

definition Send :: "json \<Rightarrow> Client \<Rightarrow> Client \<times> panic option" where
  "Send message c =
     (if sendClosed c then (c, Some SendOnClosed)
      else if length (send c) < sendBufferSize then (c\<lparr>send := send c @ [message]\<rparr>, None)
      else closeClient c)"

definition clientSubscribe :: "string \<Rightarrow> Client \<Rightarrow> Client" where
  "clientSubscribe eventID c = (if eventID = [] then c else c\<lparr>subscriptions := insert eventID (subscriptions c)\<rparr>)"

definition clientUnsubscribe :: "string \<Rightarrow> Client \<Rightarrow> Client" where
  "clientUnsubscribe eventID c = c\<lparr>subscriptions := subscriptions c - {eventID}\<rparr>"

definition IsSubscribed :: "string \<Rightarrow> Client \<Rightarrow> bool" where
  "IsSubscribed eventID c \<longleftrightarrow> eventID \<in> subscriptions c"

section \<open>The hub\<close>

record Hub =
  clients :: "nat set"
  subscribers :: "string \<rightharpoonup> nat set"

definition NewHub :: Hub where
  "NewHub = \<lparr>clients = {}, subscribers = Map.empty\<rparr>"

definition Register :: "nat \<Rightarrow> Hub \<Rightarrow> Hub" where
  "Register c h = h\<lparr>clients := insert c (clients h)\<rparr>"

text \<open>An entry whose set becomes empty is deleted.\<close>

definition withoutClient :: "nat \<Rightarrow> nat set \<Rightarrow> nat set option" where
  "withoutClient c cs = (if cs - {c} = {} then None else Some (cs - {c}))"

definition Unregister :: "nat \<Rightarrow> Hub \<Rightarrow> Hub" where
  "Unregister c h = h\<lparr>clients := clients h - {c}, subscribers := (\<lambda>e. Option.bind (subscribers h e) (withoutClient c))\<rparr>"

text \<open>The two operations that also update the client.\<close>

definition Subscribe :: "nat \<Rightarrow> string \<Rightarrow> Hub \<times> Client \<Rightarrow> Hub \<times> Client" where
  "Subscribe c eventID = (\<lambda>(h, cl).
     (h\<lparr>subscribers := (subscribers h)(eventID \<mapsto> insert c (case subscribers h eventID of None \<Rightarrow> {} | Some cs \<Rightarrow> cs))\<rparr>,
      clientSubscribe eventID cl))"

definition Unsubscribe :: "nat \<Rightarrow> string \<Rightarrow> Hub \<times> Client \<Rightarrow> Hub \<times> Client" where
  "Unsubscribe c eventID = (\<lambda>(h, cl). case subscribers h eventID of
       None \<Rightarrow> (h, cl)
     | Some cs \<Rightarrow> (h\<lparr>subscribers := (subscribers h)(eventID := withoutClient c cs)\<rparr>, clientUnsubscribe eventID cl))"

text \<open>What \<^verbatim>\<open>BroadcastEvent\<close> copies under the read lock, in an order the language leaves open.\<close>

definition targets :: "string \<Rightarrow> Hub \<Rightarrow> nat set" where
  "targets eventID h = (case subscribers h eventID of None \<Rightarrow> {} | Some cs \<Rightarrow> cs)"

section \<open>Messages of a client\<close>

definition SubscribeMethod :: string where [const_defs]: "SubscribeMethod = ''SUBSCRIBE''"
definition UnsubscribeMethod :: string where [const_defs]: "UnsubscribeMethod = ''UNSUBSCRIBE''"

text \<open>The elements of a JSON array, each decoded over what the slice held at its index.\<close>

fun decElems :: "(json \<Rightarrow> 'a \<Rightarrow> 'a option) \<Rightarrow> 'a \<Rightarrow> json list \<Rightarrow> 'a list \<Rightarrow> 'a list option" where
  "decElems dec z [] old = Some []"
| "decElems dec z (x # xs) old =
     (case (dec x (case old of [] \<Rightarrow> z | a # _ \<Rightarrow> a), decElems dec z xs (tl old)) of
        (Some y, Some ys) \<Rightarrow> Some (y # ys)
      | _ \<Rightarrow> None)"

text \<open>A slice can be \<^verbatim>\<open>nil\<close>, which \<^verbatim>\<open>null\<close> restores.\<close>

fun decSlice :: "(json \<Rightarrow> 'a \<Rightarrow> 'a option) \<Rightarrow> 'a \<Rightarrow> json \<Rightarrow> 'a list option \<Rightarrow> 'a list option option" where
  "decSlice dec z (JArr xs) old = map_option Some (decElems dec z xs (case old of None \<Rightarrow> [] | Some a \<Rightarrow> a))"
| "decSlice dec z JNull _ = Some None"
| "decSlice dec z _ _ = None"

record IncomingMessage =
  Method :: string
  Params :: "string list option"

definition incomingOfJson :: "raw \<Rightarrow> IncomingMessage option" where
  "incomingOfJson r = do {
     fs \<leftarrow> unmarshalObj r;
     m \<leftarrow> field decStr ''method'' fs [];
     ps \<leftarrow> field (decSlice decStr []) ''params'' fs None;
     Some \<lparr>Method = m, Params = ps\<rparr> }"

text \<open>The calls a message makes, in order, each of them atomic.\<close>

datatype Action = DoSubscribe string | DoUnsubscribe string | DoSend json

definition sendError :: "string \<Rightarrow> Action list" where
  "sendError message = [DoSend (JObj [(''data'', JObj [(''error'', JStr message)]), (''type'', JStr ''error'')])]"

definition handleSubscribe :: "string list option \<Rightarrow> Action list" where
  "handleSubscribe params = (case params of
       None \<Rightarrow> sendError ''subscription is required''
     | Some [] \<Rightarrow> sendError ''subscription is required''
     | Some es \<Rightarrow> map DoSubscribe (filter (\<lambda>e. e \<noteq> []) es))"

definition handleUnsubscribe :: "string list option \<Rightarrow> Action list" where
  "handleUnsubscribe params = (case params of
       None \<Rightarrow> sendError ''subscription is required''
     | Some [] \<Rightarrow> sendError ''subscription is required''
     | Some es \<Rightarrow> map DoUnsubscribe (filter (\<lambda>e. e \<noteq> []) es))"

definition handleClientMessage :: "raw \<Rightarrow> Action list" where
  "handleClientMessage message = (case incomingOfJson message of
       None \<Rightarrow> sendError ''invalid message''
     | Some msg \<Rightarrow>
         if Method msg = SubscribeMethod then handleSubscribe (Params msg)
         else if Method msg = UnsubscribeMethod then handleUnsubscribe (Params msg)
         else sendError ''unknown method'')"

section \<open>Envelopes from Redis\<close>

record TradeData =
  dataPrice :: int
  dataQuantity :: int
  dataTimestamp :: int
  dataEventID :: string
  dataUserID :: string
  dataOutcome :: string
  dataSide :: string

definition UnixMilli :: "int \<Rightarrow> int" where
  "UnixMilli t = t div 1000000"

definition tradeData :: "Trade \<Rightarrow> TradeData" where
  "tradeData trade =
     \<lparr>dataPrice = tradePrice trade, dataQuantity = tradeQuantity trade, dataTimestamp = UnixMilli (tradeCreatedAt trade),
      dataEventID = tradeEventID trade,
      dataUserID = (if TakerSide trade = SideBuy then BuyerID trade else SellerID trade),
      dataOutcome = tradeOutcome trade, dataSide = TakerSide trade\<rparr>"

definition tradeMessageToJson :: "TradeData \<Rightarrow> json" where
  "tradeMessageToJson d = JObj [(''type'', JStr ''trade''), (''data'', JObj
     [(''price'', JNum (dataPrice d)), (''quantity'', JNum (dataQuantity d)), (''timestamp'', JNum (dataTimestamp d)),
      (''eventId'', JStr (dataEventID d)), (''userId'', JStr (dataUserID d)), (''outcome'', JStr (dataOutcome d)),
      (''side'', JStr (dataSide d))])]"

record DepthEntry =
  entPrice :: int
  entQuantity :: int
  entTotal :: int

record DepthBook =
  askEntries :: "DepthEntry list option"
  bidEntries :: "DepthEntry list option"

record DepthData =
  bookYES :: DepthBook
  bookNO :: DepthBook

definition decEntry :: "json \<Rightarrow> DepthEntry \<Rightarrow> DepthEntry option" where
  "decEntry j old = do {
     fs \<leftarrow> unmarshalObj (Some j);
     p \<leftarrow> field decInt ''price'' fs (entPrice old);
     q \<leftarrow> field decInt ''quantity'' fs (entQuantity old);
     t \<leftarrow> field decInt ''total'' fs (entTotal old);
     Some \<lparr>entPrice = p, entQuantity = q, entTotal = t\<rparr> }"

definition decBook :: "json \<Rightarrow> DepthBook \<Rightarrow> DepthBook option" where
  "decBook j old = do {
     fs \<leftarrow> unmarshalObj (Some j);
     a \<leftarrow> field (decSlice decEntry \<lparr>entPrice = 0, entQuantity = 0, entTotal = 0\<rparr>) ''asks'' fs (askEntries old);
     b \<leftarrow> field (decSlice decEntry \<lparr>entPrice = 0, entQuantity = 0, entTotal = 0\<rparr>) ''bids'' fs (bidEntries old);
     Some \<lparr>askEntries = a, bidEntries = b\<rparr> }"

definition decDepth :: "json \<Rightarrow> DepthData \<Rightarrow> DepthData option" where
  "decDepth j old = do {
     fs \<leftarrow> unmarshalObj (Some j);
     y \<leftarrow> field decBook ''YES'' fs (bookYES old);
     n \<leftarrow> field decBook ''NO'' fs (bookNO old);
     Some \<lparr>bookYES = y, bookNO = n\<rparr> }"

definition depthEntryToJson :: "DepthEntry \<Rightarrow> json" where
  "depthEntryToJson d = JObj [(''price'', JNum (entPrice d)), (''quantity'', JNum (entQuantity d)), (''total'', JNum (entTotal d))]"

definition sliceToJson :: "('a \<Rightarrow> json) \<Rightarrow> 'a list option \<Rightarrow> json" where
  "sliceToJson f xs = (case xs of None \<Rightarrow> JNull | Some xs \<Rightarrow> JArr (map f xs))"

definition bookToJson :: "DepthBook \<Rightarrow> json" where
  "bookToJson b = JObj [(''asks'', sliceToJson depthEntryToJson (askEntries b)), (''bids'', sliceToJson depthEntryToJson (bidEntries b))]"

definition depthMessageToJson :: "DepthData \<Rightarrow> json" where
  "depthMessageToJson d = JObj [(''type'', JStr ''depth''), (''data'', JObj [(''YES'', bookToJson (bookYES d)), (''NO'', bookToJson (bookNO d))])]"

text \<open>
  The broadcast an envelope causes: its event and message, nothing for other types, or an error, which
  \<^verbatim>\<open>Run\<close> logs before it goes on.
\<close>

definition handleTrade :: "raw \<Rightarrow> (string \<times> json) option option" where
  "handleTrade d = (case tradeOfJson d of
       None \<Rightarrow> None
     | Some trade \<Rightarrow> Some (Some (tradeEventID trade, tradeMessageToJson (tradeData trade))))"

definition handleDepth :: "raw \<Rightarrow> (string \<times> json) option option" where
  "handleDepth d =
     (case do {
        fs \<leftarrow> unmarshalObj d;
        e \<leftarrow> field decStr ''eventId'' fs [];
        x \<leftarrow> field decDepth ''data'' fs \<lparr>bookYES = \<lparr>askEntries = None, bidEntries = None\<rparr>, bookNO = \<lparr>askEntries = None, bidEntries = None\<rparr>\<rparr>;
        Some (e, x) } of
       None \<Rightarrow> None
     | Some (e, x) \<Rightarrow> Some (Some (e, depthMessageToJson x)))"

definition handleUpdate :: "raw \<Rightarrow> (string \<times> json) option option" where
  "handleUpdate message = (case envelopeOfJson message of
       None \<Rightarrow> None
     | Some envelope \<Rightarrow>
         if envType envelope = EventTradeExecuted then handleTrade (envData envelope)
         else if envType envelope = EventDepthUpdated then handleDepth (envData envelope)
         else Some None)"

end
