(* ===== verification/Streams.thy ===== *)
theory Streams
  imports Engine DB_Worker Hub
begin

text \<open>
  The loops that feed the components: \<^verbatim>\<open>consumeMessages\<close> of the engine, \<^verbatim>\<open>Run\<close> of the DB worker and \<^verbatim>\<open>Run\<close> of
  the WebSocket subscriber. What Redis hands out is an argument: the entries reclaimed at the start and
  then the outcome of each blocking read. Each loop is shown to be one pass over the entries delivered.
\<close>

section \<open>Consumer groups\<close>

text \<open>\<^verbatim>\<open>strings.Contains\<close>.\<close>

fun contains :: "string \<Rightarrow> string \<Rightarrow> bool" where
  "contains sub [] = (sub = [])"
| "contains sub (c # s) = (take (length sub) (c # s) = sub \<or> contains sub s)"

text \<open>The text of the error of \<^verbatim>\<open>XGROUP CREATE\<close>, if any; a group that exists is no error.\<close>

definition ensureCommandGroup :: "string option \<Rightarrow> string option" where
  "ensureCommandGroup err = (case err of None \<Rightarrow> None | Some e \<Rightarrow> if contains ''BUSYGROUP'' e then None else Some e)"

definition ensureGroup :: "string option \<Rightarrow> string option" where
  "ensureGroup err = (case err of None \<Rightarrow> None | Some e \<Rightarrow> if contains ''BUSYGROUP'' e then None else Some e)"

lemma contains_iff: "contains sub s \<longleftrightarrow> (\<exists>a b. s = a @ sub @ b)"
proof (induction s)
  case (Cons c s)
  have "take (length sub) (c # s) = sub \<longleftrightarrow> (\<exists>b. c # s = sub @ b)"
    by (metis append_eq_conv_conj append_take_drop_id)
  then show ?case using Cons by (simp add: Cons_eq_append_conv) blast
qed simp

section \<open>Reads\<close>

text \<open>One blocking read: a batch, an error that is logged before the next try, or the end of the context.\<close>

datatype 'b Read = Batch 'b | ReadError | ReadCanceled

fun delivered :: "'a list Read list \<Rightarrow> 'a list" where
  "delivered [] = []"
| "delivered (Batch xs # rs) = xs @ delivered rs"
| "delivered (ReadError # rs) = delivered rs"
| "delivered (ReadCanceled # rs) = []"

section \<open>The engine\<close>

definition consumeEntries :: "World \<Rightarrow> int \<Rightarrow> Engine \<Rightarrow> StreamEntry list \<Rightarrow> Engine" where
  "consumeEntries w partitionID = foldl (\<lambda>e x. fst (processStreamEntry w e partitionID x))"

fun consumeReads :: "World \<Rightarrow> int \<Rightarrow> Engine \<Rightarrow> StreamEntry list Read list \<Rightarrow> Engine" where
  "consumeReads w partitionID e [] = e"
| "consumeReads w partitionID e (Batch messages # rs) = consumeReads w partitionID (consumeEntries w partitionID e messages) rs"
| "consumeReads w partitionID e (ReadError # rs) = consumeReads w partitionID e rs"
| "consumeReads w partitionID e (ReadCanceled # rs) = e"

definition consumeMessages :: "World \<Rightarrow> Engine \<Rightarrow> int \<Rightarrow> string option \<Rightarrow> StreamEntry list \<Rightarrow> StreamEntry list Read list \<Rightarrow> Engine" where
  "consumeMessages w e partitionID groupErr claimed reads =
     (if ensureCommandGroup groupErr \<noteq> None then e
      else consumeReads w partitionID (consumeEntries w partitionID e claimed) reads)"

lemma consumeReads_delivered: "consumeReads w pid e rs = consumeEntries w pid e (delivered rs)"
  by (induction w pid e rs rule: consumeReads.induct) (simp_all add: consumeEntries_def)

lemma consumeMessages_delivered:
  assumes "ensureCommandGroup groupErr = None"
  shows "consumeMessages w e pid groupErr claimed reads = consumeEntries w pid e (claimed @ delivered reads)"
  using assms by (simp add: consumeMessages_def consumeReads_delivered) (simp add: consumeEntries_def)

section \<open>The DB worker\<close>

fun workerReads ::
    "Pg \<Rightarrow> (string \<Rightarrow> string \<Rightarrow> unit + u64 option) \<Rightarrow> (string \<Rightarrow> bool) \<Rightarrow> DB \<Rightarrow> (string \<times> raw) list Read list
      \<Rightarrow> DB \<times> string list \<times> (work_error + unit)" where
  "workerReads g get ackErr d [] = (d, [], Inr ())"
| "workerReads g get ackErr d (Batch entries # rs) = (case processBatch g get ackErr d entries of
       (d, acked, Inl err) \<Rightarrow> (d, acked, Inl err)
     | (d, acked, Inr _) \<Rightarrow> (case workerReads g get ackErr d rs of (d, rest, r) \<Rightarrow> (d, acked @ rest, r)))"
| "workerReads g get ackErr d (ReadError # rs) = workerReads g get ackErr d rs"
| "workerReads g get ackErr d (ReadCanceled # rs) = (d, [], Inr ())"

text \<open>The reclaimed entries are worked off like a first batch.\<close>

definition Run ::
    "Pg \<Rightarrow> (string \<Rightarrow> string \<Rightarrow> unit + u64 option) \<Rightarrow> (string \<Rightarrow> bool) \<Rightarrow> DB \<Rightarrow> string option \<Rightarrow> (string \<times> raw) list \<Rightarrow> (string \<times> raw) list Read list
      \<Rightarrow> DB \<times> string list \<times> (work_error + unit)" where
  "Run g get ackErr d groupErr claimed reads =
     (if ensureGroup groupErr \<noteq> None then (d, [], Inl (Err ''ensure event group''))
      else workerReads g get ackErr d (Batch claimed # reads))"

lemma processBatch_append:
  "processBatch g get ackErr d (xs @ ys) = (case processBatch g get ackErr d xs of
       (d, acked, Inl err) \<Rightarrow> (d, acked, Inl err)
     | (d, acked, Inr _) \<Rightarrow> (case processBatch g get ackErr d ys of (d, rest, r) \<Rightarrow> (d, acked @ rest, r)))"
proof (induction g get ackErr d xs rule: processBatch.induct)
  case (2 g get ackErr d i raw xs)
  obtain d1 r b where p: "processEvent g (get i) (ackErr i) d raw = (d1, r, b)" by (metis prod_cases3)
  show ?case using 2 [OF p [symmetric] refl] p by (cases r) (auto split: prod.splits sum.splits)
qed simp

lemma workerReads_delivered: "workerReads g get ackErr d rs = processBatch g get ackErr d (delivered rs)"
proof (induction rs arbitrary: d)
  case (Cons r rs)
  then show ?case by (cases r) (simp_all add: processBatch_append)
qed simp

lemma Run_delivered:
  assumes "ensureGroup groupErr = None"
  shows "Run g get ackErr d groupErr claimed reads = processBatch g get ackErr d (claimed @ delivered reads)"
  using assms by (simp add: Run_def workerReads_delivered del: workerReads.simps)

section \<open>The WebSocket subscriber\<close>

definition NewRedisSubscriber :: "string \<Rightarrow> string" where
  "NewRedisSubscriber channel = (if channel = [] then WSChannel else channel)"

datatype Incoming = Payloaded raw | ChannelGone | ContextOver

text \<open>The broadcasts made, in order; an envelope that cannot be handled is logged and skipped.\<close>

fun subscriberRun :: "Incoming list \<Rightarrow> (string \<times> json) list" where
  "subscriberRun [] = []"
| "subscriberRun (ContextOver # _) = []"
| "subscriberRun (ChannelGone # _) = []"
| "subscriberRun (Payloaded m # ms) = (case handleUpdate m of
       Some (Some b) \<Rightarrow> b # subscriberRun ms
     | _ \<Rightarrow> subscriberRun ms)"

lemma subscriberRun_payloads:
  "subscriberRun (map Payloaded ms) = List.map_filter (\<lambda>m. Option.bind (handleUpdate m) id) ms"
  by (induction ms) (auto simp: List.map_filter_def split: option.split)

section \<open>Clients\<close>

text \<open>\<^verbatim>\<open>rand.Intn(len(chars))\<close> is \<open>rand i\<close> for the \<open>i\<close>-th character.\<close>

definition generateClientID :: "(nat \<Rightarrow> nat) \<Rightarrow> string" where
  "generateClientID rand = map (\<lambda>i. ''abcdefghijklmnopqrstuvwxyz0123456789'' ! (rand i mod 36)) [0..<20]"

lemma generateClientID_length: "length (generateClientID rand) = 20"
  by (simp add: generateClientID_def)

end
