(* ===== verification/DB_Props.thy ===== *)
theory DB_Props
  imports DB_Scenario Streams
begin

text \<open>
  Settlement in Postgres: all or nothing, exactly once, money and shares conserved, balances never
  negative as long as the amount fits 64 bits, and stale engines fenced off.
\<close>

section \<open>Running queries\<close>

lemma query_Inr:
  "query g q d = (d', Inr a) \<longleftrightarrow> \<not> Fault g (trips d)
     \<and> (\<exists>t. q (tables d) = Inr (t, a) \<and> d' = d\<lparr>trips := Suc (trips d), tables := t\<rparr>)"
  by (auto simp: query_def Let_def split: sum.splits)

lemma query_Inl: "query g q d = (d', Inl err) \<Longrightarrow> tables d' = tables d"
  by (auto simp: query_def Let_def split: sum.splits if_splits)

lemma run_Inr: "run q what k d = (d', Inr b) \<longleftrightarrow> (\<exists>d1 a. q d = (d1, Inr a) \<and> k a d1 = (d', Inr b))"
  by (auto simp: run_def split: prod.splits sum.splits)

lemma andThen_Inr: "andThen m k d = (d', Inr b) \<longleftrightarrow> (\<exists>d1 a. m d = (d1, Inr a) \<and> k a d1 = (d', Inr b))"
  by (auto simp: andThen_def split: prod.splits sum.splits)

text \<open>A successful function ran each of its statements successfully.\<close>

lemma run_queryE:
  assumes "run (query g q) what k d = (d', Inr b)"
  obtains a d1 where "q (tables d) = Inr (tables d1, a)" "k a d1 = (d', Inr b)"
proof -
  obtain a t where "q (tables d) = Inr (t, a)" "k a (d\<lparr>trips := Suc (trips d), tables := t\<rparr>) = (d', Inr b)"
    using assms by (auto simp: run_Inr query_Inr)
  then show thesis by (intro that [of "d\<lparr>trips := Suc (trips d), tables := t\<rparr>"]) simp_all
qed

lemma andThenE:
  assumes "andThen m k d = (d', Inr b)"
  obtains a d1 where "m d = (d1, Inr a)" "k a d1 = (d', Inr b)"
  using assms by (auto simp: andThen_Inr)

lemma unlessE:
  assumes "(if c then (\<lambda>d. (d, Inl err)) else f) d = (d', Inr b)"
  obtains "\<not> c" "f d = (d', Inr b)"
  using assms by (auto split: if_splits)

lemmas chain = run_Inr andThen_Inr query_Inr

section \<open>What a settlement does\<close>

definition filledRow :: "Pg \<Rightarrow> int \<Rightarrow> OrderRow \<Rightarrow> OrderRow" where
  "filledRow g q r = r\<lparr>rowFilled := rowFilled r + numericFromInt q,
     rowRemaining := max (rowQuantity r - (rowFilled r + numericFromInt q)) 0,
     rowStatus := (if i64 (numericToInt64 g (rowFilled r) + q) \<ge> numericToInt64 g (rowQuantity r)
                   then StatusFilled else StatusPartial)\<rparr>"

lemma applyOrderFill_Inr:
  assumes "applyOrderFill g i q d = (d', Inr u)"
  shows "\<exists>r. ordersT (tables d) i = Some r
    \<and> tables d' = (tables d)\<lparr>ordersT := (ordersT (tables d))(i \<mapsto> filledRow g q r)\<rparr>"
  using assms
  by (auto simp: applyOrderFill_def chain GetOrderByID_def UpdateOrderFill_def filledRow_def Let_def
      split: option.splits if_splits)

definition reflected :: "Pg \<Rightarrow> TradeIDs \<Rightarrow> Trade \<Rightarrow> Tables \<Rightarrow> Tables \<Rightarrow> bool" where
  "reflected g ids trade t t' \<longleftrightarrow>
     (let q = numericFromInt (tradeQuantity trade); total = i64 (tradeQuantity trade * tradePrice trade);
          cash = numericFromScaled total in
      tradesT t' = tradesT t
      \<and> (\<exists>r. ordersT t (tidTaker ids) = Some r \<and> (\<exists>s.
           ((ordersT t)(tidTaker ids \<mapsto> filledRow g (tradeQuantity trade) r)) (tidMaker ids) = Some s
           \<and> ordersT t' = (ordersT t)(tidTaker ids \<mapsto> filledRow g (tradeQuantity trade) r,
               tidMaker ids \<mapsto> filledRow g (tradeQuantity trade) s)))
      \<and> (\<exists>b. usersT t (tidBuyer ids) = Some b \<and> cash \<le> userBalance b)
      \<and> dom (usersT t') = dom (usersT t)
      \<and> (\<forall>i. at_key userBalance (usersT t') i = at_key userBalance (usersT t) i
           - (if i = tidBuyer ids then cash else 0)
           + (if i = tidSeller ids \<and> usersT t (tidSeller ids) \<noteq> None then cash else 0))
      \<and> dom (positionsT t') = dom (positionsT t) \<union> {(tidBuyer ids, tidEvent ids, tradeOutcome trade),
           (tidSeller ids, tidEvent ids, tradeOutcome trade)}
      \<and> (\<forall>k. at_key shares (positionsT t') k = at_key shares (positionsT t) k
           + (if k = (tidBuyer ids, tidEvent ids, tradeOutcome trade) then q else 0)
           + (if k = (tidSeller ids, tidEvent ids, tradeOutcome trade)
              then numericFromInt (i64 (- tradeQuantity trade)) else 0))
      \<and> transactionsT t' = transactionsT t @
          [ledgerRow ids trade (tidBuyer ids) (tidTaker ids) ''BUY'' total,
           ledgerRow ids trade (tidSeller ids) (tidMaker ids) ''SELL'' total]
      \<and> dom (eventsT t') = dom (eventsT t)
      \<and> (\<forall>i. at_key volume (eventsT t') i = at_key volume (eventsT t) i + (if i = tidEvent ids \<and> eventsT t i \<noteq> None then cash else 0)))"

lemma reflectedD:
  assumes "reflected g ids trade t t'"
  defines "q \<equiv> numericFromInt (tradeQuantity trade)"
    and "cash \<equiv> numericFromScaled (i64 (tradeQuantity trade * tradePrice trade))"
  shows "tradesT t' = tradesT t"
    "\<exists>b. usersT t (tidBuyer ids) = Some b \<and> cash \<le> userBalance b"
    "dom (usersT t') = dom (usersT t)"
    "at_key userBalance (usersT t') i = at_key userBalance (usersT t) i - (if i = tidBuyer ids then cash else 0)
       + (if i = tidSeller ids \<and> usersT t (tidSeller ids) \<noteq> None then cash else 0)"
    "dom (positionsT t') = dom (positionsT t) \<union> {(tidBuyer ids, tidEvent ids, tradeOutcome trade),
       (tidSeller ids, tidEvent ids, tradeOutcome trade)}"
    "at_key shares (positionsT t') k = at_key shares (positionsT t) k
       + (if k = (tidBuyer ids, tidEvent ids, tradeOutcome trade) then q else 0)
       + (if k = (tidSeller ids, tidEvent ids, tradeOutcome trade) then numericFromInt (i64 (- tradeQuantity trade)) else 0)"
    "transactionsT t' = transactionsT t @
       [ledgerRow ids trade (tidBuyer ids) (tidTaker ids) ''BUY'' (i64 (tradeQuantity trade * tradePrice trade)),
        ledgerRow ids trade (tidSeller ids) (tidMaker ids) ''SELL'' (i64 (tradeQuantity trade * tradePrice trade))]"
  using assms(1) unfolding reflected_def Let_def q_def cash_def by - (elim conjE, (assumption | erule spec))+

lemma DeductBalance_Inr:
  "DeductBalance i c t = Inr (t', n) \<Longrightarrow> n \<noteq> 0 \<Longrightarrow>
   \<exists>u. usersT t i = Some u \<and> c \<le> userBalance u \<and> t' = t\<lparr>usersT := (usersT t)(i \<mapsto> u\<lparr>userBalance := userBalance u - c\<rparr>)\<rparr>"
  by (auto simp: DeductBalance_def split: option.splits if_splits)

lemma AddBalance_Inr:
  "AddBalance i c t = Inr (t', u) \<Longrightarrow>
   \<exists>m. t' = t\<lparr>usersT := m\<rparr> \<and> dom m = dom (usersT t)
     \<and> (\<forall>j. at_key userBalance m j = at_key userBalance (usersT t) j + (if j = i \<and> usersT t i \<noteq> None then c else 0))"
  by (auto simp: AddBalance_def split: option.splits if_splits intro!: exI [of _ "usersT t'"])

lemma UpsertPosition_Inr:
  "UpsertPosition g u ev oc sh pr t = Inr (t', x) \<Longrightarrow>
   \<exists>m. t' = t\<lparr>positionsT := m\<rparr> \<and> dom m = insert (u, ev, oc) (dom (positionsT t))
     \<and> (\<forall>k. at_key shares m k = at_key shares (positionsT t) k + (if k = (u, ev, oc) then sh else 0))"
  by (auto simp: UpsertPosition_def Let_def split: option.splits if_splits)

lemma InsertTransaction_Inr:
  "InsertTransaction r t = Inr (t', x) \<Longrightarrow> t' = t\<lparr>transactionsT := transactionsT t @ [r]\<rparr>"
  by (auto simp: InsertTransaction_def split: if_splits)

lemma IncrementEventVolume_Inr:
  "IncrementEventVolume i v t = Inr (t', x) \<Longrightarrow>
   \<exists>m. t' = t\<lparr>eventsT := m\<rparr> \<and> dom m = dom (eventsT t)
     \<and> (\<forall>j. at_key volume m j = at_key volume (eventsT t) j + (if j = i \<and> eventsT t j \<noteq> None then v else 0))"
  by (auto simp: IncrementEventVolume_def split: option.splits if_splits intro!: exI [of _ "eventsT t'"])

lemma reflectTrade_steps:
  assumes "reflectTrade g ids trade d = (d', Inr u)"
  defines "q \<equiv> tradeQuantity trade" and "amount \<equiv> i64 (tradeQuantity trade * tradePrice trade)"
  obtains d1 d2 n t3 t4 t5 t6 t7 t8 u1 u2 u3 u4 u5 u6 u7 u8 where
    "applyOrderFill g (tidTaker ids) q d = (d1, Inr u1)" "applyOrderFill g (tidMaker ids) q d1 = (d2, Inr u2)"
    "DeductBalance (tidBuyer ids) (numericFromScaled amount) (tables d2) = Inr (t3, n)" "n \<noteq> 0"
    "AddBalance (tidSeller ids) (numericFromScaled amount) t3 = Inr (t4, u3)"
    "UpsertPosition g (tidBuyer ids) (tidEvent ids) (tradeOutcome trade) (numericFromInt q)
       (numericFromScaled (tradePrice trade)) t4 = Inr (t5, u4)"
    "UpsertPosition g (tidSeller ids) (tidEvent ids) (tradeOutcome trade) (numericFromInt (i64 (- q)))
       (numericFromScaled (tradePrice trade)) t5 = Inr (t6, u5)"
    "InsertTransaction (ledgerRow ids trade (tidBuyer ids) (tidTaker ids) ''BUY'' amount) t6 = Inr (t7, u6)"
    "InsertTransaction (ledgerRow ids trade (tidSeller ids) (tidMaker ids) ''SELL'' amount) t7 = Inr (t8, u7)"
    "IncrementEventVolume (tidEvent ids) (numericFromScaled amount) t8 = Inr (tables d', u8)"
  using assms(1) unfolding reflectTrade_def Let_def
  by (elim andThenE run_queryE unlessE) (rule that, unfold q_def amount_def, assumption+, (simp only: prod.inject)?)

lemma reflectTrade_Inr:
  assumes "reflectTrade g ids trade d = (d', Inr u)"
  shows "reflected g ids trade (tables d) (tables d')"
proof -
  let ?q = "tradeQuantity trade" and ?cash = "numericFromScaled (i64 (tradeQuantity trade * tradePrice trade))"
  let ?bk = "(tidBuyer ids, tidEvent ids, tradeOutcome trade)" and ?sk = "(tidSeller ids, tidEvent ids, tradeOutcome trade)"
  obtain d1 d2 n t3 t4 t5 t6 t7 t8 u1 u2 u3 u4 u5 u6 u7 u8 where f: "applyOrderFill g (tidTaker ids) ?q d = (d1, Inr u1)"
      "applyOrderFill g (tidMaker ids) ?q d1 = (d2, Inr u2)"
    and s: "DeductBalance (tidBuyer ids) ?cash (tables d2) = Inr (t3, n)" "n \<noteq> 0" "AddBalance (tidSeller ids) ?cash t3 = Inr (t4, u3)"
      "UpsertPosition g (tidBuyer ids) (tidEvent ids) (tradeOutcome trade) (numericFromInt ?q) (numericFromScaled (tradePrice trade)) t4 = Inr (t5, u4)"
      "UpsertPosition g (tidSeller ids) (tidEvent ids) (tradeOutcome trade) (numericFromInt (i64 (- ?q))) (numericFromScaled (tradePrice trade)) t5 = Inr (t6, u5)"
      "InsertTransaction (ledgerRow ids trade (tidBuyer ids) (tidTaker ids) ''BUY'' (i64 (?q * tradePrice trade))) t6 = Inr (t7, u6)"
      "InsertTransaction (ledgerRow ids trade (tidSeller ids) (tidMaker ids) ''SELL'' (i64 (?q * tradePrice trade))) t7 = Inr (t8, u7)"
      "IncrementEventVolume (tidEvent ids) ?cash t8 = Inr (tables d', u8)"
    by (rule reflectTrade_steps [OF assms]) (rule that)
  obtain r where r: "ordersT (tables d) (tidTaker ids) = Some r"
    "tables d1 = (tables d)\<lparr>ordersT := (ordersT (tables d))(tidTaker ids \<mapsto> filledRow g ?q r)\<rparr>"
    using applyOrderFill_Inr [OF f(1)] by blast
  obtain r' where r': "ordersT (tables d1) (tidMaker ids) = Some r'"
    "tables d2 = (tables d1)\<lparr>ordersT := (ordersT (tables d1))(tidMaker ids \<mapsto> filledRow g ?q r')\<rparr>"
    using applyOrderFill_Inr [OF f(2)] by blast
  obtain b where b: "usersT (tables d2) (tidBuyer ids) = Some b" "?cash \<le> userBalance b"
    "t3 = (tables d2)\<lparr>usersT := (usersT (tables d2))(tidBuyer ids \<mapsto> b\<lparr>userBalance := userBalance b - ?cash\<rparr>)\<rparr>"
    using DeductBalance_Inr [OF s(1,2)] by blast
  obtain m4 where m4: "t4 = t3\<lparr>usersT := m4\<rparr>" "dom m4 = dom (usersT t3)" "\<And>j. at_key userBalance m4 j =
      at_key userBalance (usersT t3) j + (if j = tidSeller ids \<and> usersT t3 (tidSeller ids) \<noteq> None then ?cash else 0)"
    using AddBalance_Inr [OF s(3)] by blast
  obtain m5 where m5: "t5 = t4\<lparr>positionsT := m5\<rparr>" "dom m5 = insert ?bk (dom (positionsT t4))"
    "\<And>k. at_key shares m5 k = at_key shares (positionsT t4) k + (if k = ?bk then numericFromInt ?q else 0)"
    using UpsertPosition_Inr [OF s(4)] by blast
  obtain m6 where m6: "t6 = t5\<lparr>positionsT := m6\<rparr>" "dom m6 = insert ?sk (dom (positionsT t5))"
    "\<And>k. at_key shares m6 k = at_key shares (positionsT t5) k + (if k = ?sk then numericFromInt (i64 (- ?q)) else 0)"
    using UpsertPosition_Inr [OF s(5)] by blast
  note t7 = InsertTransaction_Inr [OF s(6)] InsertTransaction_Inr [OF s(7)]
  obtain m9 where m9: "tables d' = t8\<lparr>eventsT := m9\<rparr>" "dom m9 = dom (eventsT t8)" "\<And>j. at_key volume m9 j =
      at_key volume (eventsT t8) j + (if j = tidEvent ids \<and> eventsT t8 j \<noteq> None then ?cash else 0)"
    using IncrementEventVolume_Inr [OF s(8)] by blast
  note eqs = m9(1) t7 m6(1) m5(1) m4(1) b(3) r'(2) r(2)
  have "ordersT (tables d') = (ordersT (tables d))(tidTaker ids \<mapsto> filledRow g ?q r, tidMaker ids \<mapsto> filledRow g ?q r')"
    by (simp add: eqs)
  moreover have "dom (positionsT (tables d')) = dom (positionsT (tables d)) \<union> {?bk, ?sk}"
    by (simp add: eqs m5(2) m6(2) insert_commute)
  moreover have "usersT (tables d) (tidBuyer ids) = Some b" using b(1) by (simp add: r(2) r'(2))
  moreover have "((ordersT (tables d))(tidTaker ids \<mapsto> filledRow g ?q r)) (tidMaker ids) = Some r'"
    using r'(1) by (simp add: r(2))
  ultimately show ?thesis
    using r(1) b(2) unfolding reflected_def Let_def
    by (simp add: eqs m4(2,3) m5(3) m6(3) m9(2,3) insert_absorb domI)
qed

section \<open>Atomicity\<close>

text \<open>The trade was new, and the tables afterwards carry it and everything that follows from it.\<close>

definition settledBy :: "Pg \<Rightarrow> Trade \<Rightarrow> Tables \<Rightarrow> Tables \<Rightarrow> bool" where
  "settledBy g trade t t' \<longleftrightarrow> (\<exists>ids n. tradeIDs g trade = Inr ids \<and> tradesT t (tidTrade ids) = None
     \<and> reflected g ids trade (t\<lparr>tradesT := (tradesT t)(tidTrade ids \<mapsto> tradeRow g n ids trade)\<rparr>) t')"

lemma InsertTrade_Inr: "InsertTrade i r t = Inr (t', u) \<Longrightarrow> tradesT t i = None \<and> t' = t\<lparr>tradesT := (tradesT t)(i \<mapsto> r)\<rparr>"
  by (auto simp: InsertTrade_def split: if_splits)

lemma InsertTrade_unique: "InsertTrade i r t = Inl UniqueViolation \<Longrightarrow> tradesT t i \<noteq> None"
  by (auto simp: InsertTrade_def split: if_splits)

lemma settleBody_Inr:
  assumes "settleBody g trade d = (d', Inr b)"
  shows "if b then settledBy g trade (tables d) (tables d')
    else (\<exists>ids. tradeIDs g trade = Inr ids \<and> tradesT (tables d) (tidTrade ids) \<noteq> None)"
proof -
  obtain ids where ids: "tradeIDs g trade = Inr ids" using assms by (auto simp: settleBody_def split: sum.splits)
  let ?ins = "InsertTrade (tidTrade ids) (tradeRow g (trips d) ids trade)"
  obtain d1 r where q: "query g ?ins d = (d1, r)" by (metis surj_pair)
  show ?thesis
  proof (cases r)
    case (Inl err)
    then have u: "err = UniqueViolation" and "\<not> b"
      using assms by (auto simp: settleBody_def ids q split: db_error.splits)
    then have "?ins (tables d) = Inl UniqueViolation"
      using q Inl by (auto simp: query_def Let_def split: if_splits sum.splits prod.splits)
    with \<open>\<not> b\<close> show ?thesis using ids InsertTrade_unique by auto
  next
    case (Inr u)
    then have ins: "?ins (tables d) = Inr (tables d1, u)" using q by (auto simp: query_Inr)
    have "andThen (reflectTrade g ids trade) (\<lambda>_ d. (d, Inr True)) d1 = (d', Inr b)"
      using assms by (simp add: settleBody_def ids q Inr)
    then have "b" and "\<exists>v. reflectTrade g ids trade d1 = (d', Inr v)" by (auto simp: andThen_Inr)
    then show ?thesis using InsertTrade_Inr [OF ins] reflectTrade_Inr ids by (fastforce simp: settledBy_def)
  qed
qed

lemma settle_cases:
  assumes "settleTrade g d trade = (d', r)"
  shows "settledBy g trade (tables d) (tables d')
    \<or> tables d' = tables d \<and> (r = Inr () \<longrightarrow> (\<exists>ids. tradeIDs g trade = Inr ids \<and> tradesT (tables d) (tidTrade ids) \<noteq> None))"
proof -
  obtain d0 r0 where q: "query g (\<lambda>t. Inr (t, ())) d = (d0, r0)" by (metis surj_pair)
  show ?thesis
  proof (cases r0)
    case (Inl err)
    then show ?thesis using assms q query_Inl [of g "\<lambda>t. Inr (t, ())" d d0] by (auto simp: settleTrade_def run_def)
  next
    case (Inr u)
    then have d0: "tables d0 = tables d" using q by (auto simp: query_Inr)
    obtain d1 r1 where body: "settleBody g trade d0 = (d1, r1)" by (metis surj_pair)
    show ?thesis
    proof (cases r1)
      case (Inl err)
      then show ?thesis using assms by (auto simp: settleTrade_def run_def q Inr body)
    next
      case (Inr b)
      note sb = settleBody_Inr [OF body [unfolded Inr]]
      show ?thesis
        using assms sb d0 \<open>r0 = Inr u\<close>
        by (cases b) (auto simp: settleTrade_def run_def q body Inr Let_def split: if_splits)
    qed
  qed
qed

text \<open>
  C18. A settlement is all or nothing: whatever fails and wherever, the tables afterwards are either exactly
  the old ones or carry the whole settlement; and success means the trade is in the tables.
\<close>

theorem settlement_all_or_nothing:
  assumes "settleTrade g d trade = (d', r)"
  shows "settledBy g trade (tables d) (tables d')
    \<or> tables d' = tables d \<and> (r = Inr () \<longrightarrow> (\<exists>ids. tradeIDs g trade = Inr ids \<and> tradesT (tables d) (tidTrade ids) \<noteq> None))"
  using assms by (rule settle_cases)

theorem settlement_all_or_nothing_witness:
  "settledBy pg0 tradeA (tables db0) (tables (fst (settleTrade pg0 db0 tradeA)))"
proof -
  have "settleTrade pg0 db0 tradeA = (fst (settleTrade pg0 db0 tradeA), Inr ())"
    using settle_db0 by (simp add: prod_eq_iff)
  moreover have "tradeIDs pg0 tradeA = Inr ids \<Longrightarrow> tradesT (tables db0) (tidTrade ids) = None" for ids
    by (simp add: db0_def)
  ultimately show ?thesis using settlement_all_or_nothing [of pg0 db0 tradeA _ "Inr ()"] by force
qed



section \<open>Money and shares\<close>

lemma reflected_conserves:
  assumes "reflected g ids trade t t'" and "0 < tradeQuantity trade" and "int64 (tradeQuantity trade)"
    and "finite (dom (usersT t))" and "finite (dom (positionsT t))" and "usersT t (tidSeller ids) \<noteq> None"
  shows "msum userBalance (usersT t') = msum userBalance (usersT t)" "msum shares (positionsT t') = msum shares (positionsT t)"
    "finite (dom (usersT t'))" "finite (dom (positionsT t'))"
proof -
  let ?cash = "numericFromScaled (i64 (tradeQuantity trade * tradePrice trade))"
  have neg: "numericFromInt (i64 (- tradeQuantity trade)) = - numericFromInt (tradeQuantity trade)"
    using assms(2,3) by (simp add: numericFromInt_def int64_def)
  have u: "dom (usersT t') = dom (usersT t)" "tidBuyer ids \<in> dom (usersT t)" "tidSeller ids \<in> dom (usersT t)"
    "at_key userBalance (usersT t') i = at_key userBalance (usersT t) i
       + (if i = tidSeller ids then ?cash else 0) + (if i = tidBuyer ids then - ?cash else 0)" for i
    using reflectedD(2-4) [OF assms(1)] assms(6) by auto
  show "msum userBalance (usersT t') = msum userBalance (usersT t)"
    by (rule msum_transfer [where a = "tidSeller ids" and b = "tidBuyer ids" and c = ?cash]) (use u assms(4) in simp_all)
  have p: "dom (positionsT t') = dom (positionsT t) \<union> {(tidBuyer ids, tidEvent ids, tradeOutcome trade),
      (tidSeller ids, tidEvent ids, tradeOutcome trade)}"
    "at_key shares (positionsT t') k = at_key shares (positionsT t) k
       + (if k = (tidBuyer ids, tidEvent ids, tradeOutcome trade) then numericFromInt (tradeQuantity trade) else 0)
       + (if k = (tidSeller ids, tidEvent ids, tradeOutcome trade) then - numericFromInt (tradeQuantity trade) else 0)" for k
    using reflectedD(5,6) [OF assms(1)] by (simp_all only: neg)
  show "finite (dom (usersT t'))" "finite (dom (positionsT t'))" using u(1) p(1) assms(4,5) by simp_all
  show "msum shares (positionsT t') = msum shares (positionsT t)"
    by (rule msum_transfer [OF _ _ _ _ p(2)]) (use p(1) assms(5) in auto)
qed

text \<open>The seller's row exists: the insertion of the trade has checked its reference.\<close>

lemma settledBy_seller:
  assumes "settleTrade g d trade = (d', r)" and "tables d' \<noteq> tables d"
  shows "\<exists>ids. tradeIDs g trade = Inr ids \<and> usersT (tables d) (tidSeller ids) \<noteq> None"
proof -
  let ?d0 = "d\<lparr>trips := Suc (trips d)\<rparr>"
  have "\<exists>d1. settleBody g trade ?d0 = (d1, Inr True)"
    using assms by (auto simp: settleTrade_def run_def query_def Let_def split: prod.splits sum.splits bool.splits if_splits)
  then obtain d1 where body: "settleBody g trade ?d0 = (d1, Inr True)" by blast
  obtain ids d2 u where ids: "tradeIDs g trade = Inr ids"
    and "query g (InsertTrade (tidTrade ids) (tradeRow g (trips ?d0) ids trade)) ?d0 = (d2, Inr u)"
    using body by (auto simp: settleBody_def split: sum.splits prod.splits db_error.splits)
  then show ?thesis
    by (auto simp: query_Inr InsertTrade_def tradeRow_def split: if_splits)
qed

lemma tradeOfJson_int64: "tradeOfJson r = Some trade \<Longrightarrow> int64 (tradeQuantity trade) \<and> int64 (tradePrice trade)"
proof -
  have z: "int64 0" by (simp add: int64_def)
  show "tradeOfJson r = Some trade \<Longrightarrow> int64 (tradeQuantity trade) \<and> int64 (tradePrice trade)"
    by (auto simp: tradeOfJson_def bind_eq_Some_conv dest: field_decInt_int64 [OF _ z])
qed

lemma handler_frame:
  "handleOrderCreated g d env = (d', r) \<Longrightarrow>
     usersT (tables d') = usersT (tables d) \<and> positionsT (tables d') = positionsT (tables d)"
  "handleOrderCanceled g d env = (d', r) \<Longrightarrow>
     usersT (tables d') = usersT (tables d) \<and> positionsT (tables d') = positionsT (tables d)"
proof -
  have ins: "usersT (tables e) = usersT (tables d) \<and> positionsT (tables e) = positionsT (tables d)"
    if "query g (InsertOrder i row) d = (e, s)" for i row e s
    using that by (auto simp: query_def Let_def InsertOrder_def split: if_splits)
  have upd: "usersT (tables e) = usersT (tables d) \<and> positionsT (tables e) = positionsT (tables d)"
    if "query g (UpdateOrderStatus i st) d = (e, s)" for i st e s
    using that by (auto simp: query_def Let_def UpdateOrderStatus_def split: if_splits option.splits)
  show "handleOrderCreated g d env = (d', r) \<Longrightarrow>
     usersT (tables d') = usersT (tables d) \<and> positionsT (tables d') = positionsT (tables d)"
    using ins by (simp add: handleOrderCreated_def split: option.splits sum.splits prod.splits db_error.splits)
  show "handleOrderCanceled g d env = (d', r) \<Longrightarrow>
     usersT (tables d') = usersT (tables d) \<and> positionsT (tables d') = positionsT (tables d)"
    using upd by (simp add: handleOrderCanceled_def run_def split: option.splits sum.splits prod.splits)
qed

text \<open>What one envelope does to users and positions: nothing, unless it settles a valid trade.\<close>

lemma handleEnvelope_cases:
  assumes "handleEnvelope g get d env = (d', r)"
  obtains (other) "usersT (tables d') = usersT (tables d)" "positionsT (tables d') = positionsT (tables d)"
  | (settled) trade ids t1 where "tradeOfJson (envData env) = Some trade" "validateTrade trade = None"
      "usersT t1 = usersT (tables d)" "positionsT t1 = positionsT (tables d)" "reflected g ids trade t1 (tables d')"
      "usersT (tables d) (tidSeller ids) \<noteq> None"
proof (cases "\<exists>trade. envType env = EventTradeExecuted \<and> fencingDecisionOf get env = Inr fencingAccept
    \<and> tradeOfJson (envData env) = Some trade \<and> validateTrade trade = None \<and> tables d' \<noteq> tables d")
  case True
  then obtain trade where tr: "envType env = EventTradeExecuted" "fencingDecisionOf get env = Inr fencingAccept"
    "tradeOfJson (envData env) = Some trade" "validateTrade trade = None" "tables d' \<noteq> tables d" by blast
  then have st: "settleTrade g d trade = (d', r)"
    using assms by (simp add: handleEnvelope_def handleTradeExecuted_def)
  have "settledBy g trade (tables d) (tables d')" using settle_cases [OF st] tr(5) by blast
  then obtain ids n where ids: "tradeIDs g trade = Inr ids" "reflected g ids trade ((tables d)\<lparr>tradesT := (tradesT (tables d))
      (tidTrade ids \<mapsto> tradeRow g n ids trade)\<rparr>) (tables d')" by (auto simp: settledBy_def)
  then show thesis using settledBy_seller [OF st tr(5)] tr(3,4) by (intro settled [OF _ _ _ _ ids(2)]) auto
next
  case False
  show thesis
  proof (cases "tables d' = tables d")
    case True
    then show ?thesis by (intro other) simp_all
  next
    case ne: False
    then have acc: "fencingDecisionOf get env = Inr fencingAccept"
      using assms by (auto simp: handleEnvelope_def split: sum.splits fencingDecision.splits)
    have "envType env \<noteq> EventTradeExecuted"
      using False assms acc ne by (auto simp: handleEnvelope_def handleTradeExecuted_def split: option.splits)
    then consider "handleOrderCreated g d env = (d', r)" | "handleOrderCanceled g d env = (d', r)"
      using assms acc ne by (auto simp: handleEnvelope_def split: if_splits)
    then show ?thesis using handler_frame other by cases blast+
  qed
qed

lemma validateTrade_positive: "validateTrade trade = None \<Longrightarrow> 0 < tradeQuantity trade \<and> 0 \<le> tradePrice trade"
  by (auto simp: validateTrade_def split: if_splits)

lemma event_conserves:
  assumes "handleEnvelope g get d env = (d', r)" and "finite (dom (usersT (tables d)))" and "finite (dom (positionsT (tables d)))"
  shows "msum userBalance (usersT (tables d')) = msum userBalance (usersT (tables d))
    \<and> msum shares (positionsT (tables d')) = msum shares (positionsT (tables d))
    \<and> finite (dom (usersT (tables d'))) \<and> finite (dom (positionsT (tables d')))"
  using assms(1)
proof (cases rule: handleEnvelope_cases)
  case other
  then show ?thesis using assms(2,3) by simp
next
  case (settled trade ids t1)
  note q = validateTrade_positive [OF settled(2)] tradeOfJson_int64 [OF settled(1)]
  show ?thesis using reflected_conserves [OF settled(5)] q assms(2,3) settled(3,4,6) by simp
qed

text \<open>As long as the amount of the trade fits 64 bits.\<close>

definition amountFits :: "EventEnvelope \<Rightarrow> bool" where
  "amountFits env \<longleftrightarrow> (\<forall>trade. tradeOfJson (envData env) = Some trade \<longrightarrow> tradeQuantity trade * tradePrice trade < 2 ^ 63)"

definition solvent :: "Tables \<Rightarrow> bool" where
  "solvent t \<longleftrightarrow> (\<forall>i u. usersT t i = Some u \<longrightarrow> 0 \<le> userBalance u)"

lemma event_solvent:
  assumes "handleEnvelope g get d env = (d', r)" and "solvent (tables d)" and "amountFits env"
  shows "solvent (tables d')"
  using assms(1)
proof (cases rule: handleEnvelope_cases)
  case other
  then show ?thesis using assms(2) by (simp add: solvent_def)
next
  case (settled trade ids t1)
  let ?cash = "numericFromScaled (i64 (tradeQuantity trade * tradePrice trade))"
  have "0 \<le> tradeQuantity trade * tradePrice trade" "tradeQuantity trade * tradePrice trade < 2 ^ 63"
    using validateTrade_positive [OF settled(2)] assms(3) settled(1) by (auto simp: amountFits_def)
  then have c: "0 \<le> ?cash" by (simp add: numericFromScaled_def int64_def)
  obtain b where b: "usersT (tables d) (tidBuyer ids) = Some b" "?cash \<le> userBalance b"
    using settled(3) reflectedD(2) [OF settled(5)] by auto
  have at: "at_key userBalance (usersT (tables d')) i = at_key userBalance (usersT (tables d)) i
      - (if i = tidBuyer ids then ?cash else 0) + (if i = tidSeller ids then ?cash else 0)" for i
    using settled(3,6) reflectedD(4) [OF settled(5), of i] by auto
  have "0 \<le> at_key userBalance (usersT (tables d)) i" for i
    using assms(2) by (auto simp: at_key_def solvent_def split: option.split)
  then have "0 \<le> at_key userBalance (usersT (tables d')) i" for i
    using at [of i] b c by (cases "i = tidBuyer ids") (simp_all add: add_increasing)
  then show ?thesis unfolding solvent_def by (metis at_key_simps(2))
qed

section \<open>The worker's loop\<close>

definition each_event :: "(EventEnvelope \<Rightarrow> bool) \<Rightarrow> (string \<times> raw) list \<Rightarrow> bool" where
  "each_event P = list_all (\<lambda>(i, raw). case envelopeOfJson raw of None \<Rightarrow> True | Some env \<Rightarrow> P env)"

lemma each_event_True [simp]: "each_event (\<lambda>_. True) entries"
  by (simp add: each_event_def list_all_iff split: option.split)

text \<open>What the handler of one event keeps, for the events that satisfy \<open>P\<close>, every run of the worker keeps.\<close>

locale worker_invariant =
  fixes g :: Pg and I :: "Tables \<Rightarrow> bool" and P :: "EventEnvelope \<Rightarrow> bool"
  assumes event_keeps: "I (tables d) \<Longrightarrow> P env \<Longrightarrow> handleEnvelope g get d env = (d', r) \<Longrightarrow> I (tables d')"
begin

lemma processEvent_keeps:
  assumes "I (tables d)" and "\<And>env. envelopeOfJson raw = Some env \<Longrightarrow> P env"
  shows "I (tables (fst (processEvent g get ackErr d raw)))"
proof (cases "envelopeOfJson raw")
  case None
  then show ?thesis using assms(1) by (simp add: processEvent_def)
next
  case (Some env)
  obtain d1 r where "handleEnvelope g get d env = (d1, r)" by fastforce
  then show ?thesis using Some event_keeps [OF assms(1) assms(2) [OF Some]]
    by (cases r) (simp_all add: processEvent_def)
qed

lemma processBatch_keeps: "I (tables d) \<Longrightarrow> each_event P entries \<Longrightarrow> I (tables (fst (processBatch g get ackErr d entries)))"
proof (induction entries arbitrary: d)
  case (Cons entry entries)
  obtain i raw where x: "entry = (i, raw)" by fastforce
  obtain d1 r b where p: "processEvent g (get i) (ackErr i) d raw = (d1, r, b)" by (metis prod_cases3)
  have e: "each_event P entries" "\<And>env. envelopeOfJson raw = Some env \<Longrightarrow> P env" using Cons.prems(2) by (simp_all add: each_event_def x)
  have "I (tables d1)" using processEvent_keeps [OF Cons.prems(1) e(2), of raw "get i" "ackErr i"] p by simp
  then have "I (tables (fst (processBatch g get ackErr d1 entries)))" using Cons.IH e(1) by blast
  then show ?case using \<open>I (tables d1)\<close> by (cases r) (simp_all add: x p case_prod_beta)
qed simp

lemma Run_keeps:
  assumes "I (tables d)" and "each_event P (claimed @ delivered reads)" and "Run g get ackErr d groupErr claimed reads = (d', acked, r)"
  shows "I (tables d')"
proof (cases "ensureGroup groupErr")
  case None
  from processBatch_keeps [OF assms(1,2), of get ackErr] assms(3) show ?thesis by (simp add: Run_delivered [OF None])
next
  case (Some err)
  then show ?thesis using assms(1,3) by (simp add: Run_def)
qed

end

definition holds :: "numeric \<Rightarrow> numeric \<Rightarrow> Tables \<Rightarrow> bool" where
  "holds cash sh t \<longleftrightarrow> finite (dom (usersT t)) \<and> finite (dom (positionsT t))
     \<and> msum userBalance (usersT t) = cash \<and> msum shares (positionsT t) = sh"

interpretation conserved: worker_invariant g "holds cash sh" "\<lambda>_. True" for g cash sh
  by unfold_locales (use event_conserves in \<open>auto simp: holds_def\<close>)

interpretation backed: worker_invariant g solvent amountFits for g
  by unfold_locales (rule event_solvent)

text \<open>
  C20. Whatever entries the worker reclaims and reads, in whatever batches, and however its run ends, the
  sum of all cash balances and the sum of all share positions in the database stay the same.
\<close>

theorem worker_conserves:
  assumes "Run g get ackErr d groupErr claimed reads = (d', acked, r)"
    and "finite (dom (usersT (tables d)))" and "finite (dom (positionsT (tables d)))"
  shows "msum userBalance (usersT (tables d')) = msum userBalance (usersT (tables d))
    \<and> msum shares (positionsT (tables d')) = msum shares (positionsT (tables d))"
  using conserved.Run_keeps [OF _ _ assms(1)] assms(2,3) by (simp add: holds_def)

definition reads1 :: "(string \<times> raw) list Read list" where
  "reads1 = [ReadError, Batch [(''1-0'', Some (envelopeToJson (tradeEnv 1 tradeA)))]]"

lemma tradeEnv_json: "envelopeOfJson (Some (envelopeToJson (tradeEnv tok tradeA))) = Some (tradeEnv tok tradeA)"
  by (rule envelope_json_roundtrip) (simp_all add: tradeEnv_def NewEnvelope_def int64_def)

lemma run_db0: "Run pg0 (\<lambda>_. noToken) (\<lambda>_. False) db0 None [] reads1 =
    (fst (handleEnvelope pg0 noToken db0 (tradeEnv 1 tradeA)), [''1-0''], Inr ())"
proof -
  obtain d1 where "handleEnvelope pg0 noToken db0 (tradeEnv 1 tradeA) = (d1, Inr ())" using handle_db0 by (metis prod.collapse)
  then show ?thesis by (simp add: Run_def ensureGroup_def reads1_def processEvent_def tradeEnv_json)
qed

theorem worker_conserves_witness:
  "fst (snd (Run pg0 (\<lambda>_. noToken) (\<lambda>_. False) db0 None [] reads1)) = [''1-0'']
   \<and> msum userBalance (usersT (tables (fst (Run pg0 (\<lambda>_. noToken) (\<lambda>_. False) db0 None [] reads1)))) = msum userBalance (usersT (tables db0))"
  using worker_conserves [OF run_db0 db0_finite] by (simp add: run_db0)

text \<open>
  C21. As long as the amount of every trade it is handed fits 64 bits, no run of the worker makes a balance in
  the database negative.
\<close>

theorem worker_balances_nonneg:
  assumes "Run g get ackErr d groupErr claimed reads = (d', acked, r)" and "solvent (tables d)"
    and "each_event amountFits (claimed @ delivered reads)"
  shows "solvent (tables d')"
  using backed.Run_keeps [OF assms(2,3,1)] .

theorem worker_balances_nonneg_witness:
  "solvent (tables db0) \<and> solvent (tables (fst (Run pg0 (\<lambda>_. noToken) (\<lambda>_. False) db0 None [] reads1)))"
proof -
  have s: "solvent (tables db0)" by (auto simp: solvent_def db0_def user0_def startingBalance_def)
  have "each_event amountFits ([] @ delivered reads1)"
    by (simp add: each_event_def reads1_def tradeEnv_json tradeEnv_decodes amountFits_def) (simp add: tradeA_def)
  from worker_balances_nonneg [OF run_db0 s this] s show ?thesis by (simp add: run_db0)
qed

section \<open>Orders\<close>

text \<open>
  The status a fill leaves on an order row agrees with its quantities: FILLED exactly when the filled
  quantity has reached the ordered one, and then nothing remains. It relies on \<^verbatim>\<open>pgx\<close> converting
  whole-share columns below \<open>2 ^ 53\<close> exactly.
\<close>

theorem fill_status_agrees:
  assumes exact: "\<forall>n. \<bar>n\<bar> \<le> 2 ^ 53 \<longrightarrow> Float64Int g (numericFromInt n) = n"
    and "rowFilled r = numericFromInt f" and "rowQuantity r = numericFromInt q"
    and "0 \<le> f" and "f \<le> 2 ^ 52" and "0 < n" and "n \<le> 2 ^ 52" and "0 < q" and "q \<le> 2 ^ 53"
    and "ordersT (tables d) i = Some r" and "applyOrderFill g i n d = (d', Inr ())"
  shows "\<exists>r'. ordersT (tables d') i = Some r' \<and> rowFilled r' = numericFromInt (f + n)
    \<and> rowRemaining r' = numericFromInt (max (q - (f + n)) 0)
    \<and> (rowStatus r' = StatusFilled \<longleftrightarrow> q \<le> f + n) \<and> (rowStatus r' = StatusFilled \<longleftrightarrow> rowRemaining r' = 0)
    \<and> (rowStatus r' \<noteq> StatusFilled \<longrightarrow> rowStatus r' = StatusPartial)"
proof -
  have c: "Float64Int g (numericFromInt f) = f" "Float64Int g (numericFromInt q) = q"
    using exact assms(4-9) by simp_all
  have i: "i64 (f + n) = f + n" using assms(4-7) by (simp add: int64_def)
  have a: "numericFromInt f + numericFromInt n = numericFromInt (f + n)"
    "max (numericFromInt q - numericFromInt (f + n)) 0 = numericFromInt (max (q - (f + n)) 0)"
    by (simp_all add: numericFromInt_def max_def)
  have "ordersT (tables d') i = Some (filledRow g n r)"
    using applyOrderFill_Inr [OF assms(11)] assms(10) by auto
  moreover have "filledRow g n r = r\<lparr>rowFilled := numericFromInt (f + n), rowRemaining := numericFromInt (max (q - (f + n)) 0),
      rowStatus := (if q \<le> f + n then StatusFilled else StatusPartial)\<rparr>"
    by (simp add: filledRow_def numericToInt64_def assms(2,3) c i a)
  moreover have "numericFromInt (max (q - (f + n)) 0) = 0 \<longleftrightarrow> q \<le> f + n" by (simp add: numericFromInt_def max_def)
  ultimately show ?thesis by simp
qed

theorem fill_status_agrees_witness:
  "\<exists>r'. ordersT (tables (fst (applyOrderFill pg0 ''2'' 3 db0))) ''2'' = Some r' \<and> rowStatus r' = StatusFilled"
proof -
  have ok: "snd (applyOrderFill pg0 ''2'' 3 db0) = Inr ()" by code_simp
  have "\<forall>n. \<bar>n\<bar> \<le> 2 ^ 53 \<longrightarrow> Float64Int pg0 (numericFromInt n) = n" by (simp add: pg0_def numericFromInt_def)
  from fill_status_agrees [OF this, of "order0 ''b'' SideBuy 3 12" 0 3 3 db0 "''2''"] ok show ?thesis
    by (auto simp: order0_def numericFromInt_def db0_def prod_eq_iff)
qed

text \<open>
  Redelivery of an order's creation never touches the row that is there, whatever has happened to the
  order since.
\<close>

theorem order_creation_once:
  assumes "handleOrderCreated g d env = (d1, Inr ())"
    and "orderOfJson (envData env) = Some order" and "ParseUUID g (ID order) = Some i"
    and "handleOrderCreated (g\<lparr>Fault := f'\<rparr>) d2 env = (d3, r)"
  shows "ordersT (tables d1) i \<noteq> None \<and> (ordersT (tables d2) i \<noteq> None \<longrightarrow> tables d3 = tables d2)"
proof -
  obtain eid uid where p: "ParseUUID g (EventID order) = Some eid" "ParseUUID g (UserID order) = Some uid"
    using assms(1-3) by (auto simp: handleOrderCreated_def parseID_def split: option.splits)
  let ?row = "orderRow eid uid order"
  obtain e s where q: "query g (InsertOrder i ?row) d = (e, s)" by (metis surj_pair)
  have "e = d1 \<and> (s = Inl UniqueViolation \<or> s = Inr ())"
    using assms(1) by (auto simp: handleOrderCreated_def assms(2,3) parseID_def p q split: sum.splits db_error.splits)
  then have "ordersT (tables d1) i \<noteq> None"
    using q by (auto simp: query_def Let_def InsertOrder_def split: if_splits)
  moreover have "query (g\<lparr>Fault := f'\<rparr>) (InsertOrder i ?row) d2 = (e', s') \<Longrightarrow> ordersT (tables d2) i \<noteq> None \<Longrightarrow>
      tables e' = tables d2" for e' s'
    by (auto simp: query_def Let_def InsertOrder_def split: if_splits)
  then have "ordersT (tables d2) i \<noteq> None \<Longrightarrow> tables d3 = tables d2"
    using assms(4)
    by (auto simp: handleOrderCreated_def assms(2,3) parseID_def p split: sum.splits prod.splits db_error.splits)
  ultimately show ?thesis by simp
qed

definition orderA :: Order where
  "orderA = \<lparr>ID = ''3'', EventID = ''e'', UserID = ''b'', OrderType = OrderTypeLimit, Outcome = OutcomeYes, Side = SideBuy,
     Quantity = 4, FilledQuantity = 0, RemainingQuantity = 4, Price = 7, Status = StatusPending, LockedFunds = 0, CreatedAt = 0\<rparr>"

definition orderEnv :: EventEnvelope where
  "orderEnv = NewEnvelope ''x'' 0 EventOrderCreated (orderToJson orderA) 0 1 1"

theorem order_creation_once_witness:
  "ordersT (tables (fst (handleOrderCreated pg0 db0 orderEnv))) ''3'' \<noteq> None
   \<and> tables (fst (handleOrderCreated pg0 (fst (handleOrderCreated pg0 db0 orderEnv)) orderEnv))
     = tables (fst (handleOrderCreated pg0 db0 orderEnv))"
proof -
  have "snd (handleOrderCreated pg0 db0 orderEnv) = Inr ()" by code_simp
  then have ok: "handleOrderCreated pg0 db0 orderEnv = (fst (handleOrderCreated pg0 db0 orderEnv), Inr ())"
    by (simp add: prod_eq_iff)
  have dec: "orderOfJson (envData orderEnv) = Some orderA"
    by (simp add: orderEnv_def NewEnvelope_def order_json_roundtrip orderA_def int64_def)
  have id: "ParseUUID pg0 (ID orderA) = Some ''3''" by (simp add: pg0_def orderA_def)
  have "pg0\<lparr>Fault := \<lambda>_. False\<rparr> = pg0" by (simp add: pg0_def)
  then show ?thesis
    using order_creation_once [OF ok dec id, of "\<lambda>_. False" "fst (handleOrderCreated pg0 db0 orderEnv)"]
    by (metis prod.collapse)
qed

section \<open>Fencing and poison records\<close>



lemma processBatch_stop:
  assumes "envelopeOfJson rawEvent = None" and "processBatch g get ackErr d pre = (d1, acked, r)"
  shows "\<exists>err. processBatch g get ackErr d (pre @ (i, rawEvent) # post) = (d1, acked, Inl err)"
  using assms(2)
proof (induction pre arbitrary: d d1 acked r)
  case Nil
  then show ?case by (auto simp: processEvent_def assms(1))
next
  case (Cons x pre)
  obtain e ev where x: "x = (e, ev)" by fastforce
  obtain d2 s a where p: "processEvent g (get e) (ackErr e) d ev = (d2, s, a)" by (metis surj_pair)
  show ?case
  proof (cases s)
    case (Inl err)
    then show ?thesis using Cons.prems by (auto simp: x p)
  next
    case (Inr u)
    obtain d3 acked' r' where b: "processBatch g get ackErr d2 pre = (d3, acked', r')" by (metis surj_pair)
    then show ?thesis using Cons.IH [OF b] Cons.prems by (auto simp: x p Inr)
  qed
qed

text \<open>
  A record the worker cannot decode stops it: nothing at or behind the record is ever acknowledged or
  applied, on this run and on every run that meets it again.
\<close>

theorem poison_record_blocks:
  assumes "envelopeOfJson rawEvent = None"
  shows "\<exists>err. processBatch g get ackErr d (pre @ (i, rawEvent) # post) =
    (fst (processBatch g get ackErr d pre), fst (snd (processBatch g get ackErr d pre)), Inl err)"
  using processBatch_stop [OF assms, of g get ackErr d pre] by (metis prod.collapse)

theorem poison_record_blocks_witness:
  "\<exists>err. processBatch pg0 (\<lambda>_. noToken) (\<lambda>_. False) db0 [(''1-0'', Some (JStr ''junk'')), (''2-0'', Some (envelopeToJson (tradeEnv 1 tradeA)))] =
    (db0, [], Inl err)"
  using poison_record_blocks [of "Some (JStr ''junk'')" pg0 "\<lambda>_. noToken" "\<lambda>_. False" db0 "[]" "''1-0''"]
  by (simp add: envelopeOfJson_def unmarshalObj_def)

section \<open>Where the worker goes wrong\<close>

text \<open>
  The ledger entry of the buyer always names the taker's order and the one of the seller the maker's, even
  when the taker is the seller: then each entry points to the other party's order.
\<close>

theorem ledger_names_taker_order:
  assumes "settleTrade g d trade = (d', r)" and "tables d' \<noteq> tables d"
  shows "\<exists>ids buy sell. tradeIDs g trade = Inr ids \<and> transactionsT (tables d') = transactionsT (tables d) @ [buy, sell]
    \<and> txType buy = ''BUY'' \<and> txUserID buy = tidBuyer ids \<and> txOrderID buy = tidTaker ids
    \<and> txType sell = ''SELL'' \<and> txUserID sell = tidSeller ids \<and> txOrderID sell = tidMaker ids"
proof -
  obtain ids n where "tradeIDs g trade = Inr ids" and "reflected g ids trade ((tables d)\<lparr>tradesT := (tradesT (tables d))
      (tidTrade ids \<mapsto> tradeRow g n ids trade)\<rparr>) (tables d')"
    using settle_cases [OF assms(1)] assms(2) by (auto simp: settledBy_def)
  then show ?thesis using reflectedD(7) by (fastforce simp: ledgerRow_def)
qed

theorem ledger_names_taker_order_witness:
  "\<exists>buy sell. transactionsT (tables (fst (settleTrade pg0 db0 (tradeA\<lparr>OrderID := ''1'', MatchOrderID := ''2'', TakerSide := SideSell\<rparr>))))
     = [buy, sell] \<and> txUserID buy = ''b'' \<and> txOrderID buy = ''1'' \<and> map_option rowUserID (ordersT (tables db0) ''1'') = Some ''s''"
proof -
  let ?t = "tradeA\<lparr>OrderID := ''1'', MatchOrderID := ''2'', TakerSide := SideSell\<rparr>"
  have "tradesT (tables (fst (settleTrade pg0 db0 ?t))) ''t'' \<noteq> None" by code_simp
  then have "tables (fst (settleTrade pg0 db0 ?t)) \<noteq> tables db0" by (auto simp: db0_def)
  from ledger_names_taker_order [OF prod.collapse [symmetric] this] show ?thesis
    by (auto simp: tradeIDs_def parseID_def pg0_def tradeA_def db0_def order0_def)
qed



end
