(* ===== verification/Redis.thy ===== *)
theory Redis
  imports Prelude
begin

text \<open>
  Redis as the services see it: the commands on keys as a parameter \<open>RedisApi\<close> over an abstract server
  state, with their documented behaviour as \<open>redis_laws\<close>, and the three ways a call can end.
\<close>

section \<open>Redis as a parameter\<close>

record 'r RedisApi =
  SetNX :: "string \<Rightarrow> string \<Rightarrow> int \<Rightarrow> 'r \<Rightarrow> 'r \<times> bool"
  GetStr :: "string \<Rightarrow> 'r \<Rightarrow> string option"
  PExpire :: "string \<Rightarrow> int \<Rightarrow> 'r \<Rightarrow> 'r"
  Del :: "string \<Rightarrow> 'r \<Rightarrow> 'r"
  Incr :: "string \<Rightarrow> 'r \<Rightarrow> 'r \<times> u64"
  GetUint :: "string \<Rightarrow> 'r \<Rightarrow> u64 option"
  Elapse :: "int \<Rightarrow> 'r \<Rightarrow> 'r"

type_synonym 'r live = "'r \<Rightarrow> string \<Rightarrow> (string \<times> int) option"
type_synonym 'r counter = "'r \<Rightarrow> string \<Rightarrow> nat"

text \<open>
  \<^verbatim>\<open>SET NX PX\<close> stores only when the key is absent, \<^verbatim>\<open>PEXPIRE\<close> resets the time to live of a present key,
  \<^verbatim>\<open>DEL\<close> removes it, time removes keys whose time has run out; \<^verbatim>\<open>INCR\<close> adds one to a counter, which is
  absent before the first time.
\<close>

definition redis_laws :: "'r RedisApi \<Rightarrow> 'r live \<Rightarrow> 'r counter \<Rightarrow> bool" where
  "redis_laws api live cnt \<longleftrightarrow>
     (\<forall>r k v t. snd (SetNX api k v t r) = (live r k = None)
        \<and> live (fst (SetNX api k v t r)) = (if live r k = None then (live r)(k \<mapsto> (v, t)) else live r)
        \<and> cnt (fst (SetNX api k v t r)) = cnt r)
     \<and> (\<forall>r k. GetStr api k r = map_option fst (live r k))
     \<and> (\<forall>r k t. live (PExpire api k t r) = (case live r k of None \<Rightarrow> live r | Some (v, _) \<Rightarrow> (live r)(k \<mapsto> (v, t)))
        \<and> cnt (PExpire api k t r) = cnt r)
     \<and> (\<forall>r k. live (Del api k r) = (live r)(k := None) \<and> cnt (Del api k r) = cnt r)
     \<and> (\<forall>r k. snd (Incr api k r) = word_of_nat (Suc (cnt r k)) \<and> cnt (fst (Incr api k r)) = (cnt r)(k := Suc (cnt r k))
        \<and> live (fst (Incr api k r)) = live r)
     \<and> (\<forall>r k. GetUint api k r = (if cnt r k = 0 then None else Some (word_of_nat (cnt r k))))
     \<and> (\<forall>r d. live (Elapse api d r) = (\<lambda>k. case live r k of None \<Rightarrow> None
          | Some (v, t) \<Rightarrow> if d < t then Some (v, t - d) else None) \<and> cnt (Elapse api d r) = cnt r)"

datatype Call = Answered | Failed | AnswerLost

definition call :: "Call \<Rightarrow> ('r \<Rightarrow> 'r \<times> 'a) \<Rightarrow> 'r \<Rightarrow> 'r \<times> (unit + 'a)" where
  "call c f r = (case c of
       Answered \<Rightarrow> (case f r of (r', a) \<Rightarrow> (r', Inr a))
     | Failed \<Rightarrow> (r, Inl ())
     | AnswerLost \<Rightarrow> (fst (f r), Inl ()))"

end
