(* ===== verification/Lease.thy ===== *)
theory Lease
  imports Redis Partition Transition
begin

text \<open>
  Partition ownership: \<^verbatim>\<open>internal/partition/lease.go\<close>, \<^verbatim>\<open>fencing.go\<close> and the ownership loop of
  \<^verbatim>\<open>internal/engine/worker.go\<close>, over Redis as a parameter. Durations are milliseconds.
\<close>

section \<open>Leases and tokens\<close>

record Lease =
  leaseKey :: string
  instanceID :: string
  leaseTtl :: int

definition Acquire :: "'r RedisApi \<Rightarrow> Lease \<Rightarrow> Call \<Rightarrow> 'r \<Rightarrow> 'r \<times> (unit + bool)" where
  "Acquire api l c = call c (SetNX api (leaseKey l) (instanceID l) (leaseTtl l))"

text \<open>The two Lua scripts run atomically on the server.\<close>

definition compareAndRenew :: "'r RedisApi \<Rightarrow> Lease \<Rightarrow> 'r \<Rightarrow> 'r \<times> int" where
  "compareAndRenew api l r =
     (if GetStr api (leaseKey l) r = Some (instanceID l) then (PExpire api (leaseKey l) (leaseTtl l) r, 1) else (r, 0))"

definition Renew :: "'r RedisApi \<Rightarrow> Lease \<Rightarrow> Call \<Rightarrow> 'r \<Rightarrow> 'r \<times> (unit + bool)" where
  "Renew api l c r = (case call c (compareAndRenew api l) r of (r, n) \<Rightarrow> (r, map_sum id (\<lambda>n. n = 1) n))"

definition compareAndRelease :: "'r RedisApi \<Rightarrow> Lease \<Rightarrow> 'r \<Rightarrow> 'r \<times> int" where
  "compareAndRelease api l r =
     (if GetStr api (leaseKey l) r = Some (instanceID l) then (Del api (leaseKey l) r, 1) else (r, 0))"

definition Release :: "'r RedisApi \<Rightarrow> Lease \<Rightarrow> Call \<Rightarrow> 'r \<Rightarrow> 'r" where
  "Release api l c r = fst (call c (compareAndRelease api l) r)"

definition Next :: "'r RedisApi \<Rightarrow> string \<Rightarrow> Call \<Rightarrow> 'r \<Rightarrow> 'r \<times> (unit + u64)" where
  "Next api key c = call c (Incr api key)"

text \<open>A missing key reads as zero.\<close>

definition Current :: "'r RedisApi \<Rightarrow> string \<Rightarrow> Call \<Rightarrow> 'r \<Rightarrow> unit + u64" where
  "Current api key c r = snd (call c (\<lambda>r. (r, case GetUint api key r of None \<Rightarrow> 0 | Some n \<Rightarrow> n)) r)"

section \<open>The ownership loop\<close>

text \<open>
  The stages of one engine's \<^verbatim>\<open>runPartition\<close>: competing for the lease, holding it without a token,
  consuming with a token (\<open>True\<close> once the partition context is canceled, by \<^verbatim>\<open>renewLease\<close> or by a
  shutdown), returned. Several engines compete; \<open>down\<close> says whose engine context is canceled and
  \<open>issued\<close> records the tokens handed out, oldest first.
\<close>

datatype Phase = Competing | Holding | Consuming u64 bool | Stopped

record 'r Cluster =
  server :: 'r
  phase :: "string \<Rightarrow> Phase"
  down :: "string \<Rightarrow> bool"
  issued :: "(string \<times> u64) list"

definition leaseOf :: "int \<Rightarrow> int \<Rightarrow> string \<Rightarrow> Lease" where
  "leaseOf partitionID ttl engineID = \<lparr>leaseKey = LeaseKey partitionID, instanceID = engineID, leaseTtl = ttl\<rparr>"

datatype Own = TryAcquire string Call | Token string Call | RenewTick string Call
  | Shutdown string | Cancel string | Leave string Call | Exit string | Time int

text \<open>
  \<open>TryAcquire\<close> and \<open>Token\<close> are the two calls at the head of the loop (the latter with the release after a token
  error, which a shutdown skips), \<open>RenewTick\<close> one tick of \<^verbatim>\<open>renewLease\<close>, \<open>Shutdown\<close> the end of the engine's
  context, \<open>Cancel\<close> its effect on the partition's context, \<open>Leave\<close> the release after \<^verbatim>\<open>consumeMessages\<close>,
  \<open>Exit\<close> the end of the loop.
\<close>

inductive own :: "'r RedisApi \<Rightarrow> int \<Rightarrow> int \<Rightarrow> 'r Cluster \<Rightarrow> Own \<Rightarrow> 'r Cluster \<Rightarrow> bool" for api p ttl where
  acquired: "phase s i = Competing \<Longrightarrow> \<not> down s i \<Longrightarrow> Acquire api (leaseOf p ttl i) c (server s) = (r, Inr True) \<Longrightarrow>
    own api p ttl s (TryAcquire i c) (s\<lparr>server := r, phase := (phase s)(i := Holding)\<rparr>)"
| not_acquired: "phase s i = Competing \<Longrightarrow> \<not> down s i \<Longrightarrow> Acquire api (leaseOf p ttl i) c (server s) = (r, a) \<Longrightarrow>
    a \<noteq> Inr True \<Longrightarrow> own api p ttl s (TryAcquire i c) (s\<lparr>server := r\<rparr>)"
| token: "phase s i = Holding \<Longrightarrow> Next api (FencingKey p) c (server s) = (r, Inr n) \<Longrightarrow>
    own api p ttl s (Token i c) (s\<lparr>server := r, phase := (phase s)(i := Consuming n False), issued := issued s @ [(i, n)]\<rparr>)"
| give_up: "phase s i = Holding \<Longrightarrow> \<not> down s i \<Longrightarrow> Next api (FencingKey p) c (server s) = (r, Inl ()) \<Longrightarrow>
    own api p ttl s (Token i c) (s\<lparr>server := Release api (leaseOf p ttl i) c' r, phase := (phase s)(i := Competing)\<rparr>)"
| token_down: "phase s i = Holding \<Longrightarrow> down s i \<Longrightarrow> Next api (FencingKey p) c (server s) = (r, Inl ()) \<Longrightarrow>
    own api p ttl s (Token i c) (s\<lparr>server := r, phase := (phase s)(i := Stopped)\<rparr>)"
| renewed: "phase s i = Consuming n False \<Longrightarrow> Renew api (leaseOf p ttl i) c (server s) = (r, a) \<Longrightarrow> a \<noteq> Inr False \<Longrightarrow>
    own api p ttl s (RenewTick i c) (s\<lparr>server := r\<rparr>)"
| lost: "phase s i = Consuming n False \<Longrightarrow> Renew api (leaseOf p ttl i) c (server s) = (r, Inr False) \<Longrightarrow>
    own api p ttl s (RenewTick i c) (s\<lparr>server := r, phase := (phase s)(i := Consuming n True)\<rparr>)"
| shutdown: "own api p ttl s (Shutdown i) (s\<lparr>down := (down s)(i := True)\<rparr>)"
| cancel: "phase s i = Consuming n False \<Longrightarrow> down s i \<Longrightarrow>
    own api p ttl s (Cancel i) (s\<lparr>phase := (phase s)(i := Consuming n True)\<rparr>)"
| leave: "phase s i = Consuming n True \<Longrightarrow>
    own api p ttl s (Leave i c) (s\<lparr>server := Release api (leaseOf p ttl i) c (server s), phase := (phase s)(i := Competing)\<rparr>)"
| exit: "phase s i = Competing \<Longrightarrow> down s i \<Longrightarrow> own api p ttl s (Exit i) (s\<lparr>phase := (phase s)(i := Stopped)\<rparr>)"
| time: "0 \<le> d \<Longrightarrow> own api p ttl s (Time d) (s\<lparr>server := Elapse api d (server s)\<rparr>)"

end
