(* ===== verification/Lease_Props.thy ===== *)
theory Lease_Props
  imports Lease DB_Scenario
begin

text \<open>
  Ownership of a partition: a lease is lost only by its holder or by time, tokens strictly increase,
  and an event stamped with a superseded token never passes the fence of the DB worker.
\<close>

section \<open>The server under the calls of the code\<close>

lemma laws:
  assumes "redis_laws api live cnt"
  shows "snd (SetNX api k v t r) = (live r k = None)"
    "live (fst (SetNX api k v t r)) = (if live r k = None then (live r)(k \<mapsto> (v, t)) else live r)"
    "cnt (fst (SetNX api k v t r)) = cnt r"
    "GetStr api k r = map_option fst (live r k)"
    "live (PExpire api k t r) = (case live r k of None \<Rightarrow> live r | Some (v, _) \<Rightarrow> (live r)(k \<mapsto> (v, t)))"
    "cnt (PExpire api k t r) = cnt r"
    "live (Del api k r) = (live r)(k := None)" "cnt (Del api k r) = cnt r"
    "snd (Incr api k r) = word_of_nat (Suc (cnt r k))" "cnt (fst (Incr api k r)) = (cnt r)(k := Suc (cnt r k))"
    "live (fst (Incr api k r)) = live r"
    "GetUint api k r = (if cnt r k = 0 then None else Some (word_of_nat (cnt r k)))"
    "live (Elapse api d r) = (\<lambda>k. case live r k of None \<Rightarrow> None | Some (v, t) \<Rightarrow> if d < t then Some (v, t - d) else None)"
    "cnt (Elapse api d r) = cnt r"
  using assms unfolding redis_laws_def by blast+

lemma call_fst: "fst (call c f r) \<in> {r, fst (f r)}"
  by (cases c) (simp_all add: call_def split: prod.split)

lemma call_Inr: "call c f r = (r', Inr a) \<Longrightarrow> f r = (r', a)"
  by (cases c) (auto simp: call_def split: prod.splits)

lemma lease_calls_cnt:
  assumes "redis_laws api live cnt"
  shows "cnt (fst (Acquire api l c r)) = cnt r" "cnt (fst (Renew api l c r)) = cnt r" "cnt (Release api l c r) = cnt r"
proof -
  note L = laws [OF assms]
  show "cnt (fst (Acquire api l c r)) = cnt r"
    using call_fst [of c "SetNX api (leaseKey l) (instanceID l) (leaseTtl l)" r] by (auto simp: Acquire_def L(3))
  show "cnt (fst (Renew api l c r)) = cnt r"
    using call_fst [of c "compareAndRenew api l" r]
    by (auto simp: Renew_def compareAndRenew_def L(6) case_prod_beta split: if_splits)
  show "cnt (Release api l c r) = cnt r"
    using call_fst [of c "compareAndRelease api l" r] by (auto simp: Release_def compareAndRelease_def L(8) split: if_splits)
qed

text \<open>None of an engine's calls touches a lease that another engine holds.\<close>

lemma foreign_lease:
  assumes "redis_laws api live cnt" and "live r k = Some (j, t)" and "j \<noteq> instanceID l" and "leaseKey l = k"
  shows "live (fst (Acquire api l c r)) = live r" "snd (Acquire api l c r) \<noteq> Inr True"
    "live (fst (Renew api l c r)) = live r" "live (Release api l c r) = live r"
proof -
  note L = laws [OF assms(1)]
  have other: "GetStr api (leaseKey l) r \<noteq> Some (instanceID l)" using assms(2-4) by (simp add: L(4))
  show "live (fst (Acquire api l c r)) = live r"
    using call_fst [of c "SetNX api (leaseKey l) (instanceID l) (leaseTtl l)" r] assms(2,4) by (auto simp: Acquire_def L(2))
  show "snd (Acquire api l c r) \<noteq> Inr True"
  proof
    assume "snd (Acquire api l c r) = Inr True"
    then have "SetNX api (leaseKey l) (instanceID l) (leaseTtl l) r = (fst (Acquire api l c r), True)"
      using call_Inr [of c _ r] by (metis Acquire_def prod.collapse)
    then show False using L(1) [of "leaseKey l" "instanceID l" "leaseTtl l" r] assms(2,4) by simp
  qed
  show "live (fst (Renew api l c r)) = live r"
    using call_fst [of c "compareAndRenew api l" r] other by (auto simp: Renew_def compareAndRenew_def case_prod_beta)
  show "live (Release api l c r) = live r"
    using call_fst [of c "compareAndRelease api l" r] other by (auto simp: Release_def compareAndRelease_def)
qed

lemma Next_facts:
  assumes "redis_laws api live cnt" and "Next api k c r = (r', a)"
  shows "live r' = live r" "cnt r' \<in> {cnt r, (cnt r)(k := Suc (cnt r k))}"
    "a = Inr n \<Longrightarrow> n = word_of_nat (Suc (cnt r k)) \<and> cnt r' = (cnt r)(k := Suc (cnt r k))"
proof -
  note L = laws [OF assms(1)]
  have r': "r' \<in> {r, fst (Incr api k r)}" using call_fst [of c "Incr api k" r] assms(2) by (auto simp: Next_def)
  then show "live r' = live r" "cnt r' \<in> {cnt r, (cnt r)(k := Suc (cnt r k))}" by (auto simp: L(10,11))
  show "a = Inr n \<Longrightarrow> n = word_of_nat (Suc (cnt r k)) \<and> cnt r' = (cnt r)(k := Suc (cnt r k))"
    using call_Inr [of c "Incr api k" r r' n] assms(2) L(9) [of k r] L(10) [of k r] by (simp add: Next_def)
qed

section \<open>Exclusion\<close>

fun actor :: "Own \<Rightarrow> string option" where
  "actor (TryAcquire i _) = Some i"
| "actor (Token i _) = Some i"
| "actor (RenewTick i _) = Some i"
| "actor (Shutdown i) = Some i"
| "actor (Cancel i) = Some i"
| "actor (Exit i) = Some i"
| "actor (Leave i _) = Some i"
| "actor (Time _) = None"

text \<open>
  C23. While an engine's lease is live, no call of any other engine can take it, prolong it or remove it: only
  the holder itself and the passing of time end a lease.
\<close>

theorem lease_exclusive:
  assumes "redis_laws api live cnt" and "own api p ttl s a s'"
    and "live (server s) (LeaseKey p) = Some (j, t)" and "actor a = Some i" and "i \<noteq> j"
  shows "live (server s') (LeaseKey p) = Some (j, t) \<and> (phase s' i = Holding \<longrightarrow> phase s i = Holding)"
  using assms(2-5)
proof (induction rule: own.induct)
  case (acquired s i' c r)
  then show ?case using foreign_lease(2) [OF assms(1), of "server s" "LeaseKey p" j t "leaseOf p ttl i" c] by (simp add: leaseOf_def)
next
  case (not_acquired s i' c r b)
  then show ?case using foreign_lease(1) [OF assms(1), of "server s" "LeaseKey p" j t "leaseOf p ttl i" c] by (simp add: leaseOf_def)
next
  case (token s i' c r n)
  then show ?case using Next_facts(1) [OF assms(1) token(2)] by simp
next
  case (give_up s i' c r c')
  have "live r = live (server s)" by (rule Next_facts(1) [OF assms(1) give_up(3)])
  then show ?case
    using give_up foreign_lease(4) [OF assms(1), of r "LeaseKey p" j t "leaseOf p ttl i" c'] by (simp add: leaseOf_def)
next
  case (token_down s i' c r)
  then show ?case using Next_facts(1) [OF assms(1) token_down(3)] by simp
next
  case (renewed s i' n c r b)
  then show ?case using foreign_lease(3) [OF assms(1), of "server s" "LeaseKey p" j t "leaseOf p ttl i" c] by (simp add: leaseOf_def)
next
  case (lost s i' n c r)
  then show ?case using foreign_lease(3) [OF assms(1), of "server s" "LeaseKey p" j t "leaseOf p ttl i" c] by (simp add: leaseOf_def)
next
  case (leave s i' n c)
  then show ?case using foreign_lease(4) [OF assms(1), of "server s" "LeaseKey p" j t "leaseOf p ttl i" c] by (simp add: leaseOf_def)
qed simp_all

section \<open>Fencing\<close>

definition tokens_ok :: "'r counter \<Rightarrow> int \<Rightarrow> 'r Cluster \<Rightarrow> bool" where
  "tokens_ok cnt p s \<longleftrightarrow> cnt (server s) (FencingKey p) < 2 ^ 64 \<and> sorted_wrt (<) (map snd (issued s))
     \<and> (\<forall>x\<in>set (issued s). 0 < unat (snd x) \<and> unat (snd x) \<le> cnt (server s) (FencingKey p))
     \<and> (\<forall>i n b. phase s i = Consuming n b \<longrightarrow> (i, n) \<in> set (issued s))"

text \<open>The counter has room for one more token.\<close>

definition room :: "'r counter \<Rightarrow> int \<Rightarrow> 'r Cluster \<Rightarrow> Own \<Rightarrow> bool" where
  "room cnt p s a \<longleftrightarrow> Suc (cnt (server s) (FencingKey p)) < 2 ^ 64"

lemma tokens_frame:
  assumes "tokens_ok cnt p s" and "cnt r = cnt (server s)" and "\<And>j n b. ph j = Consuming n b \<Longrightarrow> \<exists>b. phase s j = Consuming n b"
  shows "tokens_ok cnt p (s\<lparr>server := r, phase := ph\<rparr>)"
  using assms(1,2) by (auto simp: tokens_ok_def dest!: assms(3))

lemma own_tokens:
  assumes redis: "redis_laws api live cnt" and "own api p ttl s a s'" and "tokens_ok cnt p s" and "room cnt p s a"
  shows "tokens_ok cnt p s'"
  using assms(2-4)
proof (induction rule: own.induct)
  case (acquired s i c r)
  have "cnt r = cnt (server s)" using lease_calls_cnt(1) [OF redis] acquired(3) by (metis fst_conv)
  then show ?case using acquired(4) by (intro tokens_frame) (auto split: if_splits)
next
  case (not_acquired s i c r a)
  have "cnt r = cnt (server s)" using lease_calls_cnt(1) [OF redis] not_acquired(3) by (metis fst_conv)
  then show ?case using tokens_frame [OF not_acquired(5), of r "phase s"] by auto
next
  case (token s i c r n)
  let ?n = "cnt (server s) (FencingKey p)"
  have n: "n = word_of_nat (Suc ?n)" "cnt r (FencingKey p) = Suc ?n"
    using Next_facts(3) [OF redis token(2), of n] by simp_all
  have u: "unat n = Suc ?n" unfolding n(1) unat_of_nat using token(4) by (simp add: room_def)
  have "snd x < n" if "x \<in> set (issued s)" for x
    using token(3) that u by (auto simp: tokens_ok_def word_less_nat_alt)
  then show ?case using token(3,4) u n(2)
    by (auto simp: tokens_ok_def room_def sorted_wrt_append split: if_splits)
next
  case (give_up s i c r c')
  have r: "cnt r \<in> {cnt (server s), (cnt (server s))(FencingKey p := Suc (cnt (server s) (FencingKey p)))}"
    by (rule Next_facts(2) [OF redis give_up(3)])
  then have "cnt (server s) (FencingKey p) \<le> cnt r (FencingKey p)" "cnt r (FencingKey p) < 2 ^ 64"
    using give_up(4,5) by (auto simp: tokens_ok_def room_def)
  then show ?case using give_up(4) lease_calls_cnt(3) [OF redis, of "leaseOf p ttl i" c' r]
    by (fastforce simp: tokens_ok_def split: if_splits)
next
  case (token_down s i c r)
  have "cnt r \<in> {cnt (server s), (cnt (server s))(FencingKey p := Suc (cnt (server s) (FencingKey p)))}"
    by (rule Next_facts(2) [OF redis token_down(3)])
  then have "cnt (server s) (FencingKey p) \<le> cnt r (FencingKey p)" "cnt r (FencingKey p) < 2 ^ 64"
    using token_down(4,5) by (auto simp: tokens_ok_def room_def)
  then show ?case using token_down(4) by (fastforce simp: tokens_ok_def split: if_splits)
next
  case (renewed s i n c r a)
  have "cnt r = cnt (server s)" using lease_calls_cnt(2) [OF redis] renewed(2) by (metis fst_conv)
  then show ?case using tokens_frame [OF renewed(4), of r "phase s"] by auto
next
  case (lost s i n c r)
  have "cnt r = cnt (server s)" using lease_calls_cnt(2) [OF redis] lost(2) by (metis fst_conv)
  then show ?case using lost(1,3) by (intro tokens_frame) (auto split: if_splits)
next
  case (cancel s i n)
  then have "tokens_ok cnt p (s\<lparr>server := server s, phase := (phase s)(i := Consuming n True)\<rparr>)"
    by (intro tokens_frame) (auto split: if_splits)
  then show ?case by simp
next
  case (shutdown s i)
  then show ?case by (simp add: tokens_ok_def)
next
  case (exit s i)
  then have "tokens_ok cnt p (s\<lparr>server := server s, phase := (phase s)(i := Stopped)\<rparr>)"
    by (intro tokens_frame) (auto split: if_splits)
  then show ?case by simp
next
  case (leave s i n c)
  then show ?case
    using lease_calls_cnt(3) [OF redis, of "leaseOf p ttl i" c "server s"] by (intro tokens_frame) (auto split: if_splits)
next
  case (time d s)
  then show ?case using tokens_frame [OF time(2), of "Elapse api d (server s)" "phase s"] laws(14) [OF redis] by auto
qed

lemma runs_tokens:
  assumes "redis_laws api live cnt"
  shows "runs (room cnt p) (own api p ttl) s as s' \<Longrightarrow> tokens_ok cnt p s \<Longrightarrow> tokens_ok cnt p s'"
  by (induction rule: runs.induct) (auto intro: own_tokens [OF assms])

text \<open>
  C24. However engines acquire, lose, renew and release the lease, and whichever of their calls fail, the
  tokens handed out for a partition strictly increase; so once a later engine has its token, the DB worker
  treats every event stamped with an earlier one as stale.
\<close>

theorem superseded_engine_fenced:
  assumes "redis_laws api live cnt" and "runs (room cnt p) (own api p ttl) s as s'" and "tokens_ok cnt p s"
    and "issued s' = before @ (i, n) # between @ (j, m) # after"
    and "PartitionID env = p" and "FencingToken env = n"
  shows "n < m \<and> fencingDecisionOf (\<lambda>k. Inr (GetUint api k (server s'))) env = Inr fencingStale"
proof -
  have ok: "tokens_ok cnt p s'" using runs_tokens [OF assms(1,2,3)] .
  let ?c = "cnt (server s') (FencingKey p)"
  have lt: "n < m" using ok assms(4) by (auto simp: tokens_ok_def sorted_wrt_append)
  have m: "unat m \<le> ?c" "0 < unat n" "?c < 2 ^ 64" using ok assms(4) by (auto simp: tokens_ok_def)
  then have c: "0 < ?c" "unat (word_of_nat ?c :: u64) = ?c" using lt by (auto simp: word_less_nat_alt unat_of_nat)
  have "n < word_of_nat ?c" using lt m(1) c(2) by (simp add: word_less_nat_alt)
  moreover have "n \<noteq> 0" using m(2) by auto
  ultimately show ?thesis
    using lt c(1) assms(5,6) laws(12) [OF assms(1), of "FencingKey p" "server s'"]
    by (simp add: fencingDecisionOf_def fencingDecisionForToken_def)
qed

section \<open>A server in memory\<close>

text \<open>The laws can be met: a map of values with their time to live and a map of counters.\<close>

definition memRedis :: "((string \<rightharpoonup> string \<times> int) \<times> (string \<Rightarrow> nat)) RedisApi" where
  "memRedis = \<lparr>
     SetNX = (\<lambda>k v t (l, c). if l k = None then ((l(k \<mapsto> (v, t)), c), True) else ((l, c), False)),
     GetStr = (\<lambda>k (l, c). map_option fst (l k)),
     PExpire = (\<lambda>k t (l, c). (case l k of None \<Rightarrow> l | Some (v, _) \<Rightarrow> l(k \<mapsto> (v, t)), c)),
     Del = (\<lambda>k (l, c). (l(k := None), c)),
     Incr = (\<lambda>k (l, c). ((l, c(k := Suc (c k))), word_of_nat (Suc (c k)))),
     GetUint = (\<lambda>k (l, c). if c k = 0 then None else Some (word_of_nat (c k))),
     Elapse = (\<lambda>d (l, c). ((\<lambda>k. case l k of None \<Rightarrow> None | Some (v, t) \<Rightarrow> if d < t then Some (v, t - d) else None), c))\<rparr>"

lemma memRedis_laws: "redis_laws memRedis fst snd"
  by (auto simp: redis_laws_def memRedis_def split: prod.split option.split)

definition idle :: "((string \<rightharpoonup> string \<times> int) \<times> (string \<Rightarrow> nat)) Cluster" where
  "idle = \<lparr>server = (Map.empty, \<lambda>_. 0), phase = (\<lambda>_. Competing), down = (\<lambda>_. False), issued = []\<rparr>"

lemma idle_tokens: "tokens_ok snd p idle"
  by (simp add: tokens_ok_def idle_def)

text \<open>Engine \<open>a\<close> gets the lease and stalls until it has run out; engine \<open>b\<close> takes over; \<open>a\<close> wakes up.\<close>

definition stalled :: "Own list" where
  "stalled = [TryAcquire ''a'' Answered, Time 15000, TryAcquire ''b'' Answered, Token ''b'' Answered, Token ''a'' Answered]"

definition overtaken :: "((string \<rightharpoonup> string \<times> int) \<times> (string \<Rightarrow> nat)) Cluster" where
  "overtaken = \<lparr>server = ([LeaseKey 0 \<mapsto> (''b'', 15000)], (\<lambda>_. 0)(FencingKey 0 := 2)),
     phase = (\<lambda>_. Competing)(''b'' := Consuming 1 False, ''a'' := Consuming 2 False), down = (\<lambda>_. False), issued = [(''b'', 1), (''a'', 2)]\<rparr>"

lemma stalled_runs: "runs (room snd 0) (own memRedis 0 15000) idle stalled overtaken"
proof -
  let ?own = "own memRedis 0 15000"
  define s1 where "s1 = idle\<lparr>server := ([LeaseKey 0 \<mapsto> (''a'', 15000)], \<lambda>_. 0), phase := (\<lambda>_. Competing)(''a'' := Holding)\<rparr>"
  define s2 where "s2 = s1\<lparr>server := (Map.empty, \<lambda>_. 0)\<rparr>"
  define s3 where "s3 = s2\<lparr>server := ([LeaseKey 0 \<mapsto> (''b'', 15000)], \<lambda>_. 0),
    phase := (\<lambda>_. Competing)(''a'' := Holding, ''b'' := Holding)\<rparr>"
  define s4 where "s4 = s3\<lparr>server := ([LeaseKey 0 \<mapsto> (''b'', 15000)], (\<lambda>_. 0)(FencingKey 0 := 1)),
    phase := (\<lambda>_. Competing)(''a'' := Holding, ''b'' := Consuming 1 False), issued := [(''b'', 1)]\<rparr>"
  note defs = s1_def s2_def s3_def s4_def idle_def overtaken_def memRedis_def
  have gone: "Elapse memRedis 15000 (server s1) = (Map.empty, \<lambda>_. 0)"
    by (auto simp: s1_def memRedis_def)
  have o1: "?own idle (TryAcquire ''a'' Answered) s1"
    using own.acquired [of idle "''a''" memRedis 0 15000 Answered "([LeaseKey 0 \<mapsto> (''a'', 15000)], \<lambda>_. 0)"]
    by (simp add: defs Acquire_def call_def leaseOf_def)
  have o2: "?own s1 (Time 15000) s2"
    using own.time [of 15000 memRedis 0 15000 s1] by (simp add: gone s2_def)
  have o3: "?own s2 (TryAcquire ''b'' Answered) s3"
    using own.acquired [of s2 "''b''" memRedis 0 15000 Answered "([LeaseKey 0 \<mapsto> (''b'', 15000)], \<lambda>_. 0)"]
    by (simp add: defs Acquire_def call_def leaseOf_def)
  have o4: "?own s3 (Token ''b'' Answered) s4"
    using own.token [of s3 "''b''" memRedis 0 Answered "([LeaseKey 0 \<mapsto> (''b'', 15000)], (\<lambda>_. 0)(FencingKey 0 := 1))" 1 15000]
    by (simp add: defs Next_def call_def)
  have o5: "?own s4 (Token ''a'' Answered) overtaken"
    using own.token [of s4 "''a''" memRedis 0 Answered "([LeaseKey 0 \<mapsto> (''b'', 15000)], (\<lambda>_. 0)(FencingKey 0 := 2))" 2 15000]
    by (simp add: defs Next_def call_def numeral_2_eq_2 fun_upd_twist)
  note step = runs_cons [where guard = "room snd 0" and step = "own memRedis 0 15000"]
  show ?thesis unfolding stalled_def
    by (rule step [OF _ o1 step [OF _ o2 step [OF _ o3 step [OF _ o4 step [OF _ o5 runs_nil]]]]])
      (simp_all add: room_def s1_def s2_def s3_def s4_def idle_def)
qed


theorem superseded_engine_fenced_witness:
  "(1 :: u64) < 2 \<and> fencingDecisionOf (\<lambda>k. Inr (GetUint memRedis k (server overtaken)))
     (tradeEnv 1 tradeA) = Inr fencingStale"
  by (rule superseded_engine_fenced [OF memRedis_laws stalled_runs idle_tokens, of "[]" "''b''" 1 "[]" "''a''" 2 "[]"])
    (simp_all add: overtaken_def tradeEnv_def NewEnvelope_def)

theorem lease_exclusive_witness:
  "fst (server overtaken) (LeaseKey 0) = Some (''b'', 15000)
   \<and> fst (Release memRedis (leaseOf 0 15000 ''a'') Answered (server overtaken)) (LeaseKey 0) = Some (''b'', 15000)"
proof -
  define s where "s = overtaken\<lparr>phase := (phase overtaken)(''a'' := Consuming 2 True)\<rparr>"
  have "own memRedis 0 15000 s (Leave ''a'' Answered) (s\<lparr>server := Release memRedis (leaseOf 0 15000 ''a'') Answered (server s),
      phase := (phase s)(''a'' := Competing)\<rparr>)"
    by (rule own.leave [where n = 2]) (simp add: s_def)
  from lease_exclusive [OF memRedis_laws this, of "''b''" 15000 "''a''"] show ?thesis
    by (simp add: s_def overtaken_def)
qed

end
