(* ===== verification/Sockets.thy ===== *)
theory Sockets
  imports Hub Transition
begin

text \<open>
  The goroutines of the WebSocket server as an interleaving: the read and write pumps of every client
  (\<^verbatim>\<open>client.go\<close>), new connections (\<^verbatim>\<open>server.go\<close>) and the one Redis subscriber (\<^verbatim>\<open>redis.go\<close>). A step is
  one section under the hub's or the client's mutex, one channel operation or one call that touches
  neither. JWT validation is a parameter. A panic ends the process, after which nothing steps.
\<close>

section \<open>Steps\<close>

text \<open>A read pump: waiting for a message, making the calls of one, unregistered, returned.\<close>

datatype Reader = Reading | Handling "Action list" | Leaving | Returned

record Sockets =
  hub :: Hub
  client :: "nat \<Rightarrow> Client"
  reader :: "nat \<Rightarrow> Reader"
  writing :: "nat \<Rightarrow> bool"
  nextClient :: nat
  broadcasting :: "(json \<times> nat list) option"
  panicked :: "panic option"

definition NewServer :: Sockets where
  "NewServer = \<lparr>hub = NewHub, client = (\<lambda>_. NewClient), reader = (\<lambda>_. Returned), writing = (\<lambda>_. False),
     nextClient = 0, broadcasting = None, panicked = None\<rparr>"

definition authorized :: "(string \<Rightarrow> 'claims option) \<Rightarrow> bool \<Rightarrow> string \<Rightarrow> bool" where
  "authorized ValidateToken RequireAuth token \<longleftrightarrow> \<not> RequireAuth \<or> token \<noteq> [] \<and> ValidateToken token \<noteq> None"

text \<open>\<^verbatim>\<open>Server.Handle\<close> after the upgrade; the answers of a refused request do not touch the state.\<close>

definition HandleConn :: "(string \<Rightarrow> 'claims option) \<Rightarrow> bool \<Rightarrow> string \<Rightarrow> bool \<Rightarrow> Sockets \<Rightarrow> Sockets" where
  "HandleConn ValidateToken RequireAuth token upgraded s =
     (if authorized ValidateToken RequireAuth token \<and> upgraded
      then let c = nextClient s in
        s\<lparr>hub := Register c (hub s), client := (client s)(c := NewClient), reader := (reader s)(c := Reading),
          writing := (writing s)(c := True), nextClient := Suc c\<rparr>
      else s)"

definition onClient :: "nat \<Rightarrow> (Client \<Rightarrow> Client \<times> panic option) \<Rightarrow> Sockets \<Rightarrow> Sockets" where
  "onClient c f s = (case f (client s c) of (cl, p) \<Rightarrow> s\<lparr>client := (client s)(c := cl), panicked := p\<rparr>)"

definition onHub :: "nat \<Rightarrow> (Hub \<times> Client \<Rightarrow> Hub \<times> Client) \<Rightarrow> Sockets \<Rightarrow> Sockets" where
  "onHub c f s = (case f (hub s, client s c) of (h, cl) \<Rightarrow> s\<lparr>hub := h, client := (client s)(c := cl)\<rparr>)"

fun act :: "nat \<Rightarrow> Action \<Rightarrow> Sockets \<Rightarrow> Sockets" where
  "act c (DoSubscribe e) s = onHub c (Subscribe c e) s"
| "act c (DoUnsubscribe e) s = onHub c (Unsubscribe c e) s"
| "act c (DoSend m) s = onClient c (Send m) s"

datatype Event = Connect string bool | Receive nat raw | Act nat | ReadError nat | Return nat
  | Update raw "nat list" | Deliver | Write nat | WriteStop nat

inductive socket :: "(string \<Rightarrow> 'claims option) \<Rightarrow> bool \<Rightarrow> Sockets \<Rightarrow> Event \<Rightarrow> Sockets \<Rightarrow> bool" for jwt auth where
  connect: "panicked s = None \<Longrightarrow> socket jwt auth s (Connect tok up) (HandleConn jwt auth tok up s)"
| receive: "panicked s = None \<Longrightarrow> reader s c = Reading \<Longrightarrow>
    socket jwt auth s (Receive c m) (s\<lparr>reader := (reader s)(c := Handling (handleClientMessage m))\<rparr>)"
| action: "panicked s = None \<Longrightarrow> reader s c = Handling (a # as) \<Longrightarrow>
    socket jwt auth s (Act c) (act c a (s\<lparr>reader := (reader s)(c := Handling as)\<rparr>))"
| handled: "panicked s = None \<Longrightarrow> reader s c = Handling [] \<Longrightarrow> socket jwt auth s (Act c) (s\<lparr>reader := (reader s)(c := Reading)\<rparr>)"
| read_error: "panicked s = None \<Longrightarrow> reader s c = Reading \<Longrightarrow>
    socket jwt auth s (ReadError c) (s\<lparr>hub := Unregister c (hub s), reader := (reader s)(c := Leaving)\<rparr>)"
| return: "panicked s = None \<Longrightarrow> reader s c = Leaving \<Longrightarrow>
    socket jwt auth s (Return c) (onClient c closeClient (s\<lparr>reader := (reader s)(c := Returned)\<rparr>))"
| update: "panicked s = None \<Longrightarrow> broadcasting s = None \<Longrightarrow> handleUpdate m = Some (Some (e, msg)) \<Longrightarrow>
    set cs = targets e (hub s) \<Longrightarrow> distinct cs \<Longrightarrow> socket jwt auth s (Update m cs) (s\<lparr>broadcasting := Some (msg, cs)\<rparr>)"
| no_update: "panicked s = None \<Longrightarrow> broadcasting s = None \<Longrightarrow> handleUpdate m \<in> {None, Some None} \<Longrightarrow> socket jwt auth s (Update m []) s"
| deliver: "panicked s = None \<Longrightarrow> broadcasting s = Some (msg, c # cs) \<Longrightarrow>
    socket jwt auth s Deliver (onClient c (Send msg) (s\<lparr>broadcasting := Some (msg, cs)\<rparr>))"
| delivered: "panicked s = None \<Longrightarrow> broadcasting s = Some (msg, []) \<Longrightarrow> socket jwt auth s Deliver (s\<lparr>broadcasting := None\<rparr>)"
| written: "panicked s = None \<Longrightarrow> writing s c \<Longrightarrow> send (client s c) = m # ms \<Longrightarrow>
    socket jwt auth s (Write c) (s\<lparr>client := (client s)(c := (client s c)\<lparr>send := ms\<rparr>)\<rparr>)"
| write_stop: "panicked s = None \<Longrightarrow> writing s c \<Longrightarrow>
    socket jwt auth s (WriteStop c) (onClient c closeClient (s\<lparr>writing := (writing s)(c := False)\<rparr>))"

end
