(* ===== verification/Manager.thy ===== *)
theory Manager
  imports Messages Redis
begin

text \<open>
  \<^verbatim>\<open>pkg/redis/manager.go\<close>: how the API sends commands to the engine and waits for the answer. What the
  network and the clock return is a parameter \<open>Net\<close> indexed by the number of calls made so far; \<open>streamLog\<close>
  records the entries Redis appended, oldest first.
\<close>

text \<open>What the reply channel yields before the timer fires.\<close>

datatype Reply = Message raw | ChannelClosed | ContextDone

record Net =
  IncrSeq :: "nat \<Rightarrow> string \<Rightarrow> u64 option"
  UUID :: "nat \<Rightarrow> string"
  RandomID :: "nat \<Rightarrow> string"
  Clock :: "nat \<Rightarrow> int"
  SubscribeErr :: "nat \<Rightarrow> bool"
  XAddCall :: "nat \<Rightarrow> Call"
  Replies :: "nat \<Rightarrow> Reply list"

record Bus =
  streamLog :: "(string \<times> string \<times> json) list"
  netCalls :: nat

section \<open>Routing\<close>

definition streamFor :: "Router option \<Rightarrow> int \<Rightarrow> string" where
  "streamFor r partitionID = (case r of None \<Rightarrow> ''commands'' | Some r \<Rightarrow> Stream r partitionID)"

definition groupFor :: "Router option \<Rightarrow> int \<Rightarrow> string" where
  "groupFor r partitionID = (case r of None \<Rightarrow> ''engines'' | Some r \<Rightarrow> Group r partitionID)"

definition seqKeyFor :: "Router option \<Rightarrow> int \<Rightarrow> string" where
  "seqKeyFor r partitionID = (case r of None \<Rightarrow> ''commands:sequence'' | Some r \<Rightarrow> SequenceKey r partitionID)"

definition partitionFor :: "Router option \<Rightarrow> string \<Rightarrow> int" where
  "partitionFor r eventID = (case r of None \<Rightarrow> 0 | Some r \<Rightarrow> if eventID = [] then 0 else Partition r eventID)"

section \<open>Sending\<close>

text \<open>Each of the following uses one call number.\<close>

definition createEnvelope :: "Net \<Rightarrow> Router option \<Rightarrow> string \<Rightarrow> string \<Rightarrow> raw \<Rightarrow> int \<Rightarrow> Bus \<Rightarrow> Bus \<times> CommandEnvelope" where
  "createEnvelope n r typ eventID payload partitionID b =
     (let t = netCalls b; requestID = UUID n t in
      (b\<lparr>netCalls := Suc t\<rparr>,
       \<lparr>CommandID = requestID, cmdType = typ, cmdEventID = eventID, RequestID = requestID,
        cmdSequence = (case IncrSeq n t (seqKeyFor r partitionID) of None \<Rightarrow> 0 | Some q \<Rightarrow> q),
        Timestamp = Clock n t, Payload = payload\<rparr>))"

text \<open>\<^verbatim>\<open>XADD\<close>; \<open>True\<close> is an error, after which the entry may have been appended all the same.\<close>

definition xadd :: "Net \<Rightarrow> string \<Rightarrow> string \<Rightarrow> json \<Rightarrow> Bus \<Rightarrow> Bus \<times> bool" where
  "xadd n stream client cmd b =
     (let c = XAddCall n (netCalls b); b = b\<lparr>netCalls := Suc (netCalls b)\<rparr> in
      (if c = Failed then b else b\<lparr>streamLog := streamLog b @ [(stream, client, cmd)]\<rparr>, c \<noteq> Answered))"

definition MaxAppendRetries :: nat where "MaxAppendRetries = 3"

fun appendRetry :: "Net \<Rightarrow> string \<Rightarrow> string \<Rightarrow> json \<Rightarrow> nat \<Rightarrow> Bus \<Rightarrow> Bus \<times> bool" where
  "appendRetry n stream client cmd 0 b = (b, True)"
| "appendRetry n stream client cmd (Suc k) b = (case xadd n stream client cmd b of
       (b, False) \<Rightarrow> (b, False)
     | (b, True) \<Rightarrow> appendRetry n stream client cmd k b)"

text \<open>Its context is never canceled: the one caller passes \<^verbatim>\<open>context.Background()\<close>.\<close>

definition appendCommand :: "Net \<Rightarrow> Router option \<Rightarrow> string \<Rightarrow> CommandEnvelope \<Rightarrow> int \<Rightarrow> Bus \<Rightarrow> Bus \<times> bool" where
  "appendCommand n r client env partitionID =
     appendRetry n (streamFor r partitionID) client (commandToJson env) MaxAppendRetries"

section \<open>Waiting for the answer\<close>

definition decBool :: "json \<Rightarrow> bool \<Rightarrow> bool option" where
  "decBool j old = (case j of JBool b \<Rightarrow> Some b | JNull \<Rightarrow> Some old | _ \<Rightarrow> None)"

definition responseOfJson :: "raw \<Rightarrow> EngineResponse option" where
  "responseOfJson r = do {
     fs \<leftarrow> unmarshalObj r;
     s \<leftarrow> field decBool ''success'' fs False; e \<leftarrow> field decStr ''error'' fs [];
     q \<leftarrow> field decStr ''requestId'' fs []; d \<leftarrow> field decRaw ''data'' fs None;
     Some \<lparr>Success = s, Error = e, respRequestID = q, Data = d\<rparr> }"

definition responseToJson :: "EngineResponse \<Rightarrow> json" where
  "responseToJson r = JObj
    ([(''success'', JBool (Success r))]
     @ (if Error r = [] then [] else [(''error'', JStr (Error r))])
     @ (if respRequestID r = [] then [] else [(''requestId'', JStr (respRequestID r))])
     @ (case Data r of None \<Rightarrow> [] | Some d \<Rightarrow> [(''data'', d)]))"

lemma response_json_roundtrip: "responseOfJson (Some (responseToJson r)) = Some r"
  by (cases "Error r = []"; cases "respRequestID r = []"; cases "Data r")
    (simp_all add: responseOfJson_def responseToJson_def decBool_def)

fun awaitResponse :: "string \<Rightarrow> Reply list \<Rightarrow> string + EngineResponse" where
  "awaitResponse requestID [] = Inl ''timeout waiting for engine response''"
| "awaitResponse requestID (ChannelClosed # _) = Inl ''response channel closed''"
| "awaitResponse requestID (ContextDone # _) = Inl ''context done''"
| "awaitResponse requestID (Message m # ms) = (case responseOfJson m of
       None \<Rightarrow> Inl ''decode response''
     | Some resp \<Rightarrow> if respRequestID resp \<noteq> requestID then awaitResponse requestID ms else Inr resp)"

definition SendAndAwait :: "Net \<Rightarrow> Router option \<Rightarrow> string \<Rightarrow> MessageToEngine \<Rightarrow> Bus \<Rightarrow> Bus \<times> (string + EngineResponse)" where
  "SendAndAwait n r eventID msg b =
     (let partitionID = partitionFor r eventID; t = netCalls b; client = RandomID n t; b = b\<lparr>netCalls := Suc t\<rparr> in
      if SubscribeErr n t then (b, Inl ''subscribe'')
      else case createEnvelope n r (msgType msg) eventID (msgPayload msg) partitionID b of
        (b, envelope) \<Rightarrow> (case appendCommand n r client envelope partitionID b of
            (b, True) \<Rightarrow> (b, Inl ''append command'')
          | (b, False) \<Rightarrow> (b, awaitResponse (RequestID envelope) (Replies n t))))"

section \<open>Fire and forget\<close>

definition SendCommand :: "Net \<Rightarrow> Router option \<Rightarrow> string \<Rightarrow> string \<Rightarrow> raw \<Rightarrow> Bus \<Rightarrow> Bus \<times> bool" where
  "SendCommand n r eventID typ payload b =
     (let partitionID = partitionFor r eventID in
      case createEnvelope n r typ eventID payload partitionID b of
        (b, env) \<Rightarrow> xadd n (streamFor r partitionID) [] (commandToJson env) b)"

fun fanout :: "Net \<Rightarrow> Router \<Rightarrow> string \<Rightarrow> raw \<Rightarrow> int list \<Rightarrow> Bus \<Rightarrow> Bus \<times> bool" where
  "fanout n r typ payload [] b = (b, False)"
| "fanout n r typ payload (p # ps) b = (case createEnvelope n (Some r) typ [] payload p b of
       (b, env) \<Rightarrow> (case xadd n (Stream r p) [] (commandToJson env) b of
           (b, True) \<Rightarrow> (b, True)
         | (b, False) \<Rightarrow> fanout n r typ payload ps b))"

definition SendCommandFanout :: "Net \<Rightarrow> Router option \<Rightarrow> string \<Rightarrow> raw \<Rightarrow> Bus \<Rightarrow> Bus \<times> bool" where
  "SendCommandFanout n r typ payload b = (case r of
       None \<Rightarrow> SendCommand n r [] typ payload b
     | Some r \<Rightarrow> fanout n r typ payload (map int [0..<nat (Partitions r)]) b)"

end
