(* ===== verification/Api.thy ===== *)
theory Api
  imports Manager Database
begin

text \<open>
  The HTTP API: the handlers of \<^verbatim>\<open>internal/handler\<close>, the middleware of \<^verbatim>\<open>internal/middleware\<close>, the request
  types of \<^verbatim>\<open>internal/dto\<close> and the routes of \<^verbatim>\<open>internal/router\<close>. A request is a route with its path
  parameter and body; the answer is a status with the content of its body. Gin, bcrypt, JWT and the
  field validator's e-mail and URL checks are parameters, and so is floating-point arithmetic on the
  number literal of a price.
\<close>

record Claims =
  claimUserID :: string
  claimEmail :: string

record Api =
  pg :: Pg
  net :: Net
  apiRouter :: "Router option"
  ValidateToken :: "string \<Rightarrow> Claims option"
  GenerateToken :: "string \<Rightarrow> string \<Rightarrow> string option"
  HashPassword :: "nat \<Rightarrow> string \<Rightarrow> string option"
  ComparePassword :: "string \<Rightarrow> string \<Rightarrow> bool"
  IsEmail :: "string \<Rightarrow> bool"
  IsURL :: "string \<Rightarrow> bool"
  ParseTime :: "string \<Rightarrow> int option"
  FormatTime :: "int \<Rightarrow> string"
  FloatSign :: "json \<Rightarrow> int"
  ScalePrice :: "json \<Rightarrow> int"

record Service =
  db :: DB
  bus :: Bus

datatype Body = Refused string | EngineData raw | EventList "(uuid \<times> EventRow) list" | OneEvent uuid EventRow
  | SignedUp uuid string int | SignedIn string uuid string | Greeting string

type_synonym answer = "nat \<times> Body"

text \<open>One query of a handler.\<close>

definition ask :: "Api \<Rightarrow> (Tables \<Rightarrow> db_error + Tables \<times> 'a) \<Rightarrow> Service \<Rightarrow> Service \<times> (db_error + 'a)" where
  "ask a q s = (case query (pg a) q (db s) of (d, r) \<Rightarrow> (s\<lparr>db := d\<rparr>, r))"

definition sendAndAwait :: "Api \<Rightarrow> string \<Rightarrow> string \<Rightarrow> json \<Rightarrow> Service \<Rightarrow> Service \<times> (string + EngineResponse)" where
  "sendAndAwait a eventID typ payload s =
     (case SendAndAwait (net a) (apiRouter a) eventID \<lparr>msgType = typ, msgPayload = Some payload\<rparr> (bus s) of
        (b, r) \<Rightarrow> (s\<lparr>bus := b\<rparr>, r))"

text \<open>The end of every handler that asks the engine.\<close>

definition relay :: "Service \<times> (string + EngineResponse) \<Rightarrow> Service \<times> answer" where
  "relay = (\<lambda>(s, r). case r of
       Inl _ \<Rightarrow> (s, 400, Refused ''orderbook not responding'')
     | Inr resp \<Rightarrow> if Success resp then (s, 200, EngineData (Data resp)) else (s, 400, Refused ''orderbook not responding''))"

section \<open>Request types\<close>

record CreateOrderRequest =
  orOrderID :: string
  orEventID :: string
  orOrderType :: string
  orOutcome :: string
  orSide :: string
  orQuantity :: int
  orPrice :: json

fun decNumber :: "json \<Rightarrow> json \<Rightarrow> json option" where
  "decNumber (JNum n) _ = Some (JNum n)"
| "decNumber (JFloat x) _ = Some (JFloat x)"
| "decNumber JNull old = Some old"
| "decNumber _ _ = None"

text \<open>\<^verbatim>\<open>required\<close> refuses the zero value; \<^verbatim>\<open>omitempty\<close> skips the other rules for it.\<close>

definition bindOrder :: "Api \<Rightarrow> raw \<Rightarrow> CreateOrderRequest option" where
  "bindOrder a r = do {
     fs \<leftarrow> unmarshalObj r;
     i \<leftarrow> field decStr ''orderId'' fs []; ev \<leftarrow> field decStr ''eventId'' fs [];
     ty \<leftarrow> field decStr ''orderType'' fs []; oc \<leftarrow> field decStr ''outcome'' fs []; sd \<leftarrow> field decStr ''side'' fs [];
     q \<leftarrow> field decInt ''quantity'' fs 0; p \<leftarrow> field decNumber ''price'' fs (JNum 0);
     if ev \<noteq> [] \<and> ty \<in> {''LIMIT'', ''MARKET''} \<and> oc \<in> {''YES'', ''NO''} \<and> sd \<in> {''BUY'', ''SELL''} \<and> 0 < q \<and> 0 \<le> FloatSign a p
     then Some \<lparr>orOrderID = i, orEventID = ev, orOrderType = ty, orOutcome = oc, orSide = sd, orQuantity = q, orPrice = p\<rparr>
     else None }"

record CreateEventRequest =
  evTitle :: string
  evDescription :: string
  evQuestion :: string
  evImageURL :: string
  evExpiresAt :: string

definition bindEvent :: "Api \<Rightarrow> raw \<Rightarrow> CreateEventRequest option" where
  "bindEvent a r = do {
     fs \<leftarrow> unmarshalObj r;
     t \<leftarrow> field decStr ''title'' fs []; d \<leftarrow> field decStr ''description'' fs []; q \<leftarrow> field decStr ''question'' fs [];
     u \<leftarrow> field decStr ''imageurl'' fs []; x \<leftarrow> field decStr ''expiresAt'' fs [];
     if t \<noteq> [] \<and> d \<noteq> [] \<and> q \<noteq> [] \<and> u \<noteq> [] \<and> IsURL a u \<and> x \<noteq> []
     then Some \<lparr>evTitle = t, evDescription = d, evQuestion = q, evImageURL = u, evExpiresAt = x\<rparr> else None }"

definition bindCredentials :: "Api \<Rightarrow> nat \<Rightarrow> raw \<Rightarrow> (string \<times> string) option" where
  "bindCredentials a minLen r = do {
     fs \<leftarrow> unmarshalObj r;
     e \<leftarrow> field decStr ''email'' fs []; p \<leftarrow> field decStr ''password'' fs [];
     if e \<noteq> [] \<and> IsEmail a e \<and> p \<noteq> [] \<and> minLen \<le> length p then Some (e, p) else None }"

section \<open>Accounts\<close>

definition Signup :: "Api \<Rightarrow> raw \<Rightarrow> Service \<Rightarrow> Service \<times> answer" where
  "Signup a body s = (case bindCredentials a 6 body of
       None \<Rightarrow> (s, 400, Refused ''bad request'')
     | Some (email, password) \<Rightarrow> (case ask a (GetUserByEmail (pg a) email) s of
           (s, Inr _) \<Rightarrow> (s, 409, Refused ''email already registered'')
         | (s, Inl _) \<Rightarrow> (case HashPassword a (trips (db s)) password of
               None \<Rightarrow> (s, 500, Refused ''failed to hash password'')
             | Some hashed \<Rightarrow> (case ask a (CreateUser (pg a) (trips (db s)) email hashed) s of
                   (s, Inl _) \<Rightarrow> (s, 500, Refused ''failed to create user'')
                 | (s, Inr (userID, user)) \<Rightarrow>
                     (s\<lparr>bus := fst (SendCommandFanout (net a) (apiRouter a) UserCreatedCommand
                          (Some (JObj [(''userId'', JStr userID)])) (bus s))\<rparr>,
                      201, SignedUp userID (userEmail user) (userCreatedAt user))))))"

definition Signin :: "Api \<Rightarrow> raw \<Rightarrow> Service \<Rightarrow> Service \<times> answer" where
  "Signin a body s = (case bindCredentials a 1 body of
       None \<Rightarrow> (s, 400, Refused ''bad request'')
     | Some (email, password) \<Rightarrow> (case ask a (GetUserByEmail (pg a) email) s of
           (s, Inl _) \<Rightarrow> (s, 401, Refused ''invalid credentials'')
         | (s, Inr (userID, user)) \<Rightarrow>
             if \<not> ComparePassword a (passwordHash user) password then (s, 401, Refused ''invalid credentials'')
             else (case GenerateToken a userID (userEmail user) of
                 None \<Rightarrow> (s, 500, Refused ''failed to generate token'')
               | Some token \<Rightarrow> (s, 200, SignedIn token userID (userEmail user)))))"

text \<open>What \<^verbatim>\<open>c.Get("userID")\<close> finds, or the answer of a handler that needs it.\<close>

definition withUser :: "string option \<Rightarrow> (string \<Rightarrow> Service \<Rightarrow> Service \<times> answer) \<Rightarrow> Service \<Rightarrow> Service \<times> answer" where
  "withUser user h s = (case user of None \<Rightarrow> (s, 401, Refused ''unauthorized'') | Some userID \<Rightarrow> h userID s)"

text \<open>The three handlers that only repeat the identity of the caller.\<close>

definition Me :: "string option \<Rightarrow> Service \<Rightarrow> Service \<times> answer" where
  "Me user = withUser user (\<lambda>userID s. (s, 200, Greeting userID))"

definition ApiGetPosition :: "string option \<Rightarrow> Service \<Rightarrow> Service \<times> answer" where
  "ApiGetPosition user = withUser user (\<lambda>userID s. (s, 200, Greeting (''get position for user: '' @ userID)))"

definition ApiGetBalances :: "string option \<Rightarrow> Service \<Rightarrow> Service \<times> answer" where
  "ApiGetBalances user = withUser user (\<lambda>userID s. (s, 200, Greeting (''get balances for user: '' @ userID)))"

section \<open>Events\<close>

definition GetEvents :: "Api \<Rightarrow> Service \<Rightarrow> Service \<times> answer" where
  "GetEvents a s = (case ask a (GetActiveEvents (pg a)) s of
       (s, Inl _) \<Rightarrow> (s, 500, Refused ''failed to fetch events'')
     | (s, Inr events) \<Rightarrow> (s, 200, EventList events))"

definition GetEvent :: "Api \<Rightarrow> string \<Rightarrow> Service \<Rightarrow> Service \<times> answer" where
  "GetEvent a eventID s = (case ParseUUID (pg a) eventID of
       None \<Rightarrow> (s, 400, Refused ''invalid event ID'')
     | Some i \<Rightarrow> (case ask a (GetEventByID i) s of
           (s, Inl _) \<Rightarrow> (s, 404, Refused ''event not found'')
         | (s, Inr event) \<Rightarrow> (s, 200, OneEvent i event)))"

text \<open>An engine that does not answer, or refuses, has the row deleted again.\<close>

definition CreateEvent :: "Api \<Rightarrow> raw \<Rightarrow> Service \<Rightarrow> Service \<times> answer" where
  "CreateEvent a body s = (case bindEvent a body of
       None \<Rightarrow> (s, 400, Refused ''bad request'')
     | Some req \<Rightarrow> (case ParseTime a (evExpiresAt req) of
           None \<Rightarrow> (s, 400, Refused ''invalid expiresAt format, use RFC3339'')
         | Some expires \<Rightarrow>
             (case ask a (InsertEvent (pg a) (trips (db s)) (evTitle req) (evDescription req) (evQuestion req) (evImageURL req) expires) s of
                (s, Inl _) \<Rightarrow> (s, 500, Refused ''failed to create event'')
              | (s, Inr (eventID, event)) \<Rightarrow>
                  (case sendAndAwait a eventID CreateEventCommand (JObj [(''eventId'', JStr eventID),
                       (''expiresAt'', JStr (FormatTime a (expiresAt event))), (''title'', JStr (title event))]) s of
                     (s, r) \<Rightarrow>
                       if (case r of Inl _ \<Rightarrow> False | Inr resp \<Rightarrow> Success resp) then (s, 201, OneEvent eventID event)
                       else (fst (ask a (DeleteEvent (pg a) eventID) s), 400, Refused ''orderbook not responding'')))))"

section \<open>Orders\<close>

definition orderPayload :: "Api \<Rightarrow> string \<Rightarrow> string \<Rightarrow> CreateOrderRequest \<Rightarrow> json" where
  "orderPayload a userID orderID req = JObj
     [(''eventId'', JStr (orEventID req)), (''orderId'', JStr orderID), (''orderType'', JStr (orOrderType req)),
      (''outcome'', JStr (orOutcome req)), (''price'', JNum (ScalePrice a (orPrice req))),
      (''quantity'', JNum (orQuantity req)), (''side'', JStr (orSide req)), (''userId'', JStr userID)]"

definition CreateOrder :: "Api \<Rightarrow> string option \<Rightarrow> raw \<Rightarrow> Service \<Rightarrow> Service \<times> answer" where
  "CreateOrder a user body = withUser user (\<lambda>userID s. case bindOrder a body of
       None \<Rightarrow> (s, 400, Refused ''bad request'')
     | Some req \<Rightarrow>
         if orOrderType req = ''LIMIT'' \<and> FloatSign a (orPrice req) \<le> 0
         then (s, 400, Refused ''price is required for LIMIT orders'')
         else (case ParseUUID (pg a) (orEventID req) of
             None \<Rightarrow> (s, 400, Refused ''invalid event ID'')
           | Some eventID \<Rightarrow> (case ask a (GetEventByID eventID) s of
                 (s, Inl _) \<Rightarrow> (s, 400, Refused ''event not found or not active'')
               | (s, Inr event) \<Rightarrow>
                   if \<not> isActive event then (s, 400, Refused ''event is not active'')
                   else let orderID = (if orOrderID req = [] then UUID (net a) (netCalls (bus s)) else orOrderID req);
                            s = (if orOrderID req = [] then s\<lparr>bus := (bus s)\<lparr>netCalls := Suc (netCalls (bus s))\<rparr>\<rparr> else s) in
                     relay (sendAndAwait a (orEventID req) CreateOrderCommand (orderPayload a userID orderID req) s))))"

definition DeleteOrder :: "Api \<Rightarrow> string option \<Rightarrow> string \<Rightarrow> Service \<Rightarrow> Service \<times> answer" where
  "DeleteOrder a user orderID = withUser user (\<lambda>userID s. case ParseUUID (pg a) orderID of
       None \<Rightarrow> (s, 400, Refused ''invalid order ID'')
     | Some oid \<Rightarrow> (case ask a (GetOrderByID oid) s of
           (s, Inl _) \<Rightarrow> (s, 404, Refused ''order not found'')
         | (s, Inr order) \<Rightarrow>
             if rowUserID order \<noteq> userID then (s, 403, Refused ''you are not authorized to cancel this order'')
             else relay (sendAndAwait a (rowEventID order) CancelOrderCommand
               (JObj [(''eventId'', JStr (rowEventID order)), (''orderId'', JStr orderID)]) s)))"

text \<open>\<^verbatim>\<open>GetOrderbook\<close> and \<^verbatim>\<open>GetOrderbookDepth\<close> have the same body.\<close>

definition GetOrderbook :: "Api \<Rightarrow> string \<Rightarrow> Service \<Rightarrow> Service \<times> answer" where
  "GetOrderbook a eventID s = (case ParseUUID (pg a) eventID of
       None \<Rightarrow> (s, 400, Refused ''invalid event ID'')
     | Some eid \<Rightarrow> (case ask a (GetEventByID eid) s of
           (s, Inl _) \<Rightarrow> (s, 404, Refused ''event not found'')
         | (s, Inr _) \<Rightarrow> relay (sendAndAwait a eventID GetDepthCommand (JObj [(''eventId'', JStr eventID)]) s)))"

section \<open>Routes\<close>

text \<open>\<^verbatim>\<open>strings.Split(header, " ")\<close>.\<close>

fun splitSpaces :: "string \<Rightarrow> string list" where
  "splitSpaces [] = [[]]"
| "splitSpaces (c # cs) = (if c = CHR '' '' then [] # splitSpaces cs
     else case splitSpaces cs of [] \<Rightarrow> [[c]] | w # ws \<Rightarrow> (c # w) # ws)"

definition AuthMiddleware :: "Api \<Rightarrow> string \<Rightarrow> answer + Claims" where
  "AuthMiddleware a header =
     (if header = [] then Inl (401, Refused ''Authorization header required'')
      else case splitSpaces header of
        [scheme, token] \<Rightarrow>
          if scheme \<noteq> ''Bearer'' then Inl (401, Refused ''Invalid authorization format'')
          else (case ValidateToken a token of None \<Rightarrow> Inl (401, Refused ''Invalid token'') | Some claims \<Rightarrow> Inr claims)
      | _ \<Rightarrow> Inl (401, Refused ''Invalid authorization format''))"

datatype Request = GetRoot | GetPing | PostSignup raw | PostSignin raw
  | GetMe | GetPositionReq | GetBalancesReq | GetEventsReq | GetEventReq string | PostEvent raw
  | PostOrder raw | DeleteOrderReq string | GetOrderbookReq string | GetDepthReq string

fun protected :: "Api \<Rightarrow> string option \<Rightarrow> Request \<Rightarrow> Service \<Rightarrow> Service \<times> answer" where
  "protected a u GetMe s = Me u s"
| "protected a u GetPositionReq s = ApiGetPosition u s"
| "protected a u GetBalancesReq s = ApiGetBalances u s"
| "protected a u GetEventsReq s = GetEvents a s"
| "protected a u (GetEventReq i) s = GetEvent a i s"
| "protected a u (PostEvent b) s = CreateEvent a b s"
| "protected a u (PostOrder b) s = CreateOrder a u b s"
| "protected a u (DeleteOrderReq i) s = DeleteOrder a u i s"
| "protected a u (GetOrderbookReq i) s = GetOrderbook a i s"
| "protected a u (GetDepthReq i) s = GetOrderbook a i s"
| "protected a u _ s = (s, 404, Refused [])"

fun SetupRoutes :: "Api \<Rightarrow> string \<Rightarrow> Request \<Rightarrow> Service \<Rightarrow> Service \<times> answer" where
  "SetupRoutes a header GetRoot s = (s, 200, Greeting ''hello'')"
| "SetupRoutes a header GetPing s = (s, 200, Greeting ''pong'')"
| "SetupRoutes a header (PostSignup b) s = Signup a b s"
| "SetupRoutes a header (PostSignin b) s = Signin a b s"
| "SetupRoutes a header r s = (case AuthMiddleware a header of Inl x \<Rightarrow> (s, x) | Inr claims \<Rightarrow> protected a (Some (claimUserID claims)) r s)"

end
