(* ===== verification/Api_Props.thy ===== *)
theory Api_Props
  imports Api Engine DB_Scenario
begin

text \<open>
  What the API puts on the command streams: every order command speaks for the caller of the request,
  every cancellation for the owner of the order, and a command is appended at least once.
\<close>

section \<open>The manager\<close>

lemma xadd_log:
  "xadd n stream client cmd b = (b', err) \<Longrightarrow>
   \<exists>k. streamLog b' = streamLog b @ replicate k (stream, client, cmd) \<and> k \<le> 1 \<and> (\<not> err \<longrightarrow> k = 1)"
  by (cases "XAddCall n (netCalls b)")
    (auto simp: xadd_def Let_def intro: exI [of _ 0] exI [of _ "Suc 0"])

lemma appendRetry_log:
  "appendRetry n stream client cmd m b = (b', err) \<Longrightarrow>
   \<exists>k. streamLog b' = streamLog b @ replicate k (stream, client, cmd) \<and> k \<le> m \<and> (\<not> err \<longrightarrow> 0 < k)"
proof (induction m arbitrary: b)
  case (Suc m)
  obtain b1 err1 where x: "xadd n stream client cmd b = (b1, err1)" by fastforce
  then obtain k1 where k1: "streamLog b1 = streamLog b @ replicate k1 (stream, client, cmd)" "k1 \<le> 1" "\<not> err1 \<longrightarrow> k1 = 1"
    using xadd_log by blast
  show ?case
  proof (cases err1)
    case True
    then obtain k where "streamLog b' = streamLog b1 @ replicate k (stream, client, cmd)" "k \<le> m" "\<not> err \<longrightarrow> 0 < k"
      using Suc.IH [of b1] Suc.prems x by auto
    then show ?thesis using k1 by (intro exI [of _ "k1 + k"]) (auto simp: replicate_add)
  next
    case False
    then show ?thesis using Suc.prems x k1 by (intro exI [of _ 1]) auto
  qed
qed (auto intro: exI [of _ 0])

text \<open>The entry a request is sent as.\<close>

definition sentEntry :: "Net \<Rightarrow> Router option \<Rightarrow> string \<Rightarrow> MessageToEngine \<Rightarrow> nat \<Rightarrow> string \<times> string \<times> json" where
  "sentEntry n r eventID msg t =
     (let p = partitionFor r eventID in
      (streamFor r p, RandomID n t, commandToJson
        \<lparr>CommandID = UUID n (Suc t), cmdType = msgType msg, cmdEventID = eventID, RequestID = UUID n (Suc t),
         cmdSequence = (case IncrSeq n (Suc t) (seqKeyFor r p) of None \<Rightarrow> 0 | Some q \<Rightarrow> q),
         Timestamp = Clock n (Suc t), Payload = msgPayload msg\<rparr>))"

lemma SendAndAwait_cases:
  assumes "SendAndAwait n r eventID msg b = (b', res)"
  shows "\<exists>k. streamLog b' = streamLog b @ replicate k (sentEntry n r eventID msg (netCalls b)) \<and> k \<le> MaxAppendRetries
    \<and> (k = 0 \<longrightarrow> (\<exists>err. res = Inl err))"
proof (cases "SubscribeErr n (netCalls b)")
  case False
  let ?t = "netCalls b" and ?p = "partitionFor r eventID"
  obtain b1 env where e: "createEnvelope n r (msgType msg) eventID (msgPayload msg) ?p (b\<lparr>netCalls := Suc ?t\<rparr>) = (b1, env)"
    by fastforce
  obtain b2 err where ap: "appendCommand n r (RandomID n ?t) env ?p b1 = (b2, err)" by fastforce
  have entry: "(streamFor r ?p, RandomID n ?t, commandToJson env) = sentEntry n r eventID msg ?t" "streamLog b1 = streamLog b"
    using e by (auto simp: createEnvelope_def sentEntry_def Let_def)
  obtain k where "streamLog b2 = streamLog b @ replicate k (sentEntry n r eventID msg ?t)" "k \<le> MaxAppendRetries" "\<not> err \<longrightarrow> 0 < k"
    using appendRetry_log [OF ap [unfolded appendCommand_def]] entry by auto
  moreover have "b' = b2" "err \<longrightarrow> (\<exists>e. res = Inl e)"
    using assms False e ap by (auto simp: SendAndAwait_def Let_def split: bool.splits prod.splits)
  ultimately show ?thesis by auto
qed (use assms in \<open>auto simp: SendAndAwait_def Let_def intro: exI [of _ 0]\<close>)

section \<open>The commands of a request\<close>

text \<open>Every entry of the log after a request was there before or satisfies \<open>P\<close>.\<close>

definition sends :: "(string \<times> string \<times> json \<Rightarrow> bool) \<Rightarrow> Service \<Rightarrow> Service \<Rightarrow> bool" where
  "sends P s s' \<longleftrightarrow> (\<exists>new. streamLog (bus s') = streamLog (bus s) @ new \<and> list_all P new)"

lemma sends_refl [simp]: "sends P s s"
  by (simp add: sends_def)

lemma sends_bus: "bus s' = bus s \<Longrightarrow> sends P s s'"
  by (simp add: sends_def)

lemma ask_frame: "ask a q s = (s', r) \<Longrightarrow> bus s' = bus s"
  by (auto simp: ask_def split: prod.splits)

lemma sendAndAwait_sends:
  assumes "sendAndAwait a eventID typ payload s = (s', r)"
    and "\<And>t. P (sentEntry (net a) (apiRouter a) eventID \<lparr>msgType = typ, msgPayload = Some payload\<rparr> t)"
  shows "sends P s s'"
proof -
  obtain b res where sent: "SendAndAwait (net a) (apiRouter a) eventID \<lparr>msgType = typ, msgPayload = Some payload\<rparr> (bus s) = (b, res)"
    by fastforce
  then have "bus s' = b" using assms(1) by (auto simp: sendAndAwait_def)
  then show ?thesis using SendAndAwait_cases [OF sent] assms(2) by (auto simp: sends_def list_all_iff)
qed

lemma relay_frame [simp]: "fst (relay x) = fst x"
  by (cases x) (auto simp: relay_def split: sum.splits)

lemma sends_trans: "sends P s s1 \<Longrightarrow> sends P s1 s2 \<Longrightarrow> sends P s s2"
  by (auto simp: sends_def)

lemma fanout_sends:
  "fanout n r typ payload ps b = (b', err) \<Longrightarrow> (\<And>b b' env p. createEnvelope n (Some r) typ [] payload p b = (b', env) \<Longrightarrow>
     P (Stream r p, [], commandToJson env)) \<Longrightarrow> \<exists>new. streamLog b' = streamLog b @ new \<and> list_all P new"
proof (induction ps arbitrary: b)
  case (Cons p ps)
  obtain b1 env where e: "createEnvelope n (Some r) typ [] payload p b = (b1, env)" by fastforce
  obtain b2 err2 where x: "xadd n (Stream r p) [] (commandToJson env) b1 = (b2, err2)" by fastforce
  have log: "streamLog b1 = streamLog b" using e by (auto simp: createEnvelope_def Let_def)
  obtain k where k: "streamLog b2 = streamLog b @ replicate k (Stream r p, [], commandToJson env)"
    using xadd_log [OF x] log by auto
  have P: "P (Stream r p, [], commandToJson env)" by (rule Cons.prems(2) [OF e])
  show ?case
  proof (cases err2)
    case True
    then show ?thesis using Cons.prems(1) e x k P by (auto simp: list_all_iff)
  next
    case False
    then have "fanout n r typ payload ps b2 = (b', err)" using Cons.prems(1) e x by simp
    then have "\<exists>new. streamLog b' = streamLog b2 @ new \<and> list_all P new" by (rule Cons.IH) (rule Cons.prems(2))
    then show ?thesis using k P by (auto simp: list_all_iff)
  qed
qed simp

lemma fanout_command_sends:
  assumes "\<And>stream env. cmdType env = typ \<Longrightarrow> Payload env = payload \<Longrightarrow> P (stream, [], commandToJson env)"
  shows "sends P s (s\<lparr>bus := fst (SendCommandFanout n r typ payload (bus s))\<rparr>)"
proof (cases r)
  case None
  obtain b env where e: "createEnvelope n None typ [] payload (partitionFor None []) (bus s) = (b, env)" by fastforce
  obtain b2 err where x: "xadd n (streamFor None (partitionFor None [])) [] (commandToJson env) b = (b2, err)" by fastforce
  have "streamLog b = streamLog (bus s)" "cmdType env = typ" "Payload env = payload"
    using e by (auto simp: createEnvelope_def Let_def)
  then show ?thesis using xadd_log [OF x] assms e x None
    by (auto simp: sends_def SendCommandFanout_def SendCommand_def list_all_iff)
next
  case (Some r')
  obtain b err where f: "fanout n r' typ payload (map int [0..<nat (Partitions r')]) (bus s) = (b, err)" by fastforce
  have "\<exists>new. streamLog b = streamLog (bus s) @ new \<and> list_all P new"
    by (rule fanout_sends [OF f]) (rule assms, auto simp: createEnvelope_def Let_def)
  then show ?thesis using Some f by (simp add: sends_def SendCommandFanout_def)
qed

section \<open>Authenticity\<close>

definition activeEvent :: "Api \<Rightarrow> Tables \<Rightarrow> string \<Rightarrow> bool" where
  "activeEvent a t eventID \<longleftrightarrow> (\<exists>i r. ParseUUID (pg a) eventID = Some i \<and> eventsT t i = Some r \<and> isActive r)"

definition streamOf :: "Api \<Rightarrow> string \<Rightarrow> string" where
  "streamOf a eventID = streamFor (apiRouter a) (partitionFor (apiRouter a) eventID)"

text \<open>
  An order command carries the caller's id, a positive quantity and an active event, and stands on the
  stream of that event; a cancellation names an order of the caller and stands on the stream of its event.
\<close>

definition speaksFor :: "Api \<Rightarrow> string \<Rightarrow> Tables \<Rightarrow> string \<times> string \<times> json \<Rightarrow> bool" where
  "speaksFor a header t = (\<lambda>(stream, client, cmd). \<exists>c. commandOfJson (Some cmd) = Some c
     \<and> (cmdType c = CreateOrderCommand \<longrightarrow> (\<exists>claims req. AuthMiddleware a header = Inr claims
          \<and> createOrderReqOfJson (Payload c) = Some req \<and> reqUserID req = claimUserID claims \<and> 0 < reqQuantity req
          \<and> activeEvent a t (reqEventID req) \<and> stream = streamOf a (reqEventID req)))
     \<and> (cmdType c = CancelOrderCommand \<longrightarrow> (\<exists>claims oid i row. AuthMiddleware a header = Inr claims
          \<and> Payload c = Some (JObj [(''eventId'', JStr (rowEventID row)), (''orderId'', JStr oid)])
          \<and> ParseUUID (pg a) oid = Some i \<and> ordersT t i = Some row \<and> rowUserID row = claimUserID claims
          \<and> stream = streamOf a (rowEventID row))))"

lemma speaksFor_other:
  assumes "cmdType env \<noteq> CreateOrderCommand" and "cmdType env \<noteq> CancelOrderCommand" and "Payload env = Some d"
  shows "speaksFor a header t (stream, client, commandToJson env)"
  using assms by (simp add: speaksFor_def command_json_roundtrip)

lemma speaksFor_sent:
  assumes "typ \<noteq> CreateOrderCommand" and "typ \<noteq> CancelOrderCommand"
  shows "speaksFor a header t (sentEntry (net a) (apiRouter a) eventID \<lparr>msgType = typ, msgPayload = Some payload\<rparr> n)"
  unfolding sentEntry_def Let_def by (rule speaksFor_other) (use assms in simp_all)

lemma speaksFor_create:
  assumes "AuthMiddleware a header = Inr claims" and "bindOrder a body = Some req" and "\<And>x. int64 (ScalePrice a x)"
    and "activeEvent a t (orEventID req)"
  shows "speaksFor a header t (sentEntry (net a) (apiRouter a) (orEventID req)
    \<lparr>msgType = CreateOrderCommand, msgPayload = Some (orderPayload a (claimUserID claims) orderID req)\<rparr> n)"
proof -
  have q: "0 < orQuantity req" "int64 (orQuantity req)"
    using assms(2) field_decInt_int64 [of "''quantity''" _ 0]
    by (auto simp: bindOrder_def Option.bind_eq_Some_conv int64_def split: if_splits)
  then show ?thesis using assms(1,3,4)
    by (simp add: speaksFor_def sentEntry_def Let_def command_json_roundtrip createOrderReqOfJson_def orderPayload_def streamOf_def)
qed

lemma ask_reads:
  "ask a (GetEventByID i) s = (s', Inr ev) \<Longrightarrow> eventsT (tables (db s)) i = Some ev"
  "ask a (GetOrderByID i) s = (s', Inr row) \<Longrightarrow> ordersT (tables (db s)) i = Some row"
  by (auto simp: ask_def query_def GetEventByID_def GetOrderByID_def Let_def split: prod.splits if_splits sum.splits option.splits)

lemma relay_sends:
  assumes "\<And>n. P (sentEntry (net a) (apiRouter a) eventID \<lparr>msgType = typ, msgPayload = Some payload\<rparr> n)" and "bus s' = bus s"
  shows "sends P s (fst (relay (sendAndAwait a eventID typ payload s')))"
proof -
  obtain s2 r where "sendAndAwait a eventID typ payload s' = (s2, r)" by fastforce
  then show ?thesis using sendAndAwait_sends [of a eventID "typ" payload s' s2 r P] assms sends_trans [OF sends_bus [OF assms(2)]]
    by simp
qed

lemma streamLog_calls [simp]: "sends P s (s\<lparr>bus := (bus s)\<lparr>netCalls := m\<rparr>\<rparr>)"
  by (simp add: sends_def)

lemma CreateOrder_sends:
  assumes auth: "AuthMiddleware a header = Inr claims" and "\<And>x. int64 (ScalePrice a x)"
  shows "sends (speaksFor a header (tables (db s))) s (fst (CreateOrder a (Some (claimUserID claims)) body s))"
proof (cases "bindOrder a body")
  case (Some req)
  show ?thesis
  proof (cases "ParseUUID (pg a) (orEventID req)")
    case (Some i)
    obtain s1 r where asked: "ask a (GetEventByID i) s = (s1, r)" by fastforce
    let ?s2 = "if orOrderID req = [] then s1\<lparr>bus := (bus s1)\<lparr>netCalls := Suc (netCalls (bus s1))\<rparr>\<rparr> else s1"
      and ?P = "speaksFor a header (tables (db s))"
    have bus: "sends ?P s s1" using ask_frame [OF asked] by (rule sends_bus)
    show ?thesis
    proof (cases "\<exists>ev. r = Inr ev \<and> isActive ev")
      case True
      then have "activeEvent a (tables (db s)) (orEventID req)" using ask_reads(1) asked Some by (auto simp: activeEvent_def)
      then have "?P (sentEntry (net a) (apiRouter a) (orEventID req)
          \<lparr>msgType = CreateOrderCommand, msgPayload = Some (orderPayload a (claimUserID claims) orderID req)\<rparr> n)" for orderID n
        by (rule speaksFor_create [OF auth \<open>bindOrder a body = Some req\<close> assms(2)])
      then have "sends ?P ?s2 (fst (relay (sendAndAwait a (orEventID req) CreateOrderCommand
          (orderPayload a (claimUserID claims) orderID req) ?s2)))" for orderID
        by (rule relay_sends) simp
      moreover have "sends ?P s ?s2" using bus sends_trans [OF bus streamLog_calls] by simp
      ultimately have "sends ?P s (fst (relay (sendAndAwait a (orEventID req) CreateOrderCommand
          (orderPayload a (claimUserID claims) orderID req) ?s2)))" for orderID
        using sends_trans by blast
      then show ?thesis using True \<open>bindOrder a body = Some req\<close> Some asked
        by (elim exE conjE) (cases "orOrderID req = []"; simp add: CreateOrder_def withUser_def Let_def)
    next
      case False
      then show ?thesis using \<open>bindOrder a body = Some req\<close> Some asked bus
        by (cases r) (simp_all add: CreateOrder_def withUser_def)
    qed
  qed (use Some in \<open>simp add: CreateOrder_def withUser_def\<close>)
qed (simp add: CreateOrder_def withUser_def)

lemma DeleteOrder_sends:
  assumes auth: "AuthMiddleware a header = Inr claims"
  shows "sends (speaksFor a header (tables (db s))) s (fst (DeleteOrder a (Some (claimUserID claims)) oid s))"
proof (cases "ParseUUID (pg a) oid")
  case (Some i)
  obtain s1 r where asked: "ask a (GetOrderByID i) s = (s1, r)" by fastforce
  have bus: "bus s1 = bus s" by (rule ask_frame [OF asked])
  show ?thesis
  proof (cases "\<exists>row. r = Inr row \<and> rowUserID row = claimUserID claims")
    case True
    then obtain row where row: "r = Inr row" "rowUserID row = claimUserID claims" by blast
    have "speaksFor a header (tables (db s)) (sentEntry (net a) (apiRouter a) (rowEventID row) \<lparr>msgType = CancelOrderCommand,
        msgPayload = Some (JObj [(''eventId'', JStr (rowEventID row)), (''orderId'', JStr oid)])\<rparr> n)" for n
      using ask_reads(2) [of a i s s1 row] asked row Some auth
      by (auto simp: speaksFor_def sentEntry_def Let_def command_json_roundtrip streamOf_def)
    then have "sends (speaksFor a header (tables (db s))) s (fst (relay (sendAndAwait a (rowEventID row) CancelOrderCommand
        (JObj [(''eventId'', JStr (rowEventID row)), (''orderId'', JStr oid)]) s1)))"
      by (rule relay_sends) (rule bus)
    then show ?thesis using row Some asked by (simp add: DeleteOrder_def withUser_def)
  qed (use Some asked sends_bus [OF bus] in \<open>auto simp: DeleteOrder_def withUser_def split: sum.splits\<close>)
qed (simp add: DeleteOrder_def withUser_def)

lemma GetOrderbook_sends: "sends (speaksFor a header t) s (fst (GetOrderbook a ev s))"
proof (cases "ParseUUID (pg a) ev")
  case (Some i)
  obtain s1 r where asked: "ask a (GetEventByID i) s = (s1, r)" by fastforce
  have bus: "bus s1 = bus s" by (rule ask_frame [OF asked])
  have "sends (speaksFor a header t) s (fst (relay (sendAndAwait a ev GetDepthCommand (JObj [(''eventId'', JStr ev)]) s1)))"
    by (rule relay_sends, rule speaksFor_sent) (simp_all add: const_defs bus)
  then show ?thesis using Some asked sends_bus [OF bus] by (cases r) (simp_all add: GetOrderbook_def)
qed (simp add: GetOrderbook_def)

lemma CreateEvent_sends: "sends (speaksFor a header t) s (fst (CreateEvent a body s))"
proof (cases "bindEvent a body")
  case (Some req)
  show ?thesis
  proof (cases "ParseTime a (evExpiresAt req)")
    case (Some x)
    obtain s1 r where asked: "ask a (InsertEvent (pg a) (trips (db s)) (evTitle req) (evDescription req) (evQuestion req)
        (evImageURL req) x) s = (s1, r)" by fastforce
    have bus: "sends (speaksFor a header t) s s1" using ask_frame [OF asked] by (rule sends_bus)
    show ?thesis
    proof (cases r)
      case (Inr e)
      obtain i ev where e: "e = (i, ev)" by fastforce
      obtain s2 q where sent: "sendAndAwait a i CreateEventCommand (JObj [(''eventId'', JStr i),
          (''expiresAt'', JStr (FormatTime a (expiresAt ev))), (''title'', JStr (title ev))]) s1 = (s2, q)" by fastforce
      have "sends (speaksFor a header t) s1 s2"
        by (rule sendAndAwait_sends [OF sent], rule speaksFor_sent) simp_all
      then have s2: "sends (speaksFor a header t) s s2" by (rule sends_trans [OF bus])
      moreover have "sends (speaksFor a header t) s (fst (ask a (DeleteEvent (pg a) i) s2))"
        using sends_trans [OF s2 sends_bus] ask_frame by (metis prod.collapse)
      ultimately show ?thesis using \<open>bindEvent a body = Some req\<close> Some asked Inr e sent by (simp add: CreateEvent_def)
    qed (use \<open>bindEvent a body = Some req\<close> Some asked bus in \<open>simp add: CreateEvent_def\<close>)
  qed (use Some in \<open>simp add: CreateEvent_def\<close>)
qed (simp add: CreateEvent_def)

lemma Signup_sends: "sends (speaksFor a header t) s (fst (Signup a body s))"
proof (cases "bindCredentials a 6 body")
  case (Some c)
  obtain email pw where c: "c = (email, pw)" by fastforce
  obtain s1 r where asked: "ask a (GetUserByEmail (pg a) email) s = (s1, r)" by fastforce
  have bus: "sends (speaksFor a header t) s s1" using ask_frame [OF asked] by (rule sends_bus)
  show ?thesis
  proof (cases "HashPassword a (trips (db s1)) pw")
    case (Some h)
    obtain s2 q where made: "ask a (CreateUser (pg a) (trips (db s1)) email h) s1 = (s2, q)" by fastforce
    have s2: "sends (speaksFor a header t) s s2" using sends_trans [OF bus sends_bus] ask_frame [OF made] by simp
    have fan: "sends (speaksFor a header t) s2 (s2\<lparr>bus := fst (SendCommandFanout (net a) (apiRouter a) UserCreatedCommand (Some d) (bus s2))\<rparr>)" for d
      by (rule fanout_command_sends, rule speaksFor_other) simp_all
    then show ?thesis
      using sends_trans [OF s2 fan] s2 bus c asked made Some \<open>bindCredentials a 6 body = Some c\<close>
      by (auto simp: Signup_def split: sum.split)
  qed (use c asked bus Some in \<open>auto simp: Signup_def split: sum.split\<close>)
qed (simp add: Signup_def)

lemma Signin_sends: "sends P s (fst (Signin a body s))"
proof (cases "bindCredentials a 1 body")
  case (Some c)
  obtain s1 r where asked: "ask a (GetUserByEmail (pg a) (fst c)) s = (s1, r)" by fastforce
  have "sends P s s1" using ask_frame [OF asked] by (rule sends_bus)
  then show ?thesis using Some asked by (cases c) (auto simp: Signin_def split: sum.split option.split)
qed (simp add: Signin_def)

lemma reads_send: "sends P s (fst (GetEvents a s))" "sends P s (fst (GetEvent a i s))"
  using ask_frame [of a "GetActiveEvents (pg a)" s] ask_frame [of a "GetEventByID j" s for j]
  by (auto simp: GetEvents_def GetEvent_def intro: sends_bus split: option.split sum.split prod.split)

lemma protected_sends:
  assumes auth: "AuthMiddleware a header = Inr claims" and "\<And>x. int64 (ScalePrice a x)"
  shows "sends (speaksFor a header (tables (db s))) s (fst (protected a (Some (claimUserID claims)) r s))"
  using CreateOrder_sends [OF assms] DeleteOrder_sends [OF auth] GetOrderbook_sends CreateEvent_sends reads_send
  by (cases r) (simp_all add: Me_def ApiGetPosition_def ApiGetBalances_def withUser_def)

lemma SetupRoutes_sends:
  assumes "\<And>x. int64 (ScalePrice a x)"
  shows "sends (speaksFor a header (tables (db s))) s (fst (SetupRoutes a header r s))"
  using protected_sends [OF _ assms, of header _ s r] Signup_sends Signin_sends
  by (cases r; cases "AuthMiddleware a header") simp_all

text \<open>
  C26. Whatever is requested with whatever header and body: the commands it puts on the streams speak for the
  caller. An order command carries the user id of the validated token, a positive quantity and an event
  that is active, and a cancellation an order that belongs to that user; both go to the stream of the event.
\<close>

theorem commands_speak_for_caller:
  assumes "SetupRoutes a header r s = (s', ans)" and "\<forall>x. int64 (ScalePrice a x)"
  shows "\<exists>new. streamLog (bus s') = streamLog (bus s) @ new \<and> list_all (speaksFor a header (tables (db s))) new"
  using SetupRoutes_sends [of a header s r] assms by (simp add: sends_def)

lemma awaitResponse_id: "awaitResponse q rs = Inr resp \<Longrightarrow> respRequestID resp = q"
  by (induction q rs rule: awaitResponse.induct) (auto split: option.splits if_splits)

text \<open>
  C27. A command is appended at most three times, always as the same entry with the same request id, and at
  least once when an answer is returned; and only the answer to this very request is ever returned.
\<close>

theorem command_at_least_once:
  assumes "SendAndAwait n r eventID msg b = (b', res)"
  shows "\<exists>k. k \<le> 3 \<and> streamLog b' = streamLog b @ replicate k (sentEntry n r eventID msg (netCalls b))
    \<and> (\<forall>resp. res = Inr resp \<longrightarrow> 0 < k \<and> respRequestID resp = UUID n (Suc (netCalls b)))"
proof -
  have "respRequestID resp = UUID n (Suc (netCalls b))" if "res = Inr resp" for resp
    using assms that awaitResponse_id
    by (auto simp: SendAndAwait_def createEnvelope_def Let_def split: if_splits prod.splits bool.splits)
  then show ?thesis using SendAndAwait_cases [OF assms] by (fastforce simp: MaxAppendRetries_def)
qed

section \<open>A small service\<close>

text \<open>
  One caller \<open>b\<close> with the token \<open>tok\<close>, over the database of \<open>DB_Scenario\<close>; the first append of a request
  takes effect but its answer is lost, the second succeeds, and the engine's answer comes back.
\<close>

definition net0 :: Net where
  "net0 = \<lparr>IncrSeq = (\<lambda>n _. Some (word_of_nat n)), UUID = (\<lambda>n. replicate (Suc n) CHR ''r''), RandomID = (\<lambda>n. replicate (Suc n) CHR ''c''),
     Clock = int, SubscribeErr = (\<lambda>_. False), XAddCall = (\<lambda>n. if n = 2 then AnswerLost else Answered),
     Replies = (\<lambda>_. [Message (Some (responseToJson \<lparr>Success = True, Error = [], respRequestID = ''rr'', Data = Some JNull\<rparr>))])\<rparr>"

definition api0 :: Api where
  "api0 = \<lparr>pg = pg0, net = net0, apiRouter = Some (NewRouter 2 ''commands''),
     ValidateToken = (\<lambda>t. if t = ''tok'' then Some \<lparr>claimUserID = ''b'', claimEmail = ''u''\<rparr> else None), GenerateToken = (\<lambda>_ _. None),
     HashPassword = (\<lambda>_. Some), ComparePassword = (=), IsEmail = (\<lambda>_. True), IsURL = (\<lambda>_. True), ParseTime = (\<lambda>_. Some 0),
     FormatTime = (\<lambda>_. []), FloatSign = (\<lambda>j. case j of JNum n \<Rightarrow> sgn n | _ \<Rightarrow> 1),
     ScalePrice = (\<lambda>j. case j of JNum n \<Rightarrow> i64 (n * 10000) | _ \<Rightarrow> 1)\<rparr>"

definition service0 :: Service where
  "service0 = \<lparr>db = db0, bus = \<lparr>streamLog = [], netCalls = 0\<rparr>\<rparr>"

definition orderBody :: "string \<Rightarrow> raw" where
  "orderBody i = Some (JObj [(''orderId'', JStr i), (''eventId'', JStr ''e''), (''orderType'', JStr ''LIMIT''), (''outcome'', JStr ''YES''),
     (''side'', JStr ''BUY''), (''quantity'', JNum 3), (''price'', JNum 1)])"

lemma service0_order:
  "length (streamLog (bus (fst (SetupRoutes api0 ''Bearer tok'' (PostOrder (orderBody ''9'')) service0)))) = 2"
  "snd (SetupRoutes api0 ''Bearer tok'' (PostOrder (orderBody ''9'')) service0) = (200, EngineData (Some JNull))"
  by code_simp+

theorem commands_speak_for_caller_witness:
  "\<exists>x. x \<in> set (streamLog (bus (fst (SetupRoutes api0 ''Bearer tok'' (PostOrder (orderBody ''9'')) service0))))
     \<and> speaksFor api0 ''Bearer tok'' (tables db0) x"
proof -
  have "\<forall>x. int64 (ScalePrice api0 x)" by (simp add: api0_def int64_nonneg split: json.split)
  from commands_speak_for_caller [OF prod.collapse [symmetric] this, of "''Bearer tok''" "PostOrder (orderBody ''9'')" service0]
  obtain new where "streamLog (bus (fst (SetupRoutes api0 ''Bearer tok'' (PostOrder (orderBody ''9'')) service0))) = new"
    "list_all (speaksFor api0 ''Bearer tok'' (tables db0)) new"
    by (auto simp: service0_def)
  then show ?thesis using service0_order(1) by (cases new) auto
qed

theorem command_at_least_once_witness:
  "\<exists>k. 0 < k \<and> k \<le> 3 \<and> streamLog (fst (SendAndAwait net0 None ''e'' \<lparr>msgType = GetDepthCommand, msgPayload = Some JNull\<rparr> (bus service0)))
     = replicate k (sentEntry net0 None ''e'' \<lparr>msgType = GetDepthCommand, msgPayload = Some JNull\<rparr> 0)"
proof -
  have "\<not> isl (snd (SendAndAwait net0 None ''e'' \<lparr>msgType = GetDepthCommand, msgPayload = Some JNull\<rparr> (bus service0)))"
    by code_simp
  then have "\<exists>resp. snd (SendAndAwait net0 None ''e'' \<lparr>msgType = GetDepthCommand, msgPayload = Some JNull\<rparr> (bus service0)) = Inr resp"
    by (metis sum.collapse(2))
  with command_at_least_once [OF prod.collapse [symmetric], of net0 None "''e''" "\<lparr>msgType = GetDepthCommand, msgPayload = Some JNull\<rparr>" "bus service0"]
  show ?thesis by (auto simp: service0_def)
qed

end
