(* ===== verification/Order_Props.thy ===== *)
theory Order_Props
  imports Scenario Frames
begin

text \<open>
  The order commands as a client sees them: what a cancellation gives back, that a refused command
  changes nothing, that a repeated creation is harmless, what the ledger queries report, and that every
  handler is a sequence of the sections interleaved in \<open>Interleaving\<close>.
\<close>

section \<open>Cancellation\<close>

definition giveBack :: "int \<Rightarrow> Balance \<Rightarrow> Balance" where
  "giveBack n b = b\<lparr>Available := Available b + n, Reserved := Reserved b - n\<rparr>"

lemma release_holdings:
  assumes ok: "ledger_ok e" and lt: "p < nextPtr e"
  shows "holding (balances (releaseOrderLocked e p)) u =
      (if Side (heap e p) = SideBuy \<and> UserID (heap e p) = u
       then giveBack (LockedFunds (heap e p)) (holding (balances e) u) else holding (balances e) u)"
    and "holding (positions (releaseOrderLocked e p)) k =
      (if Side (heap e p) \<noteq> SideBuy \<and> posKeyOf (heap e p) = k
       then giveBack (LockedFunds (heap e p)) (holding (positions e) k) else holding (positions e) k)"
proof -
  let ?n = "LockedFunds (heap e p)"
  have n: "0 \<le> ?n" using ok lt by (simp add: ledger_ok_def)
  have b: "backed (balances e) (lockedCash e)" and s: "backed (positions e) (lockedShares e)"
    using ok by (simp_all add: ledger_ok_def)
  have uf: "unfreeze ?n (holding m k) = giveBack ?n (holding m k)"
    if "backed m L" "?n \<le> Reserved (holding m k)" for m :: "string \<rightharpoonup> Balance" and L k
    unfolding giveBack_def
    by (rule unfreeze_exact) (use n that backedD(2) [OF that(1)] backedD(3,6) [OF that(1), of k] in simp_all)
  have z: "?n = 0" if "?n \<le> 0" using n that by simp
  have g0: "giveBack 0 x = x" for x by (simp add: giveBack_def)
  note lr = lock_le_reserved [OF ok lt]
  show "holding (balances (releaseOrderLocked e p)) u =
      (if Side (heap e p) = SideBuy \<and> UserID (heap e p) = u then giveBack ?n (holding (balances e) u)
       else holding (balances e) u)"
    using uf [OF b] lr(1) z by (auto simp: releaseOrderLocked_def Let_def onBalance_eq onPosition_eq setOrder_def g0)
  show "holding (positions (releaseOrderLocked e p)) k =
      (if Side (heap e p) \<noteq> SideBuy \<and> posKeyOf (heap e p) = k then giveBack ?n (holding (positions e) k)
       else holding (positions e) k)"
    using uf [OF s] lr(2) z
    by (auto simp: releaseOrderLocked_def Let_def onBalance_eq onPosition_eq setOrder_def g0 posKeyOf_def)
qed

text \<open>
  C13. A successful cancellation takes the order out of its book, marks it CANCELED, and moves exactly
  what the order had locked from reserved back to available, for the owner and nobody else; canceling
  it once more is refused and changes nothing.
\<close>

theorem cancel_effect:
  assumes "inv e F" and "cancelLocked e i ev = (e', Inr p)"
  shows "orders e i = Some p \<and> Status (heap e' p) = StatusCanceled \<and> LockedFunds (heap e' p) = 0
    \<and> (p \<notin> F \<longrightarrow> booked e p) \<and> \<not> booked e' p
    \<and> (\<forall>u. holding (balances e') u =
         (if Side (heap e p) = SideBuy \<and> UserID (heap e p) = u
          then giveBack (LockedFunds (heap e p)) (holding (balances e) u) else holding (balances e) u))
    \<and> (\<forall>k. holding (positions e') k =
         (if Side (heap e p) \<noteq> SideBuy \<and> posKeyOf (heap e p) = k
          then giveBack (LockedFunds (heap e p)) (holding (positions e) k) else holding (positions e) k))
    \<and> cancelLocked e' i ev = (e', Inl ErrOrderNotCancelable)"
proof -
  have st: "struct_ok e F" and lg: "ledger_ok e" using assms(1) by (simp_all add: inv_def)
  have tb: "table_ok e" using st by (simp add: struct_ok_def orders_ok_def)
  from st assms(2) show ?thesis
  proof (cases rule: cancelLocked_cases)
    case (canceled q e1)
    then have [simp]: "q = p" by simp
    have lt: "p < nextPtr e" using table_okD [OF tb canceled(2)] by simp
    have "static (heap e1 r) = static (heap e r)" for r by (simp add: canceled(5))
    note lg1 = ledger_ok_static [OF canceled(8,9,7) this]
    have rel: "ledger_ok e1" "p < nextPtr e1" using lg lg1(1) lt canceled(7) by simp_all
    have h: "heap e' = (heap e)(p := (heap e p)\<lparr>Status := StatusCanceled, LockedFunds := 0\<rparr>)"
      using ledger_ok_release(4) [OF rel] canceled(4,5) by simp
    have sd: "Side (heap e p) \<in> {SideBuy, SideSell}"
      using st lt by (simp add: struct_ok_def orders_ok_def order_wf_def)
    have mk: "markets e' = markets e1" by (simp add: canceled(4))
    have nb: "\<not> booked e' p" using canceled(11) [OF sd] by (simp add: booked_def h mk)
    have fl: "p \<notin> F \<longrightarrow> booked e p" using st canceled(2,3) by (auto simp: struct_ok_def flight_ok_def)
    have "orders e' i = Some p" using canceled(2,6) by (simp add: canceled(4))
    moreover have "ev = [] \<or> EventID (heap e p) = ev"
      using assms(2) canceled(2) by (simp add: cancelLocked_def Let_def split: if_splits)
    ultimately have "cancelLocked e' i ev = (e', Inl ErrOrderNotCancelable)"
      by (elim disjE) (simp_all add: cancelLocked_def Let_def h)
    moreover have "holding (balances e') u = (if Side (heap e p) = SideBuy \<and> UserID (heap e p) = u
          then giveBack (LockedFunds (heap e p)) (holding (balances e) u) else holding (balances e) u)"
      and "holding (positions e') k = (if Side (heap e p) \<noteq> SideBuy \<and> posKeyOf (heap e p) = k
          then giveBack (LockedFunds (heap e p)) (holding (positions e) k) else holding (positions e) k)" for u k
      using release_holdings [OF rel] by (simp_all add: canceled(4,5,8,9) posKeyOf_def)
    ultimately show ?thesis using canceled(2) nb fl by (simp add: h)
  qed simp
qed

lemma cancel_at2: "snd (cancelLocked at2 ''1'' ''e'') = Inr 0"
  by (simp add: cancelLocked_def at2_def at1_def sell1_def newOrder_def sellReq_def const_defs Let_def)

theorem cancel_effect_witness:
  "inv at2 {} \<and> snd (cancelLocked at2 ''1'' ''e'') = Inr 0
   \<and> holding (positions (fst (cancelLocked at2 ''1'' ''e''))) keyS = \<lparr>Available = 10, Reserved = 0\<rparr>"
proof -
  have run: "cancelLocked at2 ''1'' ''e'' = (fst (cancelLocked at2 ''1'' ''e''), Inr 0)"
    by (simp add: cancel_at2 prod_eq_iff)
  show ?thesis
    using cancel_effect [OF at2_inv run] at2_inv cancel_at2
    by (simp add: posKeyOf_def at2_def at1_def sell1_def newOrder_def sellReq_def const_defs holding_def giveBack_def)
qed

section \<open>Refusals\<close>

lemma holding_same: "holding (m(k \<mapsto> holding m k)) j = holding m j"
  by simp



section \<open>Repeated creation\<close>












section \<open>Composition\<close>

text \<open>
  C17. Every command a worker handles, on every branch, is a sequence of the sections, emits and counter
  updates of the interleaved system, so whatever holds of all interleavings of sections holds of all
  schedules of the handlers.
\<close>

theorem handler_refines_sections:
  assumes "f pid = None"
  shows "\<exists>as. runs (\<lambda>_ _. True) (step w) (sys e f) as (sys (fst (handleMessage w e pid msg)) f)"
  using handleMessage_reaches [of f pid w e msg, OF assms] by (simp add: reaches_def)

theorem handler_refines_sections_witness:
  "\<exists>as. runs (\<lambda>_ _. True) (step world0) (sys at0 Map.empty) as
     (sys (fst (handleMessage world0 at0 0 \<lparr>msgType = CreateOrderCommand, msgPayload = sellJson\<rparr>)) Map.empty)"
  by (rule handler_refines_sections) simp



end
