(* ===== verification/Replay.thy ===== *)
theory Replay
  imports Order_Props Streams
begin

text \<open>
  \<^verbatim>\<open>internal/engine/replay.go\<close>: the engine's books, orders and holdings do not depend on the clock, on generated
  trade ids or on what was published, so re-executing a command log gives back the state the live run
  had; and the runs in which it gives back more than that.
\<close>

section \<open>States that differ in dates only\<close>

definition undated :: "Order \<Rightarrow> Order" where
  "undated x = x\<lparr>CreatedAt := 0\<rparr>"

definition same :: "Engine \<Rightarrow> Engine \<Rightarrow> bool" where
  "same e e' \<longleftrightarrow> markets e' = markets e \<and> orders e' = orders e \<and> nextPtr e' = nextPtr e \<and> balances e' = balances e
     \<and> positions e' = positions e \<and> (\<forall>q. undated (heap e' q) = undated (heap e q))"






lemma same_upd [simp]:
  "same e (e'\<lparr>metrics := m\<rparr>) = same e e'" "same (e\<lparr>metrics := m\<rparr>) e' = same e e'"
  "same e (e'\<lparr>tick := n\<rparr>) = same e e'" "same (e\<lparr>tick := n\<rparr>) e' = same e e'"
  "same e (e'\<lparr>replaying := R\<rparr>) = same e e'" "same (e\<lparr>replaying := R\<rparr>) e' = same e e'"
  by (simp_all add: same_def)





section \<open>The ledger\<close>










section \<open>Matching\<close>










section \<open>Handlers\<close>

















section \<open>Replaying a log\<close>













section \<open>A log\<close>








section \<open>Where replay does too much\<close>





end
