(* ===== verification/Outbox_Props.thy ===== *)
theory Outbox_Props
  imports Scenario
begin

text \<open>
  The journal of \<^verbatim>\<open>internal/engine/outbox.go\<close>: what a restart republishes, and what the emit cycle
  discards before there is a restart.
\<close>

section \<open>Recovery\<close>

definition intact :: "EventEnvelope \<Rightarrow> bool" where
  "intact env \<longleftrightarrow> int64 (PartitionID env) \<and> envData env \<noteq> None"

lemma intact_decodes: "intact env \<Longrightarrow> envelopeOfJson (Some (envelopeToJson env)) = Some env"
  unfolding intact_def by (auto intro: envelope_json_roundtrip)

lemma republishAll_lines:
  assumes "\<forall>t. \<not> XAddErr w t \<and> \<not> PublishErr w t"
  shows "list_all intact envs \<Longrightarrow> republishAll w e (map (\<lambda>env. Some (envelopeToJson env)) envs) stream channel = (e', err) \<Longrightarrow>
    \<not> err \<and> xadds e' = xadds e @ map (\<lambda>env. (stream, envelopeToJson env)) envs
    \<and> publishes e' = publishes e @ map (\<lambda>env. (channel, envelopeToJson env)) (filter (\<lambda>env. envType env = EventTradeExecuted) envs)"
proof (induction envs arbitrary: e)
  case (Cons env envs)
  define e1 where "e1 = fst (republishEnvelope w e (Some (envelopeToJson env)) stream channel)"
  have r: "republishEnvelope w e (Some (envelopeToJson env)) stream channel = (e1, False)"
    and e1: "xadds e1 = xadds e @ [(stream, envelopeToJson env)]"
      "publishes e1 = publishes e @ (if envType env = EventTradeExecuted then [(channel, envelopeToJson env)] else [])"
    using assms Cons.prems(1) by (simp_all add: e1_def republishEnvelope_def publishEnvelope_def intact_decodes Let_def)
  have "republishAll w e1 (map (\<lambda>env. Some (envelopeToJson env)) envs) stream channel = (e', err)"
    using Cons.prems(2) r by simp
  from Cons.IH [OF _ this] Cons.prems(1) e1 show ?case by simp
qed simp

text \<open>
  C28. Once Redis and the disk are back, a restart gets every envelope of the journal to the event stream, in
  the order in which they were written, and the trades among them to the channel as well; then the
  journal is empty.
\<close>

theorem recover_republishes:
  assumes "\<forall>t. \<not> XAddErr w t \<and> \<not> PublishErr w t \<and> \<not> TruncateErr w t"
    and "outbox e = Some (map (\<lambda>env. Some (envelopeToJson env)) envs)" and "list_all intact envs"
    and "Recover w False e stream channel = (e', err)"
  shows "\<not> err \<and> outbox e' = Some [] \<and> xadds e' = xadds e @ map (\<lambda>env. (stream, envelopeToJson env)) envs
    \<and> publishes e' = publishes e @ map (\<lambda>env. (channel, envelopeToJson env)) (filter (\<lambda>env. envType env = EventTradeExecuted) envs)"
proof (cases "envs = []")
  case True
  then show ?thesis using assms(2,4) by (simp add: Recover_def)
next
  case False
  obtain e1 err1 where r: "republishAll w e (map (\<lambda>env. Some (envelopeToJson env)) envs) stream channel = (e1, err1)" by fastforce
  have "\<forall>t. \<not> XAddErr w t \<and> \<not> PublishErr w t" using assms(1) by simp
  from republishAll_lines [OF this assms(3) r] show ?thesis
    using assms(1,2,4) False r by (auto simp: Recover_def Reset_def Let_def)
qed

text \<open>A recovery that fails half way keeps the whole journal.\<close>

lemma republishAll_outbox: "outbox (fst (republishAll w e ls stream channel)) = outbox e"
proof (induction ls arbitrary: e)
  case (Cons l ls)
  have "outbox (fst (republishEnvelope w e l stream channel)) = outbox e"
    by (simp add: republishEnvelope_def publishEnvelope_def Let_def split: option.split)
  then show ?case using Cons by (simp add: Let_def case_prod_beta)
qed simp

lemma failed_recovery_keeps_journal:
  assumes "Recover w readErr e stream channel = (e', True)"
  shows "outbox e' = outbox e"
  using assms republishAll_outbox [of w e _ stream channel]
  by (auto simp: Recover_def Reset_def Let_def case_prod_beta split: if_splits option.splits)

section \<open>What is discarded\<close>

text \<open>
  C35. The comment of \<^verbatim>\<open>Outbox\<close> promises that no trade is lost because Redis blipped. But truncating
  the journal after a successful emit drops the envelopes of earlier emits that failed: when an emit is journalled and its stream append fails, and the next emit succeeds, the first envelope
  is neither on the stream nor in the journal, so no restart brings it back.
\<close>

theorem later_emit_discards_journal:
  assumes "emitEventP w e pid ty d b = (e1, True)" and "XAddErr w (tick e)" and "\<not> WriteErr w (tick e)" "\<not> SyncErr w (tick e)"
    and "outbox e = Some file" and "emitEventP w e1 pid' ty' d' b' = (e2, False)" and "pid' \<notin> replaying e" and "redisManager e"
    and "\<not> TruncateErr w (Suc (tick e))"
  shows "\<exists>env env'. envType env = ty \<and> envData env = Some d \<and> envType env' = ty' \<and> envData env' = Some d'
    \<and> outbox e1 = Some (file @ [Some (envelopeToJson env)]) \<and> outbox e2 = Some []
    \<and> xadds e2 = xadds e @ [(eventStream e, envelopeToJson env')]"
proof -
  have act: "pid \<notin> replaying e" using assms(1) by (auto simp: emitEventP_def)
  define env where "env = NewEnvelope (NewString w (tick e)) (Now w (tick e)) ty d pid (tokenOf e pid) (partitionSeq e ! nat pid + 1)"
  have e1: "e1 = e\<lparr>partitionSeq := (partitionSeq e)[nat pid := partitionSeq e ! nat pid + 1], tick := Suc (tick e),
      outbox := Some (file @ [Some (envelopeToJson env)])\<rparr>"
    using assms(1-5,8) act by (auto simp: emitEventP_def Append_def env_def Let_def)
  define env' where "env' = NewEnvelope (NewString w (tick e1)) (Now w (tick e1)) ty' d' pid' (tokenOf e1 pid')
      (partitionSeq e1 ! nat pid' + 1)"
  have "outbox e2 = Some [] \<and> xadds e2 = xadds e1 @ [(eventStream e1, envelopeToJson env')]"
    using assms(6-9) by (auto simp: emitEventP_def Append_def Reset_def env'_def Let_def e1 split: if_splits)
  moreover have "envType env = ty" "envData env = Some d" "envType env' = ty'" "envData env' = Some d'"
    by (simp_all add: env_def env'_def NewEnvelope_def)
  ultimately show ?thesis by (auto simp: e1)
qed

definition blip :: World where
  "blip = world0\<lparr>XAddErr := (\<lambda>t. t = 0)\<rparr>"

theorem later_emit_discards_journal_witness:
  "\<exists>env env'. envType env = EventTradeExecuted \<and> envType env' = EventOrderCreated
     \<and> outbox (fst (emitEventP blip at0 0 EventTradeExecuted JNull True)) = Some [Some (envelopeToJson env)]
     \<and> outbox (fst (emitEventP blip (fst (emitEventP blip at0 0 EventTradeExecuted JNull True)) 0 EventOrderCreated JNull False)) = Some []
     \<and> xadds (fst (emitEventP blip (fst (emitEventP blip at0 0 EventTradeExecuted JNull True)) 0 EventOrderCreated JNull False))
         = [(EventStream, envelopeToJson env')]"
proof -
  let ?e1 = "fst (emitEventP blip at0 0 EventTradeExecuted JNull True)"
  have a: "emitEventP blip at0 0 EventTradeExecuted JNull True = (?e1, True)" "outbox at0 = Some []" "redisManager at0" "tick at0 = 0"
    "0 \<notin> replaying at0" "eventStream at0 = EventStream" "xadds at0 = []"
    by (simp_all add: emitEventP_def at0_def fresh_def blip_def world0_def Append_def Let_def)
  have b: "emitEventP blip ?e1 0 EventOrderCreated JNull False = (fst (emitEventP blip ?e1 0 EventOrderCreated JNull False), False)"
    by (simp add: emitEventP_def at0_def fresh_def blip_def world0_def Append_def Let_def)
  show ?thesis
    using later_emit_discards_journal [OF a(1) _ _ _ a(2) b] a by (auto simp: blip_def world0_def)
qed

definition pending :: "EventEnvelope list" where
  "pending = [NewEnvelope ''1'' 0 EventOrderCreated JNull 0 1 1, NewEnvelope ''2'' 0 EventTradeExecuted JNull 0 1 2]"

theorem recover_republishes_witness:
  "let e = at0\<lparr>outbox := Some (map (\<lambda>env. Some (envelopeToJson env)) pending)\<rparr>; (e', err) = Recover world0 False e ''s'' ''c'' in
     \<not> err \<and> outbox e' = Some [] \<and> map fst (xadds e') = [''s'', ''s''] \<and> map fst (publishes e') = [''c'']"
proof -
  let ?e = "at0\<lparr>outbox := Some (map (\<lambda>env. Some (envelopeToJson env)) pending)\<rparr>"
  have p: "list_all intact pending" by (simp add: pending_def intact_def NewEnvelope_def int64_def)
  have "xadds ?e = []" "publishes ?e = []" by (simp_all add: at0_def fresh_def)
  then show ?thesis
    using recover_republishes [OF _ _ p prod.collapse [symmetric], of world0 ?e "''s''" "''c''"]
    by (simp add: world0_def case_prod_beta pending_def NewEnvelope_def)
qed

end
